theory Spec2Isabelle
  imports Complex_Main
begin

section \<open>Host vectors and matrices\<close>

text \<open>
  The program computes with C++ \<open>double\<close>. Times, coordinates and matrix entries are
  modelled as \<open>real\<close>, and most of the arithmetic is taken exact: overflow to infinity and
  the loss of \<open>++i\<close> on huge magnitudes are outside the model. Rounding is written out in
  the two places where it decides the result: the scan of \<open>getClosestPointOnPolyLine\<close>,
  where a rounded distance decides whether a NaN parameter is stored, and the narrowing of
  a \<open>double\<close> to \<open>float\<close> at the call of \<open>MotionPath::setTangentValue\<close>. A division by
  a zero squared length, which the program text itself reaches, is written out where it
  occurs.

  \<open>MVector\<close> and \<open>MMatrix\<close> are the host's value types: a 3-vector and a 4x4 row-major
  matrix whose default constructor gives the identity.
\<close>

datatype MVector = MVector (vx: real) (vy: real) (vz: real)

datatype MMatrix = MMatrix
  (m00: real) (m01: real) (m02: real) (m03: real)
  (m10: real) (m11: real) (m12: real) (m13: real)
  (m20: real) (m21: real) (m22: real) (m23: real)
  (m30: real) (m31: real) (m32: real) (m33: real)

definition MVector_zero :: MVector where
  "MVector_zero = MVector 0 0 0"

definition MMatrix_identity :: MMatrix where
  "MMatrix_identity = MMatrix 1 0 0 0  0 1 0 0  0 0 1 0  0 0 0 1"

text \<open>\<open>a * b\<close> on matrices.\<close>

definition mat_mult :: "MMatrix \<Rightarrow> MMatrix \<Rightarrow> MMatrix" where
  "mat_mult a b = MMatrix
     (m00 a * m00 b + m01 a * m10 b + m02 a * m20 b + m03 a * m30 b)
     (m00 a * m01 b + m01 a * m11 b + m02 a * m21 b + m03 a * m31 b)
     (m00 a * m02 b + m01 a * m12 b + m02 a * m22 b + m03 a * m32 b)
     (m00 a * m03 b + m01 a * m13 b + m02 a * m23 b + m03 a * m33 b)
     (m10 a * m00 b + m11 a * m10 b + m12 a * m20 b + m13 a * m30 b)
     (m10 a * m01 b + m11 a * m11 b + m12 a * m21 b + m13 a * m31 b)
     (m10 a * m02 b + m11 a * m12 b + m12 a * m22 b + m13 a * m32 b)
     (m10 a * m03 b + m11 a * m13 b + m12 a * m23 b + m13 a * m33 b)
     (m20 a * m00 b + m21 a * m10 b + m22 a * m20 b + m23 a * m30 b)
     (m20 a * m01 b + m21 a * m11 b + m22 a * m21 b + m23 a * m31 b)
     (m20 a * m02 b + m21 a * m12 b + m22 a * m22 b + m23 a * m32 b)
     (m20 a * m03 b + m21 a * m13 b + m22 a * m23 b + m23 a * m33 b)
     (m30 a * m00 b + m31 a * m10 b + m32 a * m20 b + m33 a * m30 b)
     (m30 a * m01 b + m31 a * m11 b + m32 a * m21 b + m33 a * m31 b)
     (m30 a * m02 b + m31 a * m12 b + m32 a * m22 b + m33 a * m32 b)
     (m30 a * m03 b + m31 a * m13 b + m32 a * m23 b + m33 a * m33 b)"

text \<open>The three assignments \<open>pivotMtx[3][0] = v.x; pivotMtx[3][1] = v.y; pivotMtx[3][2] = v.z\<close>.\<close>

definition setRow3 :: "MMatrix \<Rightarrow> MVector \<Rightarrow> MMatrix" where
  "setRow3 m v = MMatrix
     (m00 m) (m01 m) (m02 m) (m03 m)
     (m10 m) (m11 m) (m12 m) (m13 m)
     (m20 m) (m21 m) (m22 m) (m23 m)
     (vx v) (vy v) (vz v) (m33 m)"

section \<open>Binary floating point\<close>

text \<open>
  \<open>round_even\<close> rounds to the nearest integer, a tie going to the even one.
  \<open>round_binary p emin x\<close> is the number with \<open>p\<close> significant bits nearest to \<open>x\<close>,
  a tie going to the even significand, with gradual underflow below \<open>2 ^ emin\<close>: the
  IEEE 754 rounding of \<open>x\<close>, as long as the result is in the range of the format.
\<close>

definition round_even :: "real \<Rightarrow> int" where
  "round_even x =
     (let f = \<lfloor>x\<rfloor>
      in if x - of_int f < 1 / 2 then f
         else if 1 / 2 < x - of_int f then f + 1
         else if even f then f else f + 1)"

definition round_binary :: "nat \<Rightarrow> int \<Rightarrow> real \<Rightarrow> real" where
  "round_binary p emin x =
     (if x = 0 then 0
      else
        (let e = max \<lfloor>log 2 \<bar>x\<bar>\<rfloor> emin;
             ulp = 2 powi (e - (int p - 1))
         in of_int (round_even (x / ulp)) * ulp))"

text \<open>
  \<open>double\<close> has 53 significant bits and the least normal exponent -1022. A result beyond
  the largest double is an infinity in the program and is not modelled: the rounded
  operations below are applied to pixel coordinates, where no intermediate value exceeds
  \<open>2 ^ 67\<close>.
\<close>

definition to_double :: "real \<Rightarrow> real" where
  "to_double x = round_binary 53 (- 1022) x"

definition add_double :: "real \<Rightarrow> real \<Rightarrow> real" where
  "add_double x y = to_double (x + y)"

definition sub_double :: "real \<Rightarrow> real \<Rightarrow> real" where
  "sub_double x y = to_double (x - y)"

definition mul_double :: "real \<Rightarrow> real \<Rightarrow> real" where
  "mul_double x y = to_double (x * y)"

definition div_double :: "real \<Rightarrow> real \<Rightarrow> real" where
  "div_double x y = to_double (x / y)"

text \<open>
  \<open>float\<close> has 24 significant bits, the least normal exponent -126 and the largest value
  \<open>FLT_MAX\<close>. A double narrows to the float nearest to it, and to an infinity when that
  rounding exceeds \<open>FLT_MAX\<close> in magnitude. Negating a float is exact.
\<close>

datatype Float = Float real | PlusInfinity | MinusInfinity

definition FLT_MAX :: real where
  "FLT_MAX = (2 ^ 24 - 1) * 2 ^ 104"

definition to_float :: "real \<Rightarrow> Float" where
  "to_float x =
     (let r = round_binary 24 (- 126) x
      in if FLT_MAX < r then PlusInfinity
         else if r < - FLT_MAX then MinusInfinity
         else Float r)"

fun Float_negate :: "Float \<Rightarrow> Float" where
  "Float_negate (Float v) = Float (- v)"
| "Float_negate PlusInfinity = MinusInfinity"
| "Float_negate MinusInfinity = PlusInfinity"

section \<open>Settings and the scene accessors\<close>

text \<open>
  \<open>GlobalSettings\<close> holds the process-wide switches the modelled functions read;
  \<open>useOpenMP\<close> stands for the build-time macro \<open>_OPENMP\<close> and \<open>cameraSpace\<close> for
  \<open>motionPathDrawMode == kCameraSpace\<close>. \<open>Scene\<close> holds the host
  accessors evaluated at a time: the parent (or world) matrix plug, the two pivot plug
  triples and the translate plug triple.
\<close>

record GlobalSettings =
  usePivots :: bool
  useOpenMP :: bool
  showRotationKeyFrames :: bool
  cameraSpace :: bool
  strokeMode :: int

record Scene =
  pMatrixPlug :: "real \<Rightarrow> MMatrix"
  rpPlugs :: "real \<Rightarrow> MVector"
  rptPlugs :: "real \<Rightarrow> MVector"
  tPlugs :: "real \<Rightarrow> MVector"

section \<open>The parent matrix cache\<close>

record ParentCache =
  pMatrixCache :: "real \<rightharpoonup> MMatrix"
  cachedRangeStart :: real
  cachedRangeEnd :: real
  pMatrixCacheValid :: bool

text \<open>The constructor's initialisation of the cache fields.\<close>

definition ParentCache_init :: ParentCache where
  "ParentCache_init =
     \<lparr>pMatrixCache = Map.empty, cachedRangeStart = 0, cachedRangeEnd = 0,
      pMatrixCacheValid = False\<rparr>"

definition clearParentMatrixCache :: "'a ParentCache_scheme \<Rightarrow> 'a ParentCache_scheme" where
  "clearParentMatrixCache mp = mp\<lparr>pMatrixCache := Map.empty, pMatrixCacheValid := False\<rparr>"

text \<open>
  \<open>getPMatrixAtTime\<close>: the second pivot matrix reuses the variable \<open>pivotMtx\<close> without
  resetting it; only row 3 is overwritten.
\<close>

definition getPMatrixAtTime :: "GlobalSettings \<Rightarrow> Scene \<Rightarrow> real \<Rightarrow> MMatrix" where
  "getPMatrixAtTime gs env evalTime =
     (let m = pMatrixPlug env evalTime in
      if usePivots gs then
        (let piv = rpPlugs env evalTime;
             pivotMtx = setRow3 MMatrix_identity piv;
             m1 = mat_mult pivotMtx m;
             piv2 = rptPlugs env evalTime;
             pivotMtx2 = setRow3 pivotMtx piv2
         in mat_mult pivotMtx2 m1)
      else m)"

definition ensureParentAndPivotMatrixAtTime ::
  "GlobalSettings \<Rightarrow> Scene \<Rightarrow> real \<Rightarrow> 'a ParentCache_scheme \<Rightarrow> 'a ParentCache_scheme" where
  "ensureParentAndPivotMatrixAtTime gs env time mp =
     (if pMatrixCache mp time = None
      then mp\<lparr>pMatrixCache := (pMatrixCache mp)(time \<mapsto> getPMatrixAtTime gs env time)\<rparr>
      else mp)"

text \<open>
  \<open>for (double i = startFrame; i < cachedRangeStart && i <= endFrame; ++i)\<close>:
  the leading frames of the incremental update.
\<close>

function cacheLeadingFrames ::
  "GlobalSettings \<Rightarrow> Scene \<Rightarrow> real \<Rightarrow> real \<Rightarrow> 'a ParentCache_scheme \<Rightarrow> 'a ParentCache_scheme" where
  "cacheLeadingFrames gs env i endFrame mp =
     (if i < cachedRangeStart mp \<and> i \<le> endFrame
      then cacheLeadingFrames gs env (i + 1) endFrame
             (ensureParentAndPivotMatrixAtTime gs env i mp)
      else mp)"
  by pat_completeness auto
termination
  by (relation "measure (\<lambda>(gs, env, i, endFrame, mp). nat (\<lfloor>endFrame - i\<rfloor> + 1))")
     (simp, simp, linarith)

text \<open>\<open>for (double i = from; i <= endFrame; ++i)\<close>: the trailing frames, and the sequential rebuild.\<close>

function cacheFramesUpTo ::
  "GlobalSettings \<Rightarrow> Scene \<Rightarrow> real \<Rightarrow> real \<Rightarrow> 'a ParentCache_scheme \<Rightarrow> 'a ParentCache_scheme" where
  "cacheFramesUpTo gs env i endFrame mp =
     (if i \<le> endFrame
      then cacheFramesUpTo gs env (i + 1) endFrame
             (ensureParentAndPivotMatrixAtTime gs env i mp)
      else mp)"
  by pat_completeness auto
termination
  by (relation "measure (\<lambda>(gs, env, i, endFrame, mp). nat (\<lfloor>endFrame - i\<rfloor> + 1))")
     (simp, simp, linarith)

declare cacheLeadingFrames.simps [simp del]
declare cacheFramesUpTo.simps [simp del]

text \<open>
  \<open>static_cast<int>\<close> of a double truncates toward zero; a value outside the range of
  \<open>int\<close> is undefined in the program and not modelled.
\<close>

definition double_to_int :: "real \<Rightarrow> int" where
  "double_to_int r = (if 0 \<le> r then \<lfloor>r\<rfloor> else \<lceil>r\<rceil>)"

text \<open>
  The three phases of the large rebuild. Phase 1 fills \<open>frames\<close>, \<open>parentMatrices\<close>,
  \<open>rpivots\<close> and \<open>rptivots\<close> on the owning thread; the pivot vectors stay
  default-constructed (zero) when \<open>usePivots\<close> is off. Phase 2 computes each final matrix
  from the gathered values alone. Phase 3 assigns \<open>pMatrixCache[frames[idx]]\<close>.
\<close>

record FrameInput =
  frame :: real
  parentMatrix :: MMatrix
  rpivot :: MVector
  rptivot :: MVector

definition gatherFrame :: "GlobalSettings \<Rightarrow> Scene \<Rightarrow> real \<Rightarrow> nat \<Rightarrow> FrameInput" where
  "gatherFrame gs env startFrame idx =
     (let f = startFrame + real idx in
      \<lparr>frame = f,
       parentMatrix = pMatrixPlug env f,
       rpivot = (if usePivots gs then rpPlugs env f else MVector_zero),
       rptivot = (if usePivots gs then rptPlugs env f else MVector_zero)\<rparr>)"

definition composeFrame :: "GlobalSettings \<Rightarrow> FrameInput \<Rightarrow> MMatrix" where
  "composeFrame gs inp =
     (let m = parentMatrix inp in
      if usePivots gs then
        (let pivotMtx = setRow3 MMatrix_identity (rpivot inp);
             m1 = mat_mult pivotMtx m;
             pivotMtx2 = setRow3 MMatrix_identity (rptivot inp)
         in mat_mult pivotMtx2 m1)
      else m)"

fun writeback :: "(real \<times> MMatrix) list \<Rightarrow> (real \<rightharpoonup> MMatrix) \<Rightarrow> (real \<rightharpoonup> MMatrix)" where
  "writeback [] c = c"
| "writeback ((f, m) # rest) c = writeback rest (c(f \<mapsto> m))"

definition rebuildThreePhase ::
  "GlobalSettings \<Rightarrow> Scene \<Rightarrow> real \<Rightarrow> nat \<Rightarrow> 'a ParentCache_scheme \<Rightarrow> 'a ParentCache_scheme" where
  "rebuildThreePhase gs env startFrame numFrames mp =
     (let inputs = map (gatherFrame gs env startFrame) [0..<numFrames];
          finalMatrices = map (composeFrame gs) inputs
      in mp\<lparr>pMatrixCache := writeback (zip (map frame inputs) finalMatrices) (pMatrixCache mp)\<rparr>)"

text \<open>
  Frame times are reals in the passes above. In the program they are doubles: the
  sequential loop reaches its \<open>k\<close>-th frame by \<open>k\<close> rounded increments \<open>++i\<close> of
  \<open>startFrame\<close>, the gather phase computes \<open>startFrame + idx\<close> with one rounding, and
  the frame count is \<open>static_cast<int>(endFrame - startFrame + 1)\<close>.
\<close>

fun incrementedFrame :: "real \<Rightarrow> nat \<Rightarrow> real" where
  "incrementedFrame startFrame 0 = startFrame"
| "incrementedFrame startFrame (Suc k) = add_double (incrementedFrame startFrame k) 1"

definition gatheredFrame :: "real \<Rightarrow> nat \<Rightarrow> real" where
  "gatheredFrame startFrame idx = add_double startFrame (real idx)"

definition frameCount :: "real \<Rightarrow> real \<Rightarrow> int" where
  "frameCount startFrame endFrame = double_to_int (add_double (sub_double endFrame startFrame) 1)"

definition cacheParentMatrixRange ::
  "GlobalSettings \<Rightarrow> Scene \<Rightarrow> real \<Rightarrow> real \<Rightarrow> 'a ParentCache_scheme \<Rightarrow> 'a ParentCache_scheme" where
  "cacheParentMatrixRange gs env startFrame endFrame mp =
     (if pMatrixCacheValid mp \<and> cachedRangeStart mp \<le> startFrame
         \<and> cachedRangeEnd mp \<ge> endFrame \<and> pMatrixCache mp \<noteq> Map.empty
      then mp
      else if pMatrixCacheValid mp \<and> pMatrixCache mp \<noteq> Map.empty then
        (let mp1 = cacheLeadingFrames gs env startFrame endFrame mp;
             mp2 = cacheFramesUpTo gs env (cachedRangeEnd mp1 + 1) endFrame mp1;
             mp3 = (if startFrame < cachedRangeStart mp2
                    then mp2\<lparr>cachedRangeStart := startFrame\<rparr> else mp2)
         in (if endFrame > cachedRangeEnd mp3
             then mp3\<lparr>cachedRangeEnd := endFrame\<rparr> else mp3))
      else
        (let numFrames = double_to_int (endFrame - startFrame + 1);
             mp1 = (if useOpenMP gs \<and> numFrames > 50
                    then rebuildThreePhase gs env startFrame (nat numFrames) mp
                    else cacheFramesUpTo gs env startFrame endFrame mp)
         in mp1\<lparr>cachedRangeStart := startFrame, cachedRangeEnd := endFrame,
                 pMatrixCacheValid := True\<rparr>))"

text \<open>A sequence of range requests, applied in order with no clear in between.\<close>

fun cacheParentMatrixRanges ::
  "GlobalSettings \<Rightarrow> Scene \<Rightarrow> (real \<times> real) list \<Rightarrow> 'a ParentCache_scheme \<Rightarrow> 'a ParentCache_scheme" where
  "cacheParentMatrixRanges gs env [] mp = mp"
| "cacheParentMatrixRanges gs env ((a, b) # reqs) mp =
     cacheParentMatrixRanges gs env reqs (cacheParentMatrixRange gs env a b mp)"

section \<open>Vector arithmetic\<close>

text \<open>
  The host's \<open>MVector\<close> operators used by the stroke fitter: \<open>a - b\<close>, \<open>a + b\<close>,
  \<open>v * s\<close>, \<open>v / s\<close>, the dot product \<open>a * b\<close>, \<open>length()\<close> and \<open>normalize()\<close>.
  \<open>normalize()\<close> leaves a zero-length vector as it is.
\<close>

definition MVector_minus :: "MVector \<Rightarrow> MVector \<Rightarrow> MVector" where
  "MVector_minus a b = MVector (vx a - vx b) (vy a - vy b) (vz a - vz b)"

definition MVector_plus :: "MVector \<Rightarrow> MVector \<Rightarrow> MVector" where
  "MVector_plus a b = MVector (vx a + vx b) (vy a + vy b) (vz a + vz b)"

definition MVector_scale :: "MVector \<Rightarrow> real \<Rightarrow> MVector" where
  "MVector_scale v s = MVector (vx v * s) (vy v * s) (vz v * s)"


definition MVector_length :: "MVector \<Rightarrow> real" where
  "MVector_length v = sqrt (vx v * vx v + vy v * vy v + vz v * vz v)"

definition MVector_normalize :: "MVector \<Rightarrow> MVector" where
  "MVector_normalize v =
     (if MVector_length v = 0 then v else MVector_scale v (1 / MVector_length v))"

text \<open>
  The operators \<open>a - b\<close>, \<open>a + b\<close>, \<open>v * s\<close> and \<open>length()\<close> with every double operation
  rounded. \<open>length()\<close> is taken to be the rounded square root of the rounded sum of squares.
\<close>

definition MVector_minus_double :: "MVector \<Rightarrow> MVector \<Rightarrow> MVector" where
  "MVector_minus_double a b =
     MVector (sub_double (vx a) (vx b)) (sub_double (vy a) (vy b)) (sub_double (vz a) (vz b))"

definition MVector_plus_double :: "MVector \<Rightarrow> MVector \<Rightarrow> MVector" where
  "MVector_plus_double a b =
     MVector (add_double (vx a) (vx b)) (add_double (vy a) (vy b)) (add_double (vz a) (vz b))"

definition MVector_scale_double :: "MVector \<Rightarrow> real \<Rightarrow> MVector" where
  "MVector_scale_double v s =
     MVector (mul_double (vx v) s) (mul_double (vy v) s) (mul_double (vz v) s)"


section \<open>The stroke fitter\<close>

text \<open>
  What a computation on doubles and arrays can come to besides a value: a NaN, or a
  read outside an array.
\<close>

datatype 'a Computed = Value 'a | NotANumber | OutOfRange

subsection \<open>Recording a stroke\<close>










subsection \<open>Closest point\<close>

text \<open>
  The segment parameter \<open>t\<close> of \<open>getClosestPointOnPolyLine\<close>. For a segment of squared
  length zero the program evaluates \<open>1./0\<close>, which is infinity, and multiplies it by the
  numerator: the product is NaN for a zero numerator, and every comparison with NaN is
  false; it is an infinity otherwise.
\<close>

datatype Param = NaN | Finite real

text \<open>
  The loop variables \<open>b\<close>, \<open>dbq\<close>, \<open>dist\<close>, \<open>finalT\<close> and \<open>index\<close>;
  \<open>dividedByZero\<close> records whether some iteration evaluated \<open>1./0\<close>.
\<close>

record ClosestLoop =
  b_point :: MVector
  dbq_vec :: MVector
  dist_min :: real
  finalT :: Param
  index_seg :: nat
  dividedByZero :: bool

text \<open>\<open>v.x*v.x + v.y*v.y\<close>, each operation rounded.\<close>

definition sqrlen_xy :: "MVector \<Rightarrow> real" where
  "sqrlen_xy v = add_double (mul_double (vx v) (vx v)) (mul_double (vy v) (vy v))"

text \<open>
  One iteration of the loop, for \<open>strokePoints[i] = p\<close>, with every double operation
  rounded. With a zero squared length, a negative numerator gives \<open>t\<close> minus infinity and
  the iteration is left by \<open>continue\<close>; a positive one gives plus infinity, which is
  stored as 1; a zero one gives NaN, which is stored as it is.
\<close>

definition closestStep :: "MVector \<Rightarrow> MVector \<Rightarrow> nat \<Rightarrow> ClosestLoop \<Rightarrow> ClosestLoop" where
  "closestStep q p i st =
     (let a = b_point st; daq = dbq_vec st;
          b = p; dbq = MVector_minus_double b q;
          dab = MVector_minus_double a b;
          sqrlen = sqrlen_xy dab;
          numerator = add_double (mul_double (vx dab) (vx daq)) (mul_double (vy dab) (vy daq));
          st1 = st\<lparr>b_point := b, dbq_vec := dbq\<rparr>
      in if sqrlen = 0 then
           (let st2 = st1\<lparr>dividedByZero := True\<rparr>
            in if numerator < 0 then st2
               else
                 (let current_dist = sqrlen_xy dbq
                  in if current_dist < dist_min st
                     then st2\<lparr>dist_min := current_dist,
                              finalT := (if numerator = 0 then NaN else Finite 1),
                              index_seg := i\<rparr>
                     else st2))
         else
           (let inv_sqrlen = div_double 1 sqrlen;
                t = mul_double numerator inv_sqrlen
            in if t < 0 then st1
               else
                 (let cross = sub_double (mul_double (vx dab) (vy dbq))
                                (mul_double (vy dab) (vx dbq));
                      current_dist =
                        (if t \<le> 1 then mul_double (mul_double cross cross) inv_sqrlen
                         else sqrlen_xy dbq)
                  in if current_dist < dist_min st
                     then st1\<lparr>dist_min := current_dist,
                              finalT := Finite (if t > 1 then 1 else t), index_seg := i\<rparr>
                     else st1)))"

fun closestLoop :: "MVector \<Rightarrow> MVector list \<Rightarrow> nat \<Rightarrow> ClosestLoop \<Rightarrow> ClosestLoop" where
  "closestLoop q [] i st = st"
| "closestLoop q (p # ps) i st = closestLoop q ps (Suc i) (closestStep q p i st)"

definition closestInit :: "MVector \<Rightarrow> MVector \<Rightarrow> ClosestLoop" where
  "closestInit q p0 =
     \<lparr>b_point = p0, dbq_vec = MVector_minus_double p0 q,
      dist_min = sqrlen_xy (MVector_minus_double p0 q),
      finalT = Finite 0, index_seg = 0, dividedByZero = False\<rparr>"

text \<open>The loop variables at the end of the loop; \<open>strokePoints[0]\<close> of an empty array is a read out of range.\<close>

definition closestScan :: "MVector list \<Rightarrow> MVector \<Rightarrow> ClosestLoop Computed" where
  "closestScan strokePoints q =
     (case strokePoints of
        [] \<Rightarrow> OutOfRange
      | p0 # rest \<Rightarrow> Value (closestLoop q rest 1 (closestInit q p0)))"

text \<open>The point returned: \<open>strokePoints[index] * finalT + strokePoints[index-1] * (1-finalT)\<close>, rounded.\<close>

definition getClosestPointOnPolyLine :: "MVector list \<Rightarrow> MVector \<Rightarrow> MVector Computed" where
  "getClosestPointOnPolyLine strokePoints q =
     (case closestScan strokePoints q of
        Value st \<Rightarrow>
          (case finalT st of
             NaN \<Rightarrow> NotANumber
           | Finite ft \<Rightarrow>
               if ft = 0 \<and> index_seg st = 0 then Value (strokePoints ! 0)
               else if index_seg st = 0 \<or> index_seg st \<ge> length strokePoints then OutOfRange
               else Value (MVector_plus_double
                      (MVector_scale_double (strokePoints ! index_seg st) ft)
                      (MVector_scale_double (strokePoints ! (index_seg st - 1))
                         (sub_double 1 ft))))
      | NotANumber \<Rightarrow> NotANumber
      | OutOfRange \<Rightarrow> OutOfRange)"

subsection \<open>Spread\<close>

text \<open>
  The walk over the cumulative segment lengths: the pair returned is
  \<open>(currentSegmentIndex, currentSegmentLenght)\<close> when the loop ends, by \<open>break\<close> or by
  running out. \<open>n\<close> is \<open>strokePoints.length() - 1\<close>.
\<close>

function spreadWalk :: "real \<Rightarrow> real list \<Rightarrow> nat \<Rightarrow> nat \<Rightarrow> real \<Rightarrow> (nat \<times> real) Computed" where
  "spreadWalk tl_len segmentLenghts n j currentSegmentLenght =
     (if j < n then
        (if j \<ge> length segmentLenghts then OutOfRange
         else if tl_len > currentSegmentLenght
                 \<and> tl_len < currentSegmentLenght + segmentLenghts ! j
              then Value (j, currentSegmentLenght)
              else spreadWalk tl_len segmentLenghts n (Suc j)
                     (currentSegmentLenght + segmentLenghts ! j))
      else Value (0, currentSegmentLenght))"
  by pat_completeness auto
termination
  by (relation "measure (\<lambda>(tl_len, segs, n, j, cur). n - j)") auto

declare spreadWalk.simps [simp del]

text \<open>
  The narrowing of \<open>tl\<close> (here \<open>tl_len\<close>) and \<open>t\<close> to \<open>float\<close> is not modelled. A division by
  \<open>pointSize = 0\<close> or by a segment length zero gives a non-finite value.
\<close>

definition getSpreadPointOnPolyLine ::
  "MVector list \<Rightarrow> int \<Rightarrow> int \<Rightarrow> real \<Rightarrow> real list \<Rightarrow> MVector Computed" where
  "getSpreadPointOnPolyLine strokePoints i pointSize strokeLenght segmentLenghts =
     (if i = pointSize - 1 then
        (if length strokePoints = 0 then Value MVector_zero
         else Value (strokePoints ! (length strokePoints - 1)))
      else if pointSize = 0 then NotANumber
      else if length strokePoints = 0 then OutOfRange
      else
        (let tl_len = (real_of_int (i + 1) / real_of_int pointSize) * strokeLenght
         in case spreadWalk tl_len segmentLenghts (length strokePoints - 1) 0 0 of
              Value (currentSegmentIndex, currentSegmentLenght) \<Rightarrow>
                if currentSegmentIndex \<ge> length segmentLenghts
                   \<or> currentSegmentIndex + 1 \<ge> length strokePoints then OutOfRange
                else if segmentLenghts ! currentSegmentIndex = 0 then NotANumber
                else
                  (let t = (tl_len - currentSegmentLenght) / (segmentLenghts ! currentSegmentIndex)
                   in Value (MVector_plus
                        (MVector_scale (strokePoints ! (currentSegmentIndex + 1)) t)
                        (MVector_scale (strokePoints ! currentSegmentIndex) (1 - t))))
            | NotANumber \<Rightarrow> NotANumber
            | OutOfRange \<Rightarrow> OutOfRange))"

text \<open>
  The stroke length of \<open>doReleaseCommon\<close>: \<open>segmentLenghts\<close> is resized to
  \<open>strokeNum\<close> zeros and the loop \<open>for (int i = 1; i < strokeNum; ++i)\<close> fills the entries
  \<open>i - 1\<close>. The result is \<open>(strokeLenght, segmentLenghts)\<close>.
\<close>

definition strokeLengths :: "MVector list \<Rightarrow> real \<times> real list" where
  "strokeLengths strokePoints =
     (let strokeNum = length strokePoints - 1
      in fold (\<lambda>i (strokeLenght, segmentLenghts).
                 (let l = MVector_length (MVector_minus (strokePoints ! i) (strokePoints ! (i - 1)))
                  in (strokeLenght + l, segmentLenghts[i - 1 := l])))
              [1..<strokeNum] (0, replicate strokeNum 0))"

subsection \<open>Stroke direction and candidate keys\<close>

text \<open>
  What the release handler reads from the viewport and the track:
  \<open>getkeyScreenPosition\<close> and \<open>getKeyWorldPosition\<close> at a key time, the host's
  \<open>getWorldPositionFromProjPoint\<close> (original world position, original screen position,
  new screen position), and \<open>worldCameraSpaceToWorldSpace\<close>, which can fail.
\<close>

record StrokeView =
  keyScreenPosition :: "real \<Rightarrow> MVector"
  keyWorldPosition :: "real \<Rightarrow> MVector"
  worldPositionFromProjPoint :: "MVector \<Rightarrow> MVector \<Rightarrow> MVector \<Rightarrow> MVector"
  worldCameraSpaceToWorldSpace :: "MVector \<Rightarrow> real \<Rightarrow> MVector option"




record StrokeCache =
  originalScreenPosition :: MVector
  screenPosition :: MVector
  originalWorldPosition :: MVector
  time_stroke :: real


definition strokeCacheAt :: "StrokeView \<Rightarrow> real \<Rightarrow> StrokeCache" where
  "strokeCacheAt view t =
     \<lparr>originalScreenPosition = keyScreenPosition view t, screenPosition = MVector_zero,
      originalWorldPosition = keyWorldPosition view t, time_stroke = t\<rparr>"



text \<open>The calls the release handler issues on the track, in order.\<close>

datatype CurveEdit = DeleteKeyFrameAtTime real | AddKeyFrameAtTime real MVector



text \<open>
  The loop that places each candidate and re-inserts it. A failed camera-space conversion
  returns from the handler with the edits issued so far.
\<close>

fun placeStrokeKeys ::
  "GlobalSettings \<Rightarrow> StrokeView \<Rightarrow> MVector list \<Rightarrow> int \<Rightarrow> real \<Rightarrow> real list
     \<Rightarrow> int \<Rightarrow> StrokeCache list \<Rightarrow> CurveEdit list \<Rightarrow> CurveEdit list Computed" where
  "placeStrokeKeys gs view strokePoints pointSize strokeLenght segmentLenghts i [] edits =
     Value edits"
| "placeStrokeKeys gs view strokePoints pointSize strokeLenght segmentLenghts i (c # cs) edits =
     (case (if strokeMode gs = 0
            then getClosestPointOnPolyLine strokePoints (originalScreenPosition c)
            else getSpreadPointOnPolyLine strokePoints i pointSize strokeLenght segmentLenghts) of
        Value sp \<Rightarrow>
          (let newPosition = worldPositionFromProjPoint view (originalWorldPosition c)
                               (originalScreenPosition c) sp
           in if cameraSpace gs then
                (case worldCameraSpaceToWorldSpace view newPosition (time_stroke c) of
                   None \<Rightarrow> Value edits
                 | Some worldPos \<Rightarrow>
                     placeStrokeKeys gs view strokePoints pointSize strokeLenght segmentLenghts
                       (i + 1) cs (edits @ [AddKeyFrameAtTime (time_stroke c) worldPos]))
              else placeStrokeKeys gs view strokePoints pointSize strokeLenght segmentLenghts
                     (i + 1) cs (edits @ [AddKeyFrameAtTime (time_stroke c) newPosition]))
      | NotANumber \<Rightarrow> NotANumber
      | OutOfRange \<Rightarrow> OutOfRange)"


section \<open>Animation curves\<close>

text \<open>
  The host's animation curve, as far as the modelled functions use it: its kind, its
  weighted flag and its keys in index order. A tangent is stored as the pair
  \<open>(angle, weight)\<close> on a non-weighted curve and as the vector \<open>(x, y)\<close> on a weighted
  one. A plug with no curve attached is a curve of unknown kind with no keys.
\<close>

datatype AnimCurveType =
  kAnimCurveTA | kAnimCurveTL | kAnimCurveTT | kAnimCurveTU
  | kAnimCurveUA | kAnimCurveUL | kAnimCurveUT | kAnimCurveUU | kAnimCurveUnknown

datatype Axis = kAxisX | kAxisY | kAxisZ

datatype Tangent = kInTangent | kOutTangent

record CurveKey =
  keyTime :: real
  keyValue :: real
  keyInTangent :: "real \<times> real"
  keyOutTangent :: "real \<times> real"
  keyTangentsLocked :: bool

record AnimCurve =
  animCurveType :: AnimCurveType
  curveIsWeighted :: bool
  curveKeys :: "CurveKey list"

definition numKeys :: "AnimCurve \<Rightarrow> nat" where
  "numKeys curve = length (curveKeys curve)"

text \<open>\<open>getTangent(index, ..., isIn)\<close>: the status is a failure for an index that is no key.\<close>

definition getTangent :: "AnimCurve \<Rightarrow> nat \<Rightarrow> bool \<Rightarrow> (real \<times> real) option" where
  "getTangent curve index isIn =
     (if index < numKeys curve
      then Some (if isIn then keyInTangent (curveKeys curve ! index)
                 else keyOutTangent (curveKeys curve ! index))
      else None)"

definition setTangent :: "AnimCurve \<Rightarrow> nat \<Rightarrow> real \<times> real \<Rightarrow> bool \<Rightarrow> AnimCurve" where
  "setTangent curve index tangent isIn =
     (if index < numKeys curve
      then curve\<lparr>curveKeys := (curveKeys curve)[index :=
             (if isIn then (curveKeys curve ! index)\<lparr>keyInTangent := tangent\<rparr>
              else (curveKeys curve ! index)\<lparr>keyOutTangent := tangent\<rparr>)]\<rparr>
      else curve)"

text \<open>\<open>find(time, index)\<close>: the index of the key at exactly that time.\<close>

fun findKey :: "CurveKey list \<Rightarrow> real \<Rightarrow> nat option" where
  "findKey [] t = None"
| "findKey (k # ks) t =
     (if keyTime k = t then Some 0
      else (case findKey ks t of None \<Rightarrow> None | Some i \<Rightarrow> Some (Suc i)))"

definition isCurveTypeAnimatable :: "AnimCurveType \<Rightarrow> bool" where
  "isCurveTypeAnimatable type =
     (type = kAnimCurveTA \<or> type = kAnimCurveTL \<or> type = kAnimCurveTT \<or> type = kAnimCurveTU)"

section \<open>Composite keyframes\<close>

record Keyframe =
  id_key :: int
  time_key :: real
  tangentsLocked :: bool
  xKeyId :: int
  yKeyId :: int
  zKeyId :: int
  xRotKeyId :: int
  yRotKeyId :: int
  zRotKeyId :: int
  showInTangent :: bool
  showOutTangent :: bool
  selectedFromTool :: bool
  position :: MVector
  worldPosition :: MVector
  inTangent :: MVector
  outTangent :: MVector
  inTangentWorld :: MVector
  outTangentWorld :: MVector
  inTangentWorldFromCurve :: MVector
  outTangentWorldFromCurve :: MVector

text \<open>The constructor \<open>Keyframe::Keyframe()\<close>; the vectors are default-constructed.\<close>

definition Keyframe_new :: Keyframe where
  "Keyframe_new =
     \<lparr>id_key = - 1, time_key = 0, tangentsLocked = True,
      xKeyId = - 1, yKeyId = - 1, zKeyId = - 1,
      xRotKeyId = - 1, yRotKeyId = - 1, zRotKeyId = - 1,
      showInTangent = True, showOutTangent = True, selectedFromTool = False,
      position = MVector_zero, worldPosition = MVector_zero,
      inTangent = MVector_zero, outTangent = MVector_zero,
      inTangentWorld = MVector_zero, outTangentWorld = MVector_zero,
      inTangentWorldFromCurve = MVector_zero, outTangentWorldFromCurve = MVector_zero\<rparr>"

definition setX :: "MVector \<Rightarrow> real \<Rightarrow> MVector" where
  "setX v a = MVector a (vy v) (vz v)"

definition setY :: "MVector \<Rightarrow> real \<Rightarrow> MVector" where
  "setY v a = MVector (vx v) a (vz v)"

definition setZ :: "MVector \<Rightarrow> real \<Rightarrow> MVector" where
  "setZ v a = MVector (vx v) (vy v) a"

fun Keyframe_setTangentValue :: "real \<Rightarrow> Axis \<Rightarrow> Tangent \<Rightarrow> Keyframe \<Rightarrow> Keyframe" where
  "Keyframe_setTangentValue v kAxisX kInTangent kf = kf\<lparr>inTangent := setX (inTangent kf) v\<rparr>"
| "Keyframe_setTangentValue v kAxisX kOutTangent kf = kf\<lparr>outTangent := setX (outTangent kf) v\<rparr>"
| "Keyframe_setTangentValue v kAxisY kInTangent kf = kf\<lparr>inTangent := setY (inTangent kf) v\<rparr>"
| "Keyframe_setTangentValue v kAxisY kOutTangent kf = kf\<lparr>outTangent := setY (outTangent kf) v\<rparr>"
| "Keyframe_setTangentValue v kAxisZ kInTangent kf = kf\<lparr>inTangent := setZ (inTangent kf) v\<rparr>"
| "Keyframe_setTangentValue v kAxisZ kOutTangent kf = kf\<lparr>outTangent := setZ (outTangent kf) v\<rparr>"

text \<open>
  The local tangent value \<open>tangentVal\<close> that \<open>Keyframe::setTangent\<close> computes from the
  curve: \<open>tan(angle) * weight\<close> on a non-weighted curve, \<open>y / 3\<close> on a weighted one, and 0
  when the tangent cannot be read.
\<close>

definition tangentVal :: "AnimCurve \<Rightarrow> nat \<Rightarrow> Tangent \<Rightarrow> real" where
  "tangentVal curve keyIndex tangentName =
     (let isIn = (tangentName = kInTangent)
      in if \<not> curveIsWeighted curve then
           (case getTangent curve keyIndex isIn of
              None \<Rightarrow> 0
            | Some (angle, w1) \<Rightarrow> tan angle * w1)
         else
           (case getTangent curve keyIndex isIn of
              None \<Rightarrow> 0
            | Some (x, y) \<Rightarrow> y / 3))"

definition Keyframe_setTangent ::
  "nat \<Rightarrow> AnimCurve \<Rightarrow> Axis \<Rightarrow> Tangent \<Rightarrow> Keyframe \<Rightarrow> Keyframe" where
  "Keyframe_setTangent keyIndex curve axisName tangentName kf =
     Keyframe_setTangentValue (tangentVal curve keyIndex tangentName) axisName tangentName kf"

fun setKeyId :: "int \<Rightarrow> Axis \<Rightarrow> Keyframe \<Rightarrow> Keyframe" where
  "setKeyId i kAxisX kf = kf\<lparr>xKeyId := i\<rparr>"
| "setKeyId i kAxisY kf = kf\<lparr>yKeyId := i\<rparr>"
| "setKeyId i kAxisZ kf = kf\<lparr>zKeyId := i\<rparr>"

fun setRotKeyId :: "int \<Rightarrow> Axis \<Rightarrow> Keyframe \<Rightarrow> Keyframe" where
  "setRotKeyId i kAxisX kf = kf\<lparr>xRotKeyId := i\<rparr>"
| "setRotKeyId i kAxisY kf = kf\<lparr>yRotKeyId := i\<rparr>"
| "setRotKeyId i kAxisZ kf = kf\<lparr>zRotKeyId := i\<rparr>"

text \<open>The field that \<open>setRotKeyId\<close> writes for an axis.\<close>

fun rotKeyId :: "Axis \<Rightarrow> Keyframe \<Rightarrow> int" where
  "rotKeyId kAxisX kf = xRotKeyId kf"
| "rotKeyId kAxisY kf = yRotKeyId kf"
| "rotKeyId kAxisZ kf = zRotKeyId kf"

section \<open>Writing a tangent back\<close>

text \<open>
  \<open>atan(static_cast<double>(value) * w)\<close> for a float \<open>value\<close>: an infinity times a
  non-zero weight is an infinity, whose arc tangent is a right angle; an infinity times
  zero is NaN.
\<close>

fun atan_of_product :: "Float \<Rightarrow> real \<Rightarrow> real Computed" where
  "atan_of_product (Float v) w = Value (arctan (v * w))"
| "atan_of_product PlusInfinity w =
     (if 0 < w then Value (pi / 2) else if w < 0 then Value (- (pi / 2)) else NotANumber)"
| "atan_of_product MinusInfinity w =
     (if 0 < w then Value (- (pi / 2)) else if w < 0 then Value (pi / 2) else NotANumber)"

text \<open>
  The curve after the call. A tangent with a NaN angle or an infinite \<open>y\<close> is outside the
  model of a curve: \<open>NonFinite\<close> stands for a curve that received one.
\<close>

datatype Written = Written AnimCurve | NonFinite

text \<open>
  \<open>MotionPath::setTangentValue\<close>. The parameter \<open>value\<close> is a \<open>float\<close>: the double passed
  by the caller (here \<open>val\<close>) is narrowed on entry. The parameter \<open>uiUnitsPerSecond\<close> is
  the host's \<open>MTime(1.0, kSeconds).as(uiUnit())\<close>, and \<open>MFnAnimCurve::TangentValue\<close> is
  taken to be \<open>double\<close>.
\<close>

definition MotionPath_setTangentValue ::
  "real \<Rightarrow> real \<Rightarrow> AnimCurve \<Rightarrow> Tangent \<Rightarrow> real \<Rightarrow> Written" where
  "MotionPath_setTangentValue uiUnitsPerSecond val curve tangentId t =
     (let value = to_float val
      in if numKeys curve \<le> 1 then Written curve
         else case findKey (curveKeys curve) t of
           None \<Rightarrow> Written curve
         | Some index \<Rightarrow>
             (let isIn = (tangentId = kInTangent);
                  v = (if isIn then Float_negate value else value)
              in if \<not> curveIsWeighted curve then
                   (case getTangent curve index isIn of
                      None \<Rightarrow> Written curve
                    | Some (angle, w) \<Rightarrow>
                        (case atan_of_product v w of
                           Value newAngle \<Rightarrow> Written (setTangent curve index (newAngle, w) isIn)
                         | NotANumber \<Rightarrow> NonFinite
                         | OutOfRange \<Rightarrow> NonFinite))
                 else
                   (case getTangent curve index isIn of
                      None \<Rightarrow> Written curve
                    | Some (x, y) \<Rightarrow>
                        (case v of
                           Float fv \<Rightarrow>
                             (let x_ui = x * uiUnitsPerSecond; newY = fv * 3
                              in Written (setTangent curve index (x_ui, newY) isIn))
                         | PlusInfinity \<Rightarrow> NonFinite
                         | MinusInfinity \<Rightarrow> NonFinite))))"

section \<open>The track\<close>

text \<open>
  \<open>keyframesCache\<close> is a \<open>std::map<double, Keyframe>\<close>: an association list kept in
  ascending order of time, which is the order the iterator visits.
\<close>

type_synonym KeyframeMap = "(real \<times> Keyframe) list"

record MotionPath = ParentCache +
  keyframesCache :: KeyframeMap
  displayStartTime :: real
  displayEndTime :: real
  isDrawing :: bool
  endDrawingTime :: real
  selectedKeyTimes :: "real set"
  isWeighted :: bool
  constrained :: bool
  drawPositionCache :: "real \<rightharpoonup> MVector"

text \<open>
  \<open>Keyframe* keyframePtr = &keyframesCache[t]\<close> followed by assignments through the
  pointer: the record at \<open>t\<close>, default-constructed and inserted in order when absent, is
  replaced by its image under \<open>f\<close>.
\<close>

fun modifyAt :: "real \<Rightarrow> (Keyframe \<Rightarrow> Keyframe) \<Rightarrow> KeyframeMap \<Rightarrow> KeyframeMap" where
  "modifyAt t f [] = [(t, f Keyframe_new)]"
| "modifyAt t f ((u, k) # rest) =
     (if t = u then (u, f k) # rest
      else if t < u then (t, f Keyframe_new) # (u, k) # rest
      else (u, k) # modifyAt t f rest)"

text \<open>The body of the loop of \<open>expandKeyFramesCache\<close> for a key inside the window.\<close>

definition expandKey :: "AnimCurve \<Rightarrow> Axis \<Rightarrow> bool \<Rightarrow> nat \<Rightarrow> real \<Rightarrow> Keyframe \<Rightarrow> Keyframe" where
  "expandKey curve axisName isTranslate i keyTimeVal kf =
     (if isTranslate then
        (let kf1 = kf\<lparr>time_key := keyTimeVal\<rparr>;
             kf2 = Keyframe_setTangent i curve axisName kInTangent kf1;
             kf3 = Keyframe_setTangent i curve axisName kOutTangent kf2;
             kf4 = setKeyId (int i) axisName kf3
         in if tangentsLocked kf4
            then kf4\<lparr>tangentsLocked := keyTangentsLocked (curveKeys curve ! i)\<rparr>
            else kf4)
      else setRotKeyId (int i) axisName (kf\<lparr>time_key := keyTimeVal\<rparr>))"

text \<open>
  The loop over the key indices \<open>i\<close>, with the keys from index \<open>i\<close> on: a key before
  the window is passed over, a key after \<open>endTime\<close> ends the loop.
\<close>

fun expandKeys ::
  "AnimCurve \<Rightarrow> Axis \<Rightarrow> bool \<Rightarrow> real \<Rightarrow> real \<Rightarrow> nat \<Rightarrow> CurveKey list
     \<Rightarrow> KeyframeMap \<Rightarrow> KeyframeMap" where
  "expandKeys curve axisName isTranslate startT endT i [] kc = kc"
| "expandKeys curve axisName isTranslate startT endT i (k # ks) kc =
     (if keyTime k \<ge> startT then
        (if keyTime k \<le> endT
         then expandKeys curve axisName isTranslate startT endT (Suc i) ks
                (modifyAt (keyTime k) (expandKey curve axisName isTranslate i (keyTime k)) kc)
         else kc)
      else expandKeys curve axisName isTranslate startT endT (Suc i) ks kc)"

definition expandKeyFramesCache ::
  "AnimCurve \<Rightarrow> Axis \<Rightarrow> bool \<Rightarrow> 'a MotionPath_scheme \<Rightarrow> 'a MotionPath_scheme" where
  "expandKeyFramesCache curve axisName isTranslate mp =
     (if numKeys curve = 0 then mp
      else
        (let endT = (if isDrawing mp then endDrawingTime mp else displayEndTime mp)
         in mp\<lparr>keyframesCache :=
                 expandKeys curve axisName isTranslate (displayStartTime mp) endT 0
                   (curveKeys curve) (keyframesCache mp)\<rparr>))"

subsection \<open>Boundary tangents\<close>

definition showTangent :: "real \<Rightarrow> int \<Rightarrow> real \<Rightarrow> int \<Rightarrow> real \<Rightarrow> bool" where
  "showTangent t firstId firstTime secondId secondTime =
     (\<not> ((firstId = - 1 \<and> secondId = - 1) \<or> (t = firstTime \<and> t = secondTime)))"

text \<open>
  \<open>curve.time(i)\<close>; for an index that is no key the host's answer is not known to the
  program and is the parameter \<open>noKeyTime\<close>.
\<close>

definition timeAt :: "real \<Rightarrow> AnimCurve \<Rightarrow> nat \<Rightarrow> real" where
  "timeAt noKeyTime curve i =
     (if i < numKeys curve then keyTime (curveKeys curve ! i) else noKeyTime)"

definition lastTime :: "real \<Rightarrow> AnimCurve \<Rightarrow> real" where
  "lastTime noKeyTime curve =
     (if numKeys curve = 0 then noKeyTime else keyTime (curveKeys curve ! (numKeys curve - 1)))"

text \<open>One of the six blocks of \<open>setShowInOutTangents\<close>: the record at the boundary time \<open>t\<close>
  of one axis gets its flag from the key ids and boundary times of the other two.\<close>

definition showBoundary ::
  "bool \<Rightarrow> real \<Rightarrow> (Keyframe \<Rightarrow> int) \<Rightarrow> real \<Rightarrow> (Keyframe \<Rightarrow> int) \<Rightarrow> real
     \<Rightarrow> 'a MotionPath_scheme \<Rightarrow> 'a MotionPath_scheme" where
  "showBoundary isIn t firstId firstTime secondId secondTime mp =
     (if t \<ge> displayStartTime mp \<and> t \<le> displayEndTime mp
      then mp\<lparr>keyframesCache :=
             modifyAt t
               (\<lambda>kf. if isIn
                     then kf\<lparr>showInTangent :=
                            showTangent t (firstId kf) firstTime (secondId kf) secondTime\<rparr>
                     else kf\<lparr>showOutTangent :=
                            showTangent t (firstId kf) firstTime (secondId kf) secondTime\<rparr>)
               (keyframesCache mp)\<rparr>
      else mp)"

definition setShowInOutTangents ::
  "real \<Rightarrow> AnimCurve \<Rightarrow> AnimCurve \<Rightarrow> AnimCurve \<Rightarrow> 'a MotionPath_scheme \<Rightarrow> 'a MotionPath_scheme" where
  "setShowInOutTangents noKeyTime curveTX curveTY curveTZ mp =
     (if numKeys curveTX = 0 \<and> numKeys curveTY = 0 \<and> numKeys curveTZ = 0 then mp
      else
        (let minTimeX = timeAt noKeyTime curveTX 0; maxTimeX = lastTime noKeyTime curveTX;
             minTimeY = timeAt noKeyTime curveTY 0; maxTimeY = lastTime noKeyTime curveTY;
             minTimeZ = timeAt noKeyTime curveTZ 0; maxTimeZ = lastTime noKeyTime curveTZ;
             mp1 = showBoundary True minTimeX yKeyId minTimeY zKeyId minTimeZ mp;
             mp2 = showBoundary True minTimeY xKeyId minTimeX zKeyId minTimeZ mp1;
             mp3 = showBoundary True minTimeZ xKeyId minTimeX yKeyId minTimeY mp2;
             mp4 = showBoundary False maxTimeX yKeyId maxTimeY zKeyId maxTimeZ mp3;
             mp5 = showBoundary False maxTimeY xKeyId maxTimeX zKeyId maxTimeZ mp4
         in showBoundary False maxTimeZ xKeyId maxTimeX yKeyId maxTimeY mp5))"

subsection \<open>World-space derivation\<close>

text \<open>\<open>vec * mat\<close> for an \<open>MVector\<close>: the upper-left 3x3 block applies, the translation row does not.\<close>

definition MVector_times_MMatrix :: "MVector \<Rightarrow> MMatrix \<Rightarrow> MVector" where
  "MVector_times_MMatrix v m = MVector
     (vx v * m00 m + vy v * m10 m + vz v * m20 m)
     (vx v * m01 m + vy v * m11 m + vz v * m21 m)
     (vx v * m02 m + vy v * m12 m + vz v * m22 m)"

definition multPosByParentMatrix :: "MVector \<Rightarrow> MMatrix \<Rightarrow> MVector" where
  "multPosByParentMatrix vec mat =
     (let multipliedVec = MVector_times_MMatrix vec mat
      in MVector (vx multipliedVec + m30 mat) (vy multipliedVec + m31 mat)
           (vz multipliedVec + m32 mat))"

definition TANGENT_TIME_DELTA :: real where
  "TANGENT_TIME_DELTA = 1 / 100"

definition getPos :: "Scene \<Rightarrow> real \<Rightarrow> 'a MotionPath_scheme \<Rightarrow> MVector" where
  "getPos env t mp = (if constrained mp = False then tPlugs env t else MVector 0 0 0)"

definition getCachedPos :: "Scene \<Rightarrow> real \<Rightarrow> 'a MotionPath_scheme \<Rightarrow> MVector" where
  "getCachedPos env t mp =
     (case drawPositionCache mp t of Some p \<Rightarrow> p | None \<Rightarrow> getPos env t mp)"

text \<open>\<open>pMatrixCache[t]\<close>, read after \<open>ensureParentAndPivotMatrixAtTime(t)\<close>.\<close>

definition pMatrixAt :: "'a ParentCache_scheme \<Rightarrow> real \<Rightarrow> MMatrix" where
  "pMatrixAt mp t = (case pMatrixCache mp t of Some m \<Rightarrow> m | None \<Rightarrow> MMatrix_identity)"

text \<open>
  The camera cache class is not part of the modelled sources. \<open>CameraCache\<close> is what the
  key loop uses of it: the map of a world point at a time to
  \<open>MPoint(p) * cachePtr->matrixCache[t] * currentCameraMatrix\<close>.
\<close>

type_synonym CameraCache = "real \<Rightarrow> MVector \<Rightarrow> MVector"

text \<open>
  The direction sampled at \<open>t'\<close> (\<open>prevTime\<close> or \<open>afterTime\<close>) for a non-weighted
  tangent, scaled to the length of the local tangent. \<open>None\<close> is the \<open>continue\<close> written
  for camera space without a camera cache, which the loop body has already taken earlier.
\<close>

definition tangentWorldFromCurve ::
  "GlobalSettings \<Rightarrow> Scene \<Rightarrow> CameraCache option \<Rightarrow> real \<Rightarrow> MVector \<Rightarrow> Keyframe
     \<Rightarrow> 'a MotionPath_scheme \<Rightarrow> MVector option" where
  "tangentWorldFromCurve gs env cachePtr t' localTangent key mp =
     (let sampled = multPosByParentMatrix (getCachedPos env t' mp) (pMatrixAt mp t')
      in if \<not> cameraSpace gs then
           Some (MVector_plus
                   (MVector_scale
                      (MVector_normalize (MVector_minus sampled (worldPosition key)))
                      (MVector_length localTangent))
                   (worldPosition key))
         else
           (case cachePtr of
              None \<Rightarrow> None
            | Some cam \<Rightarrow>
                Some (MVector_plus
                        (MVector_scale
                           (MVector_normalize
                              (MVector_minus (cam t' sampled) (worldPosition key)))
                           (MVector_length localTangent))
                        (worldPosition key))))"

text \<open>
  One iteration of the loop over \<open>keyframesCache\<close> in \<open>cacheKeyFrames\<close>, block by
  block. First the id, the selection mark and the override of the tangent flags while
  drawing.
\<close>

definition keyFlags :: "int \<Rightarrow> 'a MotionPath_scheme \<Rightarrow> Keyframe \<Rightarrow> Keyframe" where
  "keyFlags i mp key0 =
     (let key1 = key0\<lparr>id_key := i\<rparr>;
          key2 = (if time_key key1 \<in> selectedKeyTimes mp
                  then key1\<lparr>selectedFromTool := True\<rparr> else key1)
      in if isDrawing mp
         then key2\<lparr>showInTangent := False, showOutTangent := False\<rparr> else key2)"

text \<open>The local position and the world position through the parent matrix.\<close>

definition keyPositions :: "Scene \<Rightarrow> 'a MotionPath_scheme \<Rightarrow> Keyframe \<Rightarrow> Keyframe" where
  "keyPositions env mp key =
     (let key1 = key\<lparr>position := getCachedPos env (time_key key) mp\<rparr>
      in key1\<lparr>worldPosition :=
                multPosByParentMatrix (position key1) (pMatrixAt mp (time_key key1))\<rparr>)"

text \<open>The camera-relative world position, when in camera space, and the two tangent end points.\<close>

definition keyTangentsWorld ::
  "GlobalSettings \<Rightarrow> CameraCache option \<Rightarrow> 'a MotionPath_scheme \<Rightarrow> Keyframe \<Rightarrow> Keyframe" where
  "keyTangentsWorld gs cachePtr mp key =
     (let key1 = (case cachePtr of
                    Some cam \<Rightarrow>
                      if cameraSpace gs
                      then key\<lparr>worldPosition := cam (time_key key) (worldPosition key)\<rparr>
                      else key
                  | None \<Rightarrow> key);
          pm = pMatrixAt mp (time_key key1)
      in key1\<lparr>inTangentWorld :=
                  multPosByParentMatrix
                    (MVector_plus (MVector_scale (inTangent key1) (- 1)) (position key1)) pm,
                outTangentWorld :=
                  multPosByParentMatrix
                    (MVector_plus (outTangent key1) (position key1)) pm\<rparr>)"

text \<open>The blocks \<open>if (key->showInTangent)\<close> and \<open>if (key->showOutTangent)\<close>.\<close>

definition keyInTangentFromCurve ::
  "GlobalSettings \<Rightarrow> Scene \<Rightarrow> CameraCache option \<Rightarrow> 'a MotionPath_scheme \<Rightarrow> Keyframe
     \<Rightarrow> 'a MotionPath_scheme \<times> Keyframe" where
  "keyInTangentFromCurve gs env cachePtr mp key =
     (if showInTangent key then
        (if isWeighted mp
         then (mp, key\<lparr>inTangentWorldFromCurve := inTangentWorld key\<rparr>)
         else
           (let prevTime = time_key key - TANGENT_TIME_DELTA;
                mpp = ensureParentAndPivotMatrixAtTime gs env prevTime mp
            in case tangentWorldFromCurve gs env cachePtr prevTime (inTangent key) key mpp of
                 Some w \<Rightarrow> (mpp, key\<lparr>inTangentWorldFromCurve := w\<rparr>)
               | None \<Rightarrow> (mpp, key)))
      else (mp, key))"

definition keyOutTangentFromCurve ::
  "GlobalSettings \<Rightarrow> Scene \<Rightarrow> CameraCache option \<Rightarrow> 'a MotionPath_scheme \<Rightarrow> Keyframe
     \<Rightarrow> 'a MotionPath_scheme \<times> Keyframe" where
  "keyOutTangentFromCurve gs env cachePtr mp key =
     (if showOutTangent key then
        (if isWeighted mp
         then (mp, key\<lparr>outTangentWorldFromCurve := outTangentWorld key\<rparr>)
         else
           (let afterTime = time_key key + TANGENT_TIME_DELTA;
                mpa = ensureParentAndPivotMatrixAtTime gs env afterTime mp
            in case tangentWorldFromCurve gs env cachePtr afterTime (outTangent key) key mpa of
                 Some w \<Rightarrow> (mpa, key\<lparr>outTangentWorldFromCurve := w\<rparr>)
               | None \<Rightarrow> (mpa, key)))
      else (mp, key))"

text \<open>
  The whole iteration: the counter \<open>i\<close>, the track and the record, before and after.
  The \<open>continue\<close> taken in camera space without a camera cache leaves the counter as
  it is.
\<close>

definition cacheKeyFrame ::
  "GlobalSettings \<Rightarrow> Scene \<Rightarrow> CameraCache option \<Rightarrow> int \<Rightarrow> 'a MotionPath_scheme \<Rightarrow> Keyframe
     \<Rightarrow> int \<times> 'a MotionPath_scheme \<times> Keyframe" where
  "cacheKeyFrame gs env cachePtr i mp key0 =
     (let key3 = keyFlags i mp key0;
          mp1 = ensureParentAndPivotMatrixAtTime gs env (time_key key3) mp;
          key5 = keyPositions env mp1 key3
      in if cameraSpace gs \<and> cachePtr = None then (i, mp1, key5)
         else
           (let key7 = keyTangentsWorld gs cachePtr mp1 key5;
                (mp2, key8) = keyInTangentFromCurve gs env cachePtr mp1 key7;
                (mp3, key9) = keyOutTangentFromCurve gs env cachePtr mp2 key8
            in (i + 1, mp3, key9)))"

text \<open>The loop over the records in ascending time; the result is the track and the records.\<close>

fun cacheKeyFrameLoop ::
  "GlobalSettings \<Rightarrow> Scene \<Rightarrow> CameraCache option \<Rightarrow> int \<Rightarrow> 'a MotionPath_scheme
     \<Rightarrow> KeyframeMap \<Rightarrow> 'a MotionPath_scheme \<times> KeyframeMap" where
  "cacheKeyFrameLoop gs env cachePtr i mp [] = (mp, [])"
| "cacheKeyFrameLoop gs env cachePtr i mp ((t, key) # rest) =
     (let (i', mp', key') = cacheKeyFrame gs env cachePtr i mp key;
          (mp'', rest') = cacheKeyFrameLoop gs env cachePtr i' mp' rest
      in (mp'', (t, key') # rest'))"

definition cacheKeyFrames ::
  "GlobalSettings \<Rightarrow> Scene \<Rightarrow> real \<Rightarrow> AnimCurve \<Rightarrow> AnimCurve \<Rightarrow> AnimCurve
     \<Rightarrow> AnimCurve \<Rightarrow> AnimCurve \<Rightarrow> AnimCurve \<Rightarrow> CameraCache option
     \<Rightarrow> 'a MotionPath_scheme \<Rightarrow> 'a MotionPath_scheme" where
  "cacheKeyFrames gs env noKeyTime curveTX curveTY curveTZ curveRX curveRY curveRZ cachePtr mp =
     (let mp1 = (if isCurveTypeAnimatable (animCurveType curveTX)
                 then expandKeyFramesCache curveTX kAxisX True mp else mp);
          mp2 = (if isCurveTypeAnimatable (animCurveType curveTY)
                 then expandKeyFramesCache curveTY kAxisY True mp1 else mp1);
          mp3 = (if isCurveTypeAnimatable (animCurveType curveTZ)
                 then expandKeyFramesCache curveTZ kAxisZ True mp2 else mp2);
          mp6 = (if showRotationKeyFrames gs then
                   (let mp4 = (if isCurveTypeAnimatable (animCurveType curveRX)
                               then expandKeyFramesCache curveRX kAxisX False mp3 else mp3);
                        mp5 = (if isCurveTypeAnimatable (animCurveType curveRY)
                               then expandKeyFramesCache curveRY kAxisY False mp4 else mp4)
                    in (if isCurveTypeAnimatable (animCurveType curveRZ)
                        then expandKeyFramesCache curveRZ kAxisZ False mp5 else mp5))
                 else mp3);
          mp7 = setShowInOutTangents noKeyTime curveTX curveTY curveTZ mp6;
          (mp8, kc) = cacheKeyFrameLoop gs env cachePtr 0 mp7 (keyframesCache mp7)
      in mp8\<lparr>keyframesCache := kc\<rparr>)"

section \<open>Adding a key at a world position\<close>

text \<open>
  The host's \<open>MMatrix::inverse()\<close>, by cofactors. For a singular matrix the host's result
  is not known to the program; the division by the zero determinant gives the zero
  matrix here.
\<close>

definition MMatrix_det :: "MMatrix \<Rightarrow> real" where
  "MMatrix_det a =
     (m00 a * m11 a - m10 a * m01 a) * (m22 a * m33 a - m32 a * m23 a)
     - (m00 a * m12 a - m10 a * m02 a) * (m21 a * m33 a - m31 a * m23 a)
     + (m00 a * m13 a - m10 a * m03 a) * (m21 a * m32 a - m31 a * m22 a)
     + (m01 a * m12 a - m11 a * m02 a) * (m20 a * m33 a - m30 a * m23 a)
     - (m01 a * m13 a - m11 a * m03 a) * (m20 a * m32 a - m30 a * m22 a)
     + (m02 a * m13 a - m12 a * m03 a) * (m20 a * m31 a - m30 a * m21 a)"

definition MMatrix_inverse :: "MMatrix \<Rightarrow> MMatrix" where
  "MMatrix_inverse a =
     (let s0 = m00 a * m11 a - m10 a * m01 a; s1 = m00 a * m12 a - m10 a * m02 a;
          s2 = m00 a * m13 a - m10 a * m03 a; s3 = m01 a * m12 a - m11 a * m02 a;
          s4 = m01 a * m13 a - m11 a * m03 a; s5 = m02 a * m13 a - m12 a * m03 a;
          c5 = m22 a * m33 a - m32 a * m23 a; c4 = m21 a * m33 a - m31 a * m23 a;
          c3 = m21 a * m32 a - m31 a * m22 a; c2 = m20 a * m33 a - m30 a * m23 a;
          c1 = m20 a * m32 a - m30 a * m22 a; c0 = m20 a * m31 a - m30 a * m21 a;
          d = MMatrix_det a
      in MMatrix
           ((m11 a * c5 - m12 a * c4 + m13 a * c3) / d)
           ((- m01 a * c5 + m02 a * c4 - m03 a * c3) / d)
           ((m31 a * s5 - m32 a * s4 + m33 a * s3) / d)
           ((- m21 a * s5 + m22 a * s4 - m23 a * s3) / d)
           ((- m10 a * c5 + m12 a * c2 - m13 a * c1) / d)
           ((m00 a * c5 - m02 a * c2 + m03 a * c1) / d)
           ((- m30 a * s5 + m32 a * s2 - m33 a * s1) / d)
           ((m20 a * s5 - m22 a * s2 + m23 a * s1) / d)
           ((m10 a * c4 - m11 a * c2 + m13 a * c0) / d)
           ((- m00 a * c4 + m01 a * c2 - m03 a * c0) / d)
           ((m30 a * s4 - m31 a * s2 + m33 a * s0) / d)
           ((- m20 a * s4 + m21 a * s2 - m23 a * s0) / d)
           ((- m10 a * c3 + m11 a * c1 - m12 a * c0) / d)
           ((m00 a * c3 - m01 a * c1 + m02 a * c0) / d)
           ((- m30 a * s3 + m31 a * s1 - m32 a * s0) / d)
           ((m20 a * s3 - m21 a * s1 + m22 a * s0) / d))"

text \<open>The calls issued on the three translation curves.\<close>

datatype CurveWrite = AddKeyframe Axis real real | SetValue Axis int real

fun writtenAxis :: "CurveWrite \<Rightarrow> Axis" where
  "writtenAxis (AddKeyframe axis t v) = axis"
| "writtenAxis (SetValue axis keyId v) = axis"

fun writtenValue :: "CurveWrite \<Rightarrow> real" where
  "writtenValue (AddKeyframe axis t v) = v"
| "writtenValue (SetValue axis keyId v) = v"

definition writeAxis :: "Axis \<Rightarrow> int \<Rightarrow> real \<Rightarrow> real \<Rightarrow> CurveWrite" where
  "writeAxis axis keyId t v = (if keyId \<noteq> - 1 then SetValue axis keyId v else AddKeyframe axis t v)"

text \<open>The local position \<open>pos\<close> that \<open>addKeyFrameAtTime\<close> writes, and the track after the call.\<close>

definition addKeyFramePos ::
  "GlobalSettings \<Rightarrow> Scene \<Rightarrow> real \<Rightarrow> MVector option \<Rightarrow> 'a MotionPath_scheme
     \<Rightarrow> 'a MotionPath_scheme \<times> MVector" where
  "addKeyFramePos gs env t pos_arg mp =
     (case pos_arg of
        None \<Rightarrow> (mp, getPos env t mp)
      | Some p \<Rightarrow>
          (let mp1 = ensureParentAndPivotMatrixAtTime gs env t mp
           in (mp1, multPosByParentMatrix p (MMatrix_inverse (pMatrixAt mp1 t)))))"

definition addKeyFrameAtTime ::
  "GlobalSettings \<Rightarrow> Scene \<Rightarrow> real \<Rightarrow> MVector option \<Rightarrow> bool \<Rightarrow> 'a MotionPath_scheme
     \<Rightarrow> 'a MotionPath_scheme \<times> CurveWrite list" where
  "addKeyFrameAtTime gs env t pos_arg useCache mp =
     (let (mp1, pos) = addKeyFramePos gs env t pos_arg mp
      in case map_of (keyframesCache mp1) t of
           None \<Rightarrow>
             (mp1, [AddKeyframe kAxisX t (vx pos), AddKeyframe kAxisY t (vy pos),
                    AddKeyframe kAxisZ t (vz pos)])
         | Some key \<Rightarrow>
             if \<not> useCache then
               (mp1, [AddKeyframe kAxisX t (vx pos), AddKeyframe kAxisY t (vy pos),
                      AddKeyframe kAxisZ t (vz pos)])
             else
               (mp1, [writeAxis kAxisX (xKeyId key) t (vx pos),
                      writeAxis kAxisY (yKeyId key) t (vy pos),
                      writeAxis kAxisZ (zKeyId key) t (vz pos)]))"

section \<open>Example inputs\<close>

definition exampleSettings :: GlobalSettings where
  "exampleSettings = \<lparr>usePivots = False, useOpenMP = True, showRotationKeyFrames = True,
     cameraSpace = False, strokeMode = 1\<rparr>"

definition exampleScene :: Scene where
  "exampleScene = \<lparr>pMatrixPlug = (\<lambda>t. MMatrix_identity), rpPlugs = (\<lambda>t. MVector_zero),
     rptPlugs = (\<lambda>t. MVector_zero), tPlugs = (\<lambda>t. MVector_zero)\<rparr>"


definition pivotSettings :: GlobalSettings where
  "pivotSettings = exampleSettings\<lparr>usePivots := True\<rparr>"

definition pivotScene :: Scene where
  "pivotScene = \<lparr>pMatrixPlug = (\<lambda>t. setRow3 MMatrix_identity (MVector t 0 0)),
     rpPlugs = (\<lambda>t. MVector 0 1 0), rptPlugs = (\<lambda>t. MVector 0 0 t),
     tPlugs = (\<lambda>t. MVector t t 0)\<rparr>"

text \<open>A freshly constructed track after a request over the empty range \<open>[5, 3]\<close>.\<close>

definition emptyRangeState :: ParentCache where
  "emptyRangeState = cacheParentMatrixRange exampleSettings exampleScene 5 3 ParentCache_init"

text \<open>A freshly constructed track after caching \<open>[100, 102]\<close>, then requesting \<open>[10, 12]\<close>.\<close>

definition highRangeState :: ParentCache where
  "highRangeState = cacheParentMatrixRange exampleSettings exampleScene 100 102 ParentCache_init"

definition gapState :: ParentCache where
  "gapState = cacheParentMatrixRange exampleSettings exampleScene 10 12 highRangeState"

text \<open>Strokes: a straight one, one with a doubled point, one leading away from the only
  neighbour of the first key, and one that turns back below its start.\<close>

definition straightStroke :: "MVector list" where
  "straightStroke = [MVector 0 0 0, MVector 10 0 0, MVector 20 0 0, MVector 30 0 0]"



definition hookStroke :: "MVector list" where
  "hookStroke = [MVector 0 0 0, MVector 0 40 0, MVector 6 (- 32) 0]"


definition middleKeyView :: StrokeView where
  "middleKeyView =
     \<lparr>keyScreenPosition = (\<lambda>t. if t = 1 then MVector 0 (- 10) 0
                               else if t = 2 then MVector 0 0 0 else MVector 7 (- 24) 0),
      keyWorldPosition = (\<lambda>t. if t = 1 then MVector 0 (- 10) 0
                               else if t = 2 then MVector 0 0 0 else MVector 7 (- 24) 0),
      worldPositionFromProjPoint = (\<lambda>w s p. p),
      worldCameraSpaceToWorldSpace = (\<lambda>p t. Some p)\<rparr>"

text \<open>A fresh track with the display window \<open>[0, 20]\<close>.\<close>

definition exampleTrack :: MotionPath where
  "exampleTrack =
     \<lparr>pMatrixCache = Map.empty, cachedRangeStart = 0, cachedRangeEnd = 0,
      pMatrixCacheValid = False, keyframesCache = [], displayStartTime = 0,
      displayEndTime = 20, isDrawing = False, endDrawingTime = 0, selectedKeyTimes = {},
      isWeighted = False, constrained = False, drawPositionCache = Map.empty\<rparr>"

text \<open>
  Non-weighted curves with keys at times 1 and 5, whose first out-tangent has the angle
  \<open>pi / 4\<close> and the weight 2, respectively 1; a weighted curve; a rotation curve with one
  key at time 10; a plug with no curve; and the settings with rotation keys hidden.
\<close>

definition steepCurve :: AnimCurve where
  "steepCurve =
     \<lparr>animCurveType = kAnimCurveTL, curveIsWeighted = False,
      curveKeys =
        [\<lparr>keyTime = 1, keyValue = 0, keyInTangent = (0, 1), keyOutTangent = (pi / 4, 2),
          keyTangentsLocked = True\<rparr>,
         \<lparr>keyTime = 5, keyValue = 3, keyInTangent = (pi / 4, 1), keyOutTangent = (pi / 4, 1),
          keyTangentsLocked = True\<rparr>]\<rparr>"

definition unitCurve :: AnimCurve where
  "unitCurve =
     \<lparr>animCurveType = kAnimCurveTL, curveIsWeighted = False,
      curveKeys =
        [\<lparr>keyTime = 1, keyValue = 0, keyInTangent = (0, 1), keyOutTangent = (pi / 4, 1),
          keyTangentsLocked = True\<rparr>,
         \<lparr>keyTime = 5, keyValue = 3, keyInTangent = (pi / 4, 1), keyOutTangent = (0, 1),
          keyTangentsLocked = True\<rparr>]\<rparr>"

definition weightedCurve :: AnimCurve where
  "weightedCurve =
     \<lparr>animCurveType = kAnimCurveTL, curveIsWeighted = True,
      curveKeys =
        [\<lparr>keyTime = 1, keyValue = 0, keyInTangent = (1, 0), keyOutTangent = (1, 6),
          keyTangentsLocked = True\<rparr>,
         \<lparr>keyTime = 5, keyValue = 3, keyInTangent = (1, 6), keyOutTangent = (1, 0),
          keyTangentsLocked = True\<rparr>]\<rparr>"

definition rotXCurve :: AnimCurve where
  "rotXCurve =
     \<lparr>animCurveType = kAnimCurveTA, curveIsWeighted = False,
      curveKeys =
        [\<lparr>keyTime = 10, keyValue = 0, keyInTangent = (0, 1), keyOutTangent = (0, 1),
          keyTangentsLocked = True\<rparr>]\<rparr>"

definition noCurve :: AnimCurve where
  "noCurve = \<lparr>animCurveType = kAnimCurveUnknown, curveIsWeighted = False, curveKeys = []\<rparr>"

definition hiddenRotationSettings :: GlobalSettings where
  "hiddenRotationSettings = exampleSettings\<lparr>showRotationKeyFrames := False\<rparr>"


text \<open>
  A freshly constructed track on which frame 7 was cached while pivots were off, before any
  range request; and a parent scaled to zero, at the position \<open>(5, 0, 0)\<close>.
\<close>

definition staleState :: ParentCache where
  "staleState = ensureParentAndPivotMatrixAtTime exampleSettings pivotScene 7 ParentCache_init"

text \<open>The double nearest to one third.\<close>

definition nearestThird :: real where
  "nearestThird = 6004799503160661 / 18014398509481984"

definition collapsedMatrix :: MMatrix where
  "collapsedMatrix = MMatrix 0 0 0 0  0 0 0 0  0 0 0 0  5 0 0 1"

definition collapsedScene :: Scene where
  "collapsedScene = \<lparr>pMatrixPlug = (\<lambda>t. collapsedMatrix), rpPlugs = (\<lambda>t. MVector_zero),
     rptPlugs = (\<lambda>t. MVector_zero), tPlugs = (\<lambda>t. MVector_zero)\<rparr>"

section \<open>Properties of the rounding\<close>

lemma round_even_of_int: "round_even (of_int m) = m"
  by (simp add: round_even_def)

lemma round_even_error: "\<bar>of_int (round_even x) - x\<bar> \<le> 1 / 2"
  unfolding round_even_def Let_def by (auto; linarith)

lemma round_even_nonneg: "0 \<le> x \<Longrightarrow> 0 \<le> round_even x"
  unfolding round_even_def Let_def by (auto; linarith)

lemma round_even_nonpos: "x \<le> 0 \<Longrightarrow> round_even x \<le> 0"
  unfolding round_even_def Let_def by (auto; linarith)

lemma powr_powi: "(2::real) powr real_of_int k = 2 powi k"
  by (rule powr_real_of_int') simp_all

lemma floor_log2_bounds:
  assumes "x \<noteq> 0"
  shows "2 powi \<lfloor>log 2 \<bar>x\<bar>\<rfloor> \<le> \<bar>x\<bar>" "\<bar>x\<bar> < 2 powi (\<lfloor>log 2 \<bar>x\<bar>\<rfloor> + 1)"
proof -
  have pos: "0 < \<bar>x\<bar>" using assms by simp
  have "2 powr real_of_int \<lfloor>log 2 \<bar>x\<bar>\<rfloor> \<le> \<bar>x\<bar>
        \<and> \<bar>x\<bar> < 2 powr real_of_int (\<lfloor>log 2 \<bar>x\<bar>\<rfloor> + 1)"
    using floor_log_eq_powr_iff [OF pos, of 2 "\<lfloor>log 2 \<bar>x\<bar>\<rfloor>"] by simp
  then show "2 powi \<lfloor>log 2 \<bar>x\<bar>\<rfloor> \<le> \<bar>x\<bar>" "\<bar>x\<bar> < 2 powi (\<lfloor>log 2 \<bar>x\<bar>\<rfloor> + 1)"
    by (simp_all only: powr_powi)
qed

lemma floor_log2_eq:
  assumes "2 powi e \<le> \<bar>x\<bar>" "\<bar>x\<bar> < 2 powi (e + 1)"
  shows "\<lfloor>log 2 \<bar>x\<bar>\<rfloor> = e"
proof -
  have "(0::real) < 2 powi e" by simp
  with assms(1) have pos: "0 < \<bar>x\<bar>" by linarith
  show ?thesis
    using assms floor_log_eq_powr_iff [OF pos, of 2 e] by (simp only: powr_powi)
qed

text \<open>The rounding of a number whose binary exponent is known.\<close>

lemma round_binary_eval:
  assumes "2 powi e \<le> \<bar>x\<bar>" "\<bar>x\<bar> < 2 powi (e + 1)" "emin \<le> e"
  shows "round_binary p emin x =
           of_int (round_even (x / 2 powi (e - (int p - 1)))) * 2 powi (e - (int p - 1))"
proof -
  have "(0::real) < 2 powi e" by simp
  with assms(1) have "0 < \<bar>x\<bar>" by linarith
  then have "x \<noteq> 0" by auto
  moreover have "max \<lfloor>log 2 \<bar>x\<bar>\<rfloor> emin = e"
    using floor_log2_eq [OF assms(1,2)] assms(3) by simp
  ultimately show ?thesis by (simp add: round_binary_def Let_def)
qed

text \<open>An integer of fewer than \<open>p\<close> bits is representable.\<close>

lemma round_binary_of_int:
  assumes "\<bar>n\<bar> < 2 ^ p" and "emin \<le> 0"
  shows "round_binary p emin (of_int n) = of_int n"
proof (cases "n = 0")
  case True
  then show ?thesis by (simp add: round_binary_def)
next
  case False
  define x :: real where "x = of_int n"
  define e where "e = \<lfloor>log 2 \<bar>x\<bar>\<rfloor>"
  have x0: "x \<noteq> 0" using False by (simp add: x_def)
  have x1: "1 \<le> \<bar>x\<bar>" using False by (simp add: x_def)
  have "real_of_int \<bar>n\<bar> < real_of_int (2 ^ p)" using assms(1) by (simp only: of_int_less_iff)
  then have x2: "\<bar>x\<bar> < 2 ^ p" by (simp add: x_def)
  have b: "2 powi e \<le> \<bar>x\<bar>" "\<bar>x\<bar> < 2 powi (e + 1)"
    unfolding e_def by (rule floor_log2_bounds [OF x0])+
  have e0: "0 \<le> e"
  proof (rule ccontr)
    assume "\<not> 0 \<le> e"
    then have "e + 1 \<le> 0" by simp
    then have "(2::real) powi (e + 1) \<le> 2 powi 0"
      by (intro power_int_increasing) simp_all
    with b(2) x1 show False by simp
  qed
  have ep: "e < int p"
  proof (rule ccontr)
    assume "\<not> e < int p"
    then have "int p \<le> e" by simp
    then have "(2::real) powi int p \<le> 2 powi e"
      by (intro power_int_increasing) simp_all
    with b(1) x2 show False by simp
  qed
  define k where "k = nat (int p - 1 - e)"
  have ke: "e - (int p - 1) = - int k" using ep by (simp add: k_def)
  have ulp: "(2::real) powi (e - (int p - 1)) = 1 / 2 ^ k"
    by (simp only: ke) (simp add: power_int_minus field_simps)
  have "x / (1 / 2 ^ k) = of_int (n * 2 ^ k)"
    by (simp add: x_def)
  then have r: "round_even (x / (1 / 2 ^ k)) = n * 2 ^ k"
    by (simp only: round_even_of_int)
  have "round_binary p emin x =
          of_int (round_even (x / 2 powi (e - (int p - 1)))) * 2 powi (e - (int p - 1))"
    using b e0 assms(2) by (intro round_binary_eval) simp_all
  also have "\<dots> = of_int (n * 2 ^ k) * (1 / 2 ^ k)"
    by (simp only: ulp r)
  also have "\<dots> = x" by (simp add: x_def)
  finally show ?thesis by (simp add: x_def)
qed

lemma to_double_of_int:
  assumes "\<bar>n\<bar> < 2 ^ 53"
  shows "to_double (of_int n) = of_int n"
  unfolding to_double_def using assms by (intro round_binary_of_int) simp_all

lemma to_double_simps [simp]:
  "to_double 0 = 0" "to_double 1 = 1" "to_double (- 1) = - 1"
  "numeral k < (9007199254740992::int) \<Longrightarrow> to_double (numeral k) = numeral k"
  "numeral k < (9007199254740992::int) \<Longrightarrow> to_double (- numeral k) = - numeral k"
  using to_double_of_int [of 0] to_double_of_int [of 1] to_double_of_int [of "- 1"]
    to_double_of_int [of "numeral k"] to_double_of_int [of "- numeral k"]
  by simp_all

lemma to_float_of_int:
  assumes "\<bar>n\<bar> < 2 ^ 24"
  shows "to_float (of_int n) = Float (of_int n)"
proof -
  have r: "round_binary 24 (- 126) (of_int n) = of_int n"
    using assms by (intro round_binary_of_int) simp_all
  have "real_of_int \<bar>n\<bar> < real_of_int (2 ^ 24)" using assms by (simp only: of_int_less_iff)
  then have "\<bar>real_of_int n\<bar> < 2 ^ 24" by simp
  moreover have "(2::real) ^ 24 \<le> FLT_MAX" by (simp add: FLT_MAX_def)
  ultimately have "\<not> FLT_MAX < real_of_int n" "\<not> real_of_int n < - FLT_MAX" by linarith+
  then show ?thesis by (simp add: to_float_def r)
qed

text \<open>The error of a rounding: half a unit in the last place.\<close>

lemma round_binary_error:
  assumes "x \<noteq> 0"
  shows "\<bar>round_binary p emin x - x\<bar> \<le> 2 powi (max \<lfloor>log 2 \<bar>x\<bar>\<rfloor> emin - (int p - 1)) / 2"
proof -
  define u :: real where "u = 2 powi (max \<lfloor>log 2 \<bar>x\<bar>\<rfloor> emin - (int p - 1))"
  have u: "0 < u" by (simp add: u_def)
  have r: "round_binary p emin x = of_int (round_even (x / u)) * u"
    using assms by (simp add: round_binary_def Let_def u_def)
  have "round_binary p emin x - x = (of_int (round_even (x / u)) - x / u) * u"
    using u by (simp add: r field_simps)
  then have "\<bar>round_binary p emin x - x\<bar> = \<bar>of_int (round_even (x / u)) - x / u\<bar> * u"
    using u by (simp add: abs_mult)
  also have "\<dots> \<le> (1 / 2) * u"
    using round_even_error [of "x / u"] u by (intro mult_right_mono) simp_all
  finally show ?thesis by (simp add: u_def)
qed

lemma round_binary_error_bound:
  "\<bar>round_binary p emin x - x\<bar> \<le> \<bar>x\<bar> * 2 powi (- int p) \<or>
   \<bar>round_binary p emin x - x\<bar> \<le> 2 powi (emin - int p)"
proof (cases "x = 0")
  case True
  then show ?thesis by (simp add: round_binary_def)
next
  case False
  let ?l = "\<lfloor>log 2 \<bar>x\<bar>\<rfloor>"
  have half: "(2::real) powi (k - (int p - 1)) / 2 = 2 powi (k - int p)" for k
  proof -
    have e: "k - (int p - 1) = (k - int p) + 1" by simp
    have "(2::real) powi (k - (int p - 1)) = 2 powi ((k - int p) + 1)"
      by (simp only: e)
    also have "\<dots> = 2 powi (k - int p) * 2 powi 1"
      by (rule power_int_add) simp
    finally show ?thesis by simp
  qed
  show ?thesis
  proof (cases "emin \<le> ?l")
    case True
    then have "max ?l emin = ?l" by simp
    with round_binary_error [OF False, of p emin]
    have "\<bar>round_binary p emin x - x\<bar> \<le> 2 powi (?l - int p)"
      by (simp add: half)
    also have "(2::real) powi (?l - int p) = 2 powi ?l * 2 powi (- int p)"
      by (simp add: power_int_diff power_int_minus field_simps)
    also have "\<dots> \<le> \<bar>x\<bar> * 2 powi (- int p)"
      using floor_log2_bounds(1) [OF False] by (intro mult_right_mono) simp_all
    finally show ?thesis by blast
  next
    case False
    then have "max ?l emin = emin" by simp
    with round_binary_error [OF \<open>x \<noteq> 0\<close>, of p emin]
    have "\<bar>round_binary p emin x - x\<bar> \<le> 2 powi (emin - int p)"
      by (simp add: half)
    then show ?thesis by blast
  qed
qed

lemma round_binary_nonneg:
  assumes "0 \<le> x"
  shows "0 \<le> round_binary p emin x"
proof -
  have "0 \<le> round_even (x / u)" if "0 < u" for u :: real
    using assms that by (intro round_even_nonneg) simp
  then show ?thesis by (simp add: round_binary_def Let_def)
qed

lemma round_binary_nonpos:
  assumes "x \<le> 0"
  shows "round_binary p emin x \<le> 0"
proof -
  have "of_int (round_even (x / u)) * u \<le> 0" if "0 < u" for u :: real
  proof -
    have "x / u \<le> 0" using assms that by (simp add: divide_nonpos_pos)
    then have "round_even (x / u) \<le> 0" by (rule round_even_nonpos)
    then have "real_of_int (round_even (x / u)) \<le> 0" by simp
    with that show ?thesis by (simp add: mult_nonpos_nonneg)
  qed
  then show ?thesis by (simp add: round_binary_def Let_def)
qed

lemma narrowed_sign: "0 \<le> round_binary p emin v * v"
proof (cases "0 \<le> v")
  case True
  with round_binary_nonneg [OF True, of p emin] show ?thesis by simp
next
  case False
  then have "v \<le> 0" by simp
  with round_binary_nonpos [OF this, of p emin] show ?thesis
    by (simp add: mult_nonpos_nonpos)
qed

text \<open>
  Narrowing to float moves a value \<open>v\<close> to \<open>r\<close> of the same sign with
  \<open>\<bar>r - v\<bar> / (1 + r * v)\<close> at most \<open>2 ^ - 24\<close>, or to an infinity when \<open>v\<close> is huge.
\<close>

lemma narrowed_error:
  fixes r v :: real
  assumes r: "r = round_binary 24 (- 126) v"
  shows "\<bar>r - v\<bar> / (1 + r * v) \<le> 1 / 2 ^ 24"
proof -
  define a where "a = \<bar>v\<bar>"
  define d where "d = r - v"
  define s where "s = a * a"
  define g :: real where "g = 1 / 2 ^ 24"
  have a0: "0 \<le> a" by (simp add: a_def)
  have s0: "0 \<le> s" by (simp add: s_def)
  have g0: "0 < g" "g \<le> 1 / 2" by (simp_all add: g_def)
  have rv0: "0 \<le> r * v" unfolding r by (rule narrowed_sign)
  have e1: "(2::real) powi (- int 24) = g"
    by (simp add: g_def power_int_minus field_simps)
  have e2: "(2::real) powi (- 126 - int 24) \<le> g"
    by (simp add: g_def power_int_minus field_simps)
  have "\<bar>r - v\<bar> \<le> \<bar>v\<bar> * 2 powi (- int 24) \<or> \<bar>r - v\<bar> \<le> 2 powi (- 126 - int 24)"
    unfolding r by (rule round_binary_error_bound)
  then have "\<bar>d\<bar> \<le> a * g \<or> \<bar>d\<bar> \<le> g"
  proof
    assume "\<bar>r - v\<bar> \<le> \<bar>v\<bar> * 2 powi (- int 24)"
    then have "\<bar>d\<bar> \<le> a * g" by (simp only: e1 d_def a_def)
    then show ?thesis ..
  next
    assume "\<bar>r - v\<bar> \<le> 2 powi (- 126 - int 24)"
    with e2 have "\<bar>d\<bar> \<le> g" unfolding d_def by linarith
    then show ?thesis ..
  qed
  then have "\<bar>d\<bar> \<le> g * (1 + r * v)"
  proof
    assume small: "\<bar>d\<bar> \<le> g"
    have "g * 1 \<le> g * (1 + r * v)"
      using g0 rv0 by (intro mult_left_mono) simp_all
    with small show ?thesis by simp
  next
    assume rel: "\<bar>d\<bar> \<le> a * g"
    have "\<bar>v * d\<bar> = a * \<bar>d\<bar>" by (simp add: abs_mult a_def)
    also have "\<dots> \<le> a * (a * g)" using rel a0 by (intro mult_left_mono)
    also have "\<dots> = s * g" by (simp add: s_def)
    finally have vd: "- (s * g) \<le> v * d" by linarith
    have "s * g \<le> s * (1 / 2)" using g0 s0 by (intro mult_left_mono) simp_all
    then have sg: "s * g \<le> s / 2" by simp
    have "v * v = s" by (simp add: s_def a_def)
    moreover have "r * v = v * v + v * d" by (simp add: d_def algebra_simps)
    ultimately have rv: "s / 2 \<le> r * v" using vd sg by linarith
    have "0 \<le> (a - 1) * (a - 1)" by (rule zero_le_square)
    then have "a \<le> 1 + s / 2" by (simp add: s_def algebra_simps)
    with rv have "a \<le> 1 + r * v" by linarith
    then have "a * g \<le> (1 + r * v) * g" using g0 by (intro mult_right_mono) simp_all
    with rel show ?thesis by (simp add: mult.commute)
  qed
  moreover have "0 < 1 + r * v" using rv0 by linarith
  ultimately have "\<bar>d\<bar> / (1 + r * v) \<le> g"
    by (simp add: pos_divide_le_eq)
  then show ?thesis by (simp add: d_def g_def)
qed

lemma overflow_large:
  fixes v :: real
  assumes "FLT_MAX < round_binary 24 (- 126) v"
  shows "2 ^ 100 \<le> v"
proof -
  define r where "r = round_binary 24 (- 126) v"
  have big: "2 ^ 102 \<le> FLT_MAX" by (simp add: FLT_MAX_def)
  with assms have r: "2 ^ 102 < r" by (simp add: r_def)
  have v0: "0 < v"
  proof (rule ccontr)
    assume "\<not> 0 < v"
    then have "v \<le> 0" by simp
    from round_binary_nonpos [OF this, of 24 "- 126"] r show False by (simp add: r_def)
  qed
  have pw: "(2::real) powi (- int 24) \<le> 1" "(2::real) powi (- 126 - int 24) \<le> 1"
    by (simp_all add: power_int_minus field_simps)
  from round_binary_error_bound [of 24 "- 126" v]
  have "\<bar>r - v\<bar> \<le> v * 2 powi (- int 24) \<or> \<bar>r - v\<bar> \<le> 2 powi (- 126 - int 24)"
    using v0 by (simp add: r_def)
  moreover have "v * 2 powi (- int 24) \<le> v * 1"
    using v0 pw(1) by (intro mult_left_mono) simp_all
  ultimately have "\<bar>r - v\<bar> \<le> v \<or> \<bar>r - v\<bar> \<le> 1" using pw(2) by auto
  then have "r \<le> 2 * v + 1" using v0 by auto
  with r have "2 ^ 102 < 2 * v + 1" by linarith
  then show ?thesis by simp
qed

lemma underflow_large:
  fixes v :: real
  assumes "round_binary 24 (- 126) v < - FLT_MAX"
  shows "v \<le> - (2 ^ 100)"
proof -
  define r where "r = round_binary 24 (- 126) v"
  have big: "2 ^ 102 \<le> FLT_MAX" by (simp add: FLT_MAX_def)
  with assms have r: "r < - (2 ^ 102)" by (simp add: r_def)
  have v0: "v < 0"
  proof (rule ccontr)
    assume "\<not> v < 0"
    then have "0 \<le> v" by simp
    from round_binary_nonneg [OF this, of 24 "- 126"] r show False by (simp add: r_def)
  qed
  have pw: "(2::real) powi (- int 24) \<le> 1" "(2::real) powi (- 126 - int 24) \<le> 1"
    by (simp_all add: power_int_minus field_simps)
  from round_binary_error_bound [of 24 "- 126" v]
  have "\<bar>r - v\<bar> \<le> (- v) * 2 powi (- int 24) \<or> \<bar>r - v\<bar> \<le> 2 powi (- 126 - int 24)"
    using v0 by (simp add: r_def)
  moreover have "(- v) * 2 powi (- int 24) \<le> (- v) * 1"
    using v0 pw(1) by (intro mult_left_mono) simp_all
  ultimately have "\<bar>r - v\<bar> \<le> - v \<or> \<bar>r - v\<bar> \<le> 1" using pw(2) by auto
  then have "2 * v - 1 \<le> r" using v0 by auto
  with r have "2 * v - 1 < - (2 ^ 102)" by linarith
  then show ?thesis by simp
qed

lemma to_float_cases:
  obtains (finite) "to_float v = Float (round_binary 24 (- 126) v)"
  | (plus) "to_float v = PlusInfinity" "2 ^ 100 \<le> v"
  | (minus) "to_float v = MinusInfinity" "v \<le> - (2 ^ 100)"
proof (cases "FLT_MAX < round_binary 24 (- 126) v")
  case True
  then have "to_float v = PlusInfinity" by (simp add: to_float_def Let_def)
  then show ?thesis using overflow_large [OF True] by (rule plus)
next
  case False
  show ?thesis
  proof (cases "round_binary 24 (- 126) v < - FLT_MAX")
    case True
    with False have "to_float v = MinusInfinity" by (simp add: to_float_def Let_def)
    then show ?thesis using underflow_large [OF True] by (rule minus)
  next
    case nm: False
    with False have "to_float v = Float (round_binary 24 (- 126) v)"
      by (simp add: to_float_def Let_def)
    then show ?thesis by (rule finite)
  qed
qed

section \<open>Properties of the parent matrix cache\<close>

lemma ensure_fields [simp]:
  "cachedRangeStart (ensureParentAndPivotMatrixAtTime gs env t mp) = cachedRangeStart mp"
  "cachedRangeEnd (ensureParentAndPivotMatrixAtTime gs env t mp) = cachedRangeEnd mp"
  "pMatrixCacheValid (ensureParentAndPivotMatrixAtTime gs env t mp) = pMatrixCacheValid mp"
  by (simp_all add: ensureParentAndPivotMatrixAtTime_def)

lemma ensure_nonempty:
  "pMatrixCache mp \<noteq> Map.empty \<Longrightarrow>
   pMatrixCache (ensureParentAndPivotMatrixAtTime gs env t mp) \<noteq> Map.empty"
  by (simp add: ensureParentAndPivotMatrixAtTime_def)

lemma ensure_keeps:
  "pMatrixCache mp u = Some m \<Longrightarrow>
   pMatrixCache (ensureParentAndPivotMatrixAtTime gs env t mp) u = Some m"
  by (auto simp add: ensureParentAndPivotMatrixAtTime_def)

lemma cacheLeadingFrames_fields:
  "cachedRangeStart (cacheLeadingFrames gs env i e mp) = cachedRangeStart mp \<and>
   cachedRangeEnd (cacheLeadingFrames gs env i e mp) = cachedRangeEnd mp \<and>
   pMatrixCacheValid (cacheLeadingFrames gs env i e mp) = pMatrixCacheValid mp \<and>
   (pMatrixCache mp \<noteq> Map.empty \<longrightarrow> pMatrixCache (cacheLeadingFrames gs env i e mp) \<noteq> Map.empty)"
proof (induction gs env i e mp rule: cacheLeadingFrames.induct)
  case (1 gs env i endFrame mp)
  show ?case
  proof (cases "i < cachedRangeStart mp \<and> i \<le> endFrame")
    case True
    then have "cacheLeadingFrames gs env i endFrame mp =
        cacheLeadingFrames gs env (i + 1) endFrame (ensureParentAndPivotMatrixAtTime gs env i mp)"
      by (subst cacheLeadingFrames.simps) simp
    with 1 True show ?thesis by (simp add: ensure_nonempty)
  next
    case False
    then have "cacheLeadingFrames gs env i endFrame mp = mp"
      by (subst cacheLeadingFrames.simps) auto
    then show ?thesis by simp
  qed
qed

lemma cacheFramesUpTo_fields:
  "cachedRangeStart (cacheFramesUpTo gs env i e mp) = cachedRangeStart mp \<and>
   cachedRangeEnd (cacheFramesUpTo gs env i e mp) = cachedRangeEnd mp \<and>
   pMatrixCacheValid (cacheFramesUpTo gs env i e mp) = pMatrixCacheValid mp \<and>
   (pMatrixCache mp \<noteq> Map.empty \<longrightarrow> pMatrixCache (cacheFramesUpTo gs env i e mp) \<noteq> Map.empty)"
proof (induction gs env i e mp rule: cacheFramesUpTo.induct)
  case (1 gs env i endFrame mp)
  show ?case
  proof (cases "i \<le> endFrame")
    case True
    then have "cacheFramesUpTo gs env i endFrame mp =
        cacheFramesUpTo gs env (i + 1) endFrame (ensureParentAndPivotMatrixAtTime gs env i mp)"
      by (subst cacheFramesUpTo.simps) simp
    with 1 True show ?thesis by (simp add: ensure_nonempty)
  next
    case False
    then have "cacheFramesUpTo gs env i endFrame mp = mp"
      by (subst cacheFramesUpTo.simps) simp
    then show ?thesis by simp
  qed
qed

lemma cacheParentMatrixRange_step:
  assumes "pMatrixCacheValid mp" and "pMatrixCache mp \<noteq> Map.empty"
  shows "cachedRangeStart (cacheParentMatrixRange gs env a b mp) \<le> cachedRangeStart mp \<and>
         cachedRangeEnd mp \<le> cachedRangeEnd (cacheParentMatrixRange gs env a b mp) \<and>
         pMatrixCacheValid (cacheParentMatrixRange gs env a b mp) \<and>
         pMatrixCache (cacheParentMatrixRange gs env a b mp) \<noteq> Map.empty"
  using assms
  by (simp add: cacheParentMatrixRange_def Let_def cacheLeadingFrames_fields cacheFramesUpTo_fields)

text \<open>
  C1 (as amended). Starting from a cache that is valid and non-empty, any sequence of
  \<open>cacheParentMatrixRange\<close> calls with no clear in between never increases
  \<open>cachedRangeStart\<close> and never decreases \<open>cachedRangeEnd\<close>.
\<close>

theorem cacheParentMatrixRanges_monotone:
  assumes "pMatrixCacheValid mp" and "pMatrixCache mp \<noteq> Map.empty"
  shows "cachedRangeStart (cacheParentMatrixRanges gs env reqs mp) \<le> cachedRangeStart mp \<and>
         cachedRangeEnd mp \<le> cachedRangeEnd (cacheParentMatrixRanges gs env reqs mp)"
  using assms
proof (induction reqs arbitrary: mp)
  case Nil
  then show ?case by simp
next
  case (Cons r reqs)
  obtain a b where r: "r = (a, b)" by (cases r)
  let ?mp1 = "cacheParentMatrixRange gs env a b mp"
  have s: "cachedRangeStart ?mp1 \<le> cachedRangeStart mp \<and> cachedRangeEnd mp \<le> cachedRangeEnd ?mp1
           \<and> pMatrixCacheValid ?mp1 \<and> pMatrixCache ?mp1 \<noteq> Map.empty"
    using cacheParentMatrixRange_step [OF Cons.prems] by blast
  from Cons.IH [of ?mp1] s
  have "cachedRangeStart (cacheParentMatrixRanges gs env reqs ?mp1) \<le> cachedRangeStart ?mp1 \<and>
        cachedRangeEnd ?mp1 \<le> cachedRangeEnd (cacheParentMatrixRanges gs env reqs ?mp1)"
    by blast
  with s r show ?case by simp
qed


theorem cacheParentMatrixRanges_monotone_witness:
  "pMatrixCacheValid highRangeState \<and> pMatrixCache highRangeState \<noteq> Map.empty \<and>
   cachedRangeStart (cacheParentMatrixRanges exampleSettings exampleScene [(99, 101), (101, 104)]
       highRangeState) \<le> cachedRangeStart highRangeState \<and>
   cachedRangeEnd highRangeState \<le>
     cachedRangeEnd (cacheParentMatrixRanges exampleSettings exampleScene [(99, 101), (101, 104)]
       highRangeState)"
proof -
  have v: "pMatrixCacheValid highRangeState"
    by (simp add: highRangeState_def cacheParentMatrixRange_def ParentCache_init_def Let_def)
  have n: "pMatrixCache highRangeState \<noteq> Map.empty"
    by (simp add: highRangeState_def cacheParentMatrixRange_def ParentCache_init_def
        exampleSettings_def double_to_int_def cacheFramesUpTo.simps
        ensureParentAndPivotMatrixAtTime_def)
  from v n cacheParentMatrixRanges_monotone [OF v n] show ?thesis by blast
qed

text \<open>
  C1 (counterexample). The state \<open>emptyRangeState\<close> is valid with range start 5 and no
  entries; the next request, with no clear in between, is rebuilt in full and moves the
  range start up to 10.
\<close>

theorem cachedRangeStart_increases_counterexample:
  "pMatrixCacheValid emptyRangeState \<and> cachedRangeStart emptyRangeState = 5 \<and>
   cachedRangeStart (cacheParentMatrixRange exampleSettings exampleScene 10 12 emptyRangeState) = 10"
  by (simp add: emptyRangeState_def cacheParentMatrixRange_def ParentCache_init_def
      exampleSettings_def double_to_int_def cacheFramesUpTo.simps)

text \<open>
  C2 (the code at the failing input). With \<open>[100, 102]\<close> cached, the request \<open>[10, 12]\<close>
  extends the tracked range to \<open>[10, 102]\<close> but leaves frame 50 without an entry; the
  following request \<open>[30, 50]\<close> then returns at once and frame 40 stays uncached.
\<close>

theorem cacheParentMatrixRange_gap_below:
  "cachedRangeStart gapState = 10 \<and> cachedRangeEnd gapState = 102 \<and>
   pMatrixCacheValid gapState \<and> pMatrixCache gapState 50 = None \<and>
   pMatrixCache (cacheParentMatrixRange exampleSettings exampleScene 30 50 gapState) 40 = None"
  by (simp add: gapState_def highRangeState_def cacheParentMatrixRange_def ParentCache_init_def
      exampleSettings_def double_to_int_def cacheFramesUpTo.simps cacheLeadingFrames.simps
      ensureParentAndPivotMatrixAtTime_def)

lemma setRow3_twice: "setRow3 (setRow3 m v) w = setRow3 m w"
  by (simp add: setRow3_def)

lemma compose_gather:
  "composeFrame gs (gatherFrame gs env startFrame idx) = getPMatrixAtTime gs env (startFrame + real idx)"
  by (simp add: composeFrame_def gatherFrame_def getPMatrixAtTime_def Let_def setRow3_twice)

lemma frame_gather: "frame (gatherFrame gs env startFrame idx) = startFrame + real idx"
  by (simp add: gatherFrame_def Let_def)

lemma writeback_map:
  "writeback (map (\<lambda>x. (f x, g (f x))) xs) c t =
     (if t \<in> f ` set xs then Some (g t) else c t)"
  by (induction xs arbitrary: c) auto

lemma three_phase_pairs:
  "zip (map frame (map (gatherFrame gs env startFrame) idxs))
       (map (composeFrame gs) (map (gatherFrame gs env startFrame) idxs))
   = map (\<lambda>idx. (startFrame + real idx, getPMatrixAtTime gs env (startFrame + real idx))) idxs"
  by (induction idxs) (simp_all add: compose_gather frame_gather)

lemma rebuildThreePhase_cache:
  "pMatrixCache (rebuildThreePhase gs env startFrame n mp) t =
     (if t \<in> (\<lambda>idx. startFrame + real idx) ` {0..<n} then Some (getPMatrixAtTime gs env t)
      else pMatrixCache mp t)"
  unfolding rebuildThreePhase_def Let_def three_phase_pairs
  using writeback_map [of "\<lambda>idx. startFrame + real idx" "getPMatrixAtTime gs env" "[0..<n]"]
  by simp

lemma cacheFramesUpTo_cache:
  "pMatrixCache (cacheFramesUpTo gs env i e mp) t =
     (if (\<exists>k::nat. t = i + real k) \<and> t \<le> e
      then (case pMatrixCache mp t of None \<Rightarrow> Some (getPMatrixAtTime gs env t) | Some m \<Rightarrow> Some m)
      else pMatrixCache mp t)"
proof (induction gs env i e mp rule: cacheFramesUpTo.induct)
  case (1 gs env i endFrame mp)
  show ?case
  proof (cases "i \<le> endFrame")
    case False
    then have "cacheFramesUpTo gs env i endFrame mp = mp"
      by (subst cacheFramesUpTo.simps) auto
    moreover have "\<not> ((\<exists>k::nat. t = i + real k) \<and> t \<le> endFrame)"
      using False by auto
    ultimately show ?thesis by auto
  next
    case True
    let ?mp1 = "ensureParentAndPivotMatrixAtTime gs env i mp"
    have unf: "cacheFramesUpTo gs env i endFrame mp = cacheFramesUpTo gs env (i + 1) endFrame ?mp1"
      using True by (subst cacheFramesUpTo.simps) simp
    have IH: "pMatrixCache (cacheFramesUpTo gs env (i + 1) endFrame ?mp1) t =
     (if (\<exists>k::nat. t = i + 1 + real k) \<and> t \<le> endFrame
      then (case pMatrixCache ?mp1 t of None \<Rightarrow> Some (getPMatrixAtTime gs env t) | Some m \<Rightarrow> Some m)
      else pMatrixCache ?mp1 t)"
      using 1 True by simp
    have split: "(\<exists>k::nat. t = i + real k) \<longleftrightarrow> t = i \<or> (\<exists>k::nat. t = i + 1 + real k)"
    proof
      assume "\<exists>k::nat. t = i + real k"
      then obtain k :: nat where k: "t = i + real k" by blast
      show "t = i \<or> (\<exists>k::nat. t = i + 1 + real k)"
      proof (cases k)
        case 0
        with k show ?thesis by simp
      next
        case (Suc j)
        with k have "t = i + 1 + real j" by simp
        then show ?thesis by blast
      qed
    next
      assume "t = i \<or> (\<exists>k::nat. t = i + 1 + real k)"
      then show "\<exists>k::nat. t = i + real k"
      proof
        assume "t = i"
        then have "t = i + real 0" by simp
        then show ?thesis by blast
      next
        assume "\<exists>k::nat. t = i + 1 + real k"
        then obtain k :: nat where "t = i + 1 + real k" by blast
        then have "t = i + real (Suc k)" by simp
        then show ?thesis by blast
      qed
    qed
    show ?thesis
    proof (cases "t = i")
      case True
      then have "\<not> (\<exists>k::nat. t = i + 1 + real k)" by auto
      with IH unf split True \<open>i \<le> endFrame\<close> show ?thesis
        by (auto simp: ensureParentAndPivotMatrixAtTime_def split: option.splits)
    next
      case False
      then have "pMatrixCache ?mp1 t = pMatrixCache mp t"
        by (simp add: ensureParentAndPivotMatrixAtTime_def)
      with IH unf split False show ?thesis by simp
    qed
  qed
qed

lemma cacheFramesUpTo_only_cache:
  "cacheFramesUpTo gs env i e mp = mp\<lparr>pMatrixCache := pMatrixCache (cacheFramesUpTo gs env i e mp)\<rparr>"
proof (induction gs env i e mp rule: cacheFramesUpTo.induct)
  case (1 gs env i endFrame mp)
  show ?case
  proof (cases "i \<le> endFrame")
    case False
    then have "cacheFramesUpTo gs env i endFrame mp = mp"
      by (subst cacheFramesUpTo.simps) auto
    then show ?thesis by simp
  next
    case True
    let ?mp1 = "ensureParentAndPivotMatrixAtTime gs env i mp"
    have unf: "cacheFramesUpTo gs env i endFrame mp = cacheFramesUpTo gs env (i + 1) endFrame ?mp1"
      using True by (subst cacheFramesUpTo.simps) simp
    let ?c = "pMatrixCache (cacheFramesUpTo gs env (i + 1) endFrame ?mp1)"
    have "cacheFramesUpTo gs env (i + 1) endFrame ?mp1 = ?mp1\<lparr>pMatrixCache := ?c\<rparr>"
      using 1 True by simp
    also have "\<dots> = mp\<lparr>pMatrixCache := ?c\<rparr>"
      by (simp add: ensureParentAndPivotMatrixAtTime_def)
    finally have "cacheFramesUpTo gs env (i + 1) endFrame ?mp1 = mp\<lparr>pMatrixCache := ?c\<rparr>" .
    then show ?thesis by (simp only: unf)
  qed
qed

lemma frames_of_range:
  assumes "50 < double_to_int (e - s + 1)"
  shows "t \<in> (\<lambda>idx. s + real idx) ` {0..<nat (double_to_int (e - s + 1))} \<longleftrightarrow>
         (\<exists>k::nat. t = s + real k) \<and> t \<le> e"
proof -
  have pos: "0 \<le> e - s + 1"
    using assms by (auto simp: double_to_int_def split: if_splits)
  then have n: "double_to_int (e - s + 1) = \<lfloor>e - s\<rfloor> + 1"
    by (simp add: double_to_int_def)
  have k_iff: "k < nat (\<lfloor>e - s\<rfloor> + 1) \<longleftrightarrow> s + real k \<le> e" for k :: nat
  proof -
    have "k < nat (\<lfloor>e - s\<rfloor> + 1) \<longleftrightarrow> int k < \<lfloor>e - s\<rfloor> + 1"
      by (rule zless_nat_eq_int_zless)
    also have "\<dots> \<longleftrightarrow> int k \<le> \<lfloor>e - s\<rfloor>" by linarith
    also have "\<dots> \<longleftrightarrow> real_of_int (int k) \<le> e - s" by (rule le_floor_iff)
    also have "\<dots> \<longleftrightarrow> s + real k \<le> e" by simp linarith
    finally show ?thesis .
  qed
  show ?thesis
  proof
    assume "t \<in> (\<lambda>idx. s + real idx) ` {0..<nat (double_to_int (e - s + 1))}"
    then obtain k :: nat where k: "t = s + real k" "k < nat (\<lfloor>e - s\<rfloor> + 1)"
      unfolding n by (elim imageE) simp
    with k_iff [of k] show "(\<exists>k::nat. t = s + real k) \<and> t \<le> e" by blast
  next
    assume "(\<exists>k::nat. t = s + real k) \<and> t \<le> e"
    then obtain k :: nat where k: "t = s + real k" "t \<le> e" by blast
    with k_iff [of k] have "k \<in> {0..<nat (\<lfloor>e - s\<rfloor> + 1)}" by simp
    with k(1) show "t \<in> (\<lambda>idx. s + real idx) ` {0..<nat (double_to_int (e - s + 1))}"
      unfolding n by (rule_tac x = k in image_eqI)
  qed
qed

lemma whole_frame_exact:
  assumes "x \<in> \<int>" and "\<bar>x\<bar> \<le> 3 * 10 ^ 9"
  shows "to_double x = x"
proof -
  from assms(1) obtain n :: int where x: "x = of_int n" by (rule Ints_cases)
  from assms(2) have "real_of_int \<bar>n\<bar> \<le> real_of_int (3 * 10 ^ 9)" by (simp add: x)
  then have "\<bar>n\<bar> \<le> 3 * 10 ^ 9" by (simp only: of_int_le_iff)
  then have "\<bar>n\<bar> < 2 ^ 53" by simp
  then show ?thesis unfolding x by (rule to_double_of_int)
qed

text \<open>On whole frames of moderate size the double arithmetic of the frame keys is exact.\<close>

lemma frame_keys_exact:
  assumes s: "startFrame \<in> \<int>" and b: "\<bar>startFrame\<bar> \<le> 10 ^ 9"
    and k: "startFrame + real k \<le> 10 ^ 9"
  shows "incrementedFrame startFrame k = startFrame + real k"
    and "gatheredFrame startFrame k = startFrame + real k"
proof -
  have ex: "to_double (startFrame + real j) = startFrame + real j"
    if "startFrame + real j \<le> 10 ^ 9 + 1" for j :: nat
  proof (rule whole_frame_exact)
    show "startFrame + real j \<in> \<int>" using s by (intro Ints_add) simp_all
    have "- (10 ^ 9) \<le> startFrame + real j" using b by (simp add: abs_le_iff)
    with that show "\<bar>startFrame + real j\<bar> \<le> 3 * 10 ^ 9" by (simp add: abs_le_iff)
  qed
  show "gatheredFrame startFrame k = startFrame + real k"
    using ex [of k] k by (simp add: gatheredFrame_def add_double_def)
  show "incrementedFrame startFrame k = startFrame + real k"
    using k
  proof (induction k)
    case 0
    then show ?case by simp
  next
    case (Suc j)
    then have ih: "incrementedFrame startFrame j = startFrame + real j" by simp
    have e: "startFrame + real j + 1 = startFrame + real (Suc j)" by simp
    have "to_double (startFrame + real (Suc j)) = startFrame + real (Suc j)"
      using Suc.prems by (intro ex) simp
    then have "to_double (startFrame + real j + 1) = startFrame + real (Suc j)"
      by (simp only: e)
    then show ?case by (simp only: incrementedFrame.simps add_double_def ih)
  qed
qed

lemma frameCount_exact:
  assumes "startFrame \<in> \<int>" "endFrame \<in> \<int>"
    and "\<bar>startFrame\<bar> \<le> 10 ^ 9" "\<bar>endFrame\<bar> \<le> 10 ^ 9"
  shows "frameCount startFrame endFrame = double_to_int (endFrame - startFrame + 1)"
proof -
  have "to_double (endFrame - startFrame) = endFrame - startFrame"
    using assms by (intro whole_frame_exact Ints_diff) (simp_all add: abs_le_iff)
  moreover have "to_double (endFrame - startFrame + 1) = endFrame - startFrame + 1"
    using assms by (intro whole_frame_exact Ints_add Ints_diff) (simp_all add: abs_le_iff)
  ultimately show ?thesis
    by (simp add: frameCount_def add_double_def sub_double_def)
qed

text \<open>
  C9 (as amended). For a rebuild of more than 50 frames between whole-number frames of
  magnitude at most \<open>10 ^ 9\<close>, the frame count and the frame keys of both passes are
  exact in double arithmetic, and the three-phase pipeline stores at every frame
  \<open>startFrame + k \<le> endFrame\<close> the matrix \<open>getPMatrixAtTime\<close> computes for that frame,
  whatever entry was there before; the sequential pass stores that matrix at every such
  frame that has no entry and keeps an entry that is present. When the entries already
  present were computed from the same inputs (in particular for an empty cache, as after
  a clear), the two passes leave the same state.
\<close>

theorem rebuildThreePhase_refines_sequential:
  assumes "50 < double_to_int (endFrame - startFrame + 1)"
    and "startFrame \<in> \<int>" and "endFrame \<in> \<int>"
    and "\<bar>startFrame\<bar> \<le> 10 ^ 9" and "\<bar>endFrame\<bar> \<le> 10 ^ 9"
  shows "frameCount startFrame endFrame = double_to_int (endFrame - startFrame + 1)
       \<and> (\<forall>k::nat. startFrame + real k \<le> endFrame \<longrightarrow>
            incrementedFrame startFrame k = startFrame + real k
          \<and> gatheredFrame startFrame k = startFrame + real k
          \<and> pMatrixCache (rebuildThreePhase gs env startFrame
                (nat (double_to_int (endFrame - startFrame + 1))) mp) (startFrame + real k)
              = Some (getPMatrixAtTime gs env (startFrame + real k))
          \<and> pMatrixCache (cacheFramesUpTo gs env startFrame endFrame mp) (startFrame + real k)
              = (case pMatrixCache mp (startFrame + real k) of
                   None \<Rightarrow> Some (getPMatrixAtTime gs env (startFrame + real k))
                 | Some m \<Rightarrow> Some m))
       \<and> ((\<forall>t m. pMatrixCache mp t = Some m \<longrightarrow> m = getPMatrixAtTime gs env t) \<longrightarrow>
            rebuildThreePhase gs env startFrame
                (nat (double_to_int (endFrame - startFrame + 1))) mp
              = cacheFramesUpTo gs env startFrame endFrame mp)"
proof (intro conjI allI impI)
  show "frameCount startFrame endFrame = double_to_int (endFrame - startFrame + 1)"
    using assms(2-5) by (rule frameCount_exact)
next
  fix k :: nat
  assume k: "startFrame + real k \<le> endFrame"
  with assms(5) have k9: "startFrame + real k \<le> 10 ^ 9" by (simp add: abs_le_iff)
  from assms(2,4) k9 show "incrementedFrame startFrame k = startFrame + real k"
    by (rule frame_keys_exact(1))
  from assms(2,4) k9 show "gatheredFrame startFrame k = startFrame + real k"
    by (rule frame_keys_exact(2))
  from k show "pMatrixCache (rebuildThreePhase gs env startFrame
                (nat (double_to_int (endFrame - startFrame + 1))) mp) (startFrame + real k)
              = Some (getPMatrixAtTime gs env (startFrame + real k))"
    using frames_of_range [OF assms(1), of "startFrame + real k"]
    by (simp only: rebuildThreePhase_cache) auto
  from k show "pMatrixCache (cacheFramesUpTo gs env startFrame endFrame mp) (startFrame + real k)
              = (case pMatrixCache mp (startFrame + real k) of
                   None \<Rightarrow> Some (getPMatrixAtTime gs env (startFrame + real k))
                 | Some m \<Rightarrow> Some m)"
    by (simp only: cacheFramesUpTo_cache) auto
next
  assume coh: "\<forall>t m. pMatrixCache mp t = Some m \<longrightarrow> m = getPMatrixAtTime gs env t"
  let ?n = "nat (double_to_int (endFrame - startFrame + 1))"
  have "pMatrixCache (rebuildThreePhase gs env startFrame ?n mp) =
        pMatrixCache (cacheFramesUpTo gs env startFrame endFrame mp)"
  proof
    fix t
    show "pMatrixCache (rebuildThreePhase gs env startFrame ?n mp) t =
        pMatrixCache (cacheFramesUpTo gs env startFrame endFrame mp) t"
      using frames_of_range [OF assms(1), of t] coh
      by (simp only: rebuildThreePhase_cache cacheFramesUpTo_cache) (auto split: option.splits)
  qed
  moreover have "rebuildThreePhase gs env startFrame ?n mp =
      mp\<lparr>pMatrixCache := pMatrixCache (rebuildThreePhase gs env startFrame ?n mp)\<rparr>"
    by (simp add: rebuildThreePhase_def Let_def)
  ultimately show "rebuildThreePhase gs env startFrame ?n mp
              = cacheFramesUpTo gs env startFrame endFrame mp"
    using cacheFramesUpTo_only_cache [of gs env startFrame endFrame mp] by simp
qed

theorem rebuildThreePhase_refines_sequential_witness:
  "50 < double_to_int (50 - 0 + 1) \<and> (0::real) \<in> \<int> \<and> (50::real) \<in> \<int> \<and>
   \<bar>0::real\<bar> \<le> 10 ^ 9 \<and> \<bar>50::real\<bar> \<le> 10 ^ 9 \<and> 0 + real 7 \<le> 50 \<and>
   frameCount 0 50 = double_to_int (50 - 0 + 1) \<and>
   incrementedFrame 0 7 = 0 + real 7 \<and> gatheredFrame 0 7 = 0 + real 7 \<and>
   pMatrixCache (rebuildThreePhase pivotSettings pivotScene 0
       (nat (double_to_int (50 - 0 + 1))) ParentCache_init) (0 + real 7)
     = Some (getPMatrixAtTime pivotSettings pivotScene (0 + real 7)) \<and>
   pMatrixCache ParentCache_init (0 + real 7) = None \<and>
   pMatrixCache (cacheFramesUpTo pivotSettings pivotScene 0 50 ParentCache_init) (0 + real 7)
     = Some (getPMatrixAtTime pivotSettings pivotScene (0 + real 7)) \<and>
   rebuildThreePhase pivotSettings pivotScene 0
       (nat (double_to_int (50 - 0 + 1))) ParentCache_init
     = cacheFramesUpTo pivotSettings pivotScene 0 50 ParentCache_init"
proof -
  have h: "50 < double_to_int (50 - 0 + 1)"
    by (simp add: double_to_int_def)
  have z: "(0::real) \<in> \<int>" "(50::real) \<in> \<int>" by simp_all
  have b: "\<bar>0::real\<bar> \<le> 10 ^ 9" "\<bar>50::real\<bar> \<le> 10 ^ 9" by simp_all
  have k: "(0::real) + real 7 \<le> 50" by simp
  have e: "pMatrixCache ParentCache_init (0 + real 7) = None"
    by (simp add: ParentCache_init_def)
  have c: "\<forall>t m. pMatrixCache ParentCache_init t = Some m \<longrightarrow>
             m = getPMatrixAtTime pivotSettings pivotScene t"
    by (simp add: ParentCache_init_def)
  note r = rebuildThreePhase_refines_sequential [OF h z b, of pivotSettings pivotScene
      ParentCache_init]
  from r have fc: "frameCount 0 50 = double_to_int (50 - 0 + 1)" by blast
  from r k have ik: "incrementedFrame 0 7 = 0 + real 7" by blast
  from r k have gk: "gatheredFrame 0 7 = 0 + real 7" by blast
  from r k have "pMatrixCache (rebuildThreePhase pivotSettings pivotScene 0
       (nat (double_to_int (50 - 0 + 1))) ParentCache_init) (0 + real 7)
     = Some (getPMatrixAtTime pivotSettings pivotScene (0 + real 7))"
    by blast
  moreover from r k have "pMatrixCache (cacheFramesUpTo pivotSettings pivotScene 0 50
       ParentCache_init) (0 + real 7)
     = (case pMatrixCache ParentCache_init (0 + real 7) of
          None \<Rightarrow> Some (getPMatrixAtTime pivotSettings pivotScene (0 + real 7))
        | Some m \<Rightarrow> Some m)"
    by blast
  then have "pMatrixCache (cacheFramesUpTo pivotSettings pivotScene 0 50
       ParentCache_init) (0 + real 7)
     = Some (getPMatrixAtTime pivotSettings pivotScene (0 + real 7))"
    by (simp only: e option.case)
  moreover from r c have "rebuildThreePhase pivotSettings pivotScene 0
       (nat (double_to_int (50 - 0 + 1))) ParentCache_init
     = cacheFramesUpTo pivotSettings pivotScene 0 50 ParentCache_init"
    by blast
  ultimately show ?thesis using h z b k e fc ik gk by blast
qed

lemma stale_entry:
  "pMatrixCache staleState 7 = Some (getPMatrixAtTime exampleSettings pivotScene 7)"
  by (simp add: staleState_def ensureParentAndPivotMatrixAtTime_def ParentCache_init_def)

lemma stale_invalid: "\<not> pMatrixCacheValid staleState"
  by (simp add: staleState_def ensureParentAndPivotMatrixAtTime_def ParentCache_init_def)

lemma frame_7_in_range: "(\<exists>k::nat. (7::real) = 0 + real k) \<and> (7::real) \<le> 50"
proof -
  have "(7::real) = 0 + real 7" by simp
  then show ?thesis by (intro conjI exI [of _ 7]) simp_all
qed

lemma pivots_differ:
  "getPMatrixAtTime pivotSettings pivotScene 7 \<noteq> getPMatrixAtTime exampleSettings pivotScene 7"
  by (simp add: getPMatrixAtTime_def pivotSettings_def exampleSettings_def pivotScene_def
      setRow3_def MMatrix_identity_def mat_mult_def Let_def)

lemma third_nearest: "to_double (1 / 3) = nearestThird"
  unfolding to_double_def nearestThird_def
  by (subst round_binary_eval [where e = "- 2"]) (simp_all add: round_even_def Let_def)

lemma third_plus_1:
  "to_double (24019198012642645 / 18014398509481984) = 6004799503160661 / 4503599627370496"
  unfolding to_double_def
  by (subst round_binary_eval [where e = "0"]) (simp_all add: round_even_def Let_def)

lemma third_plus_1_plus_1:
  "to_double (10508399130531157 / 4503599627370496) = 2627099782632789 / 1125899906842624"
  unfolding to_double_def
  by (subst round_binary_eval [where e = "1"]) (simp_all add: round_even_def Let_def)

lemma third_plus_2:
  "to_double (42033596522124629 / 18014398509481984) = 5254199565265579 / 2251799813685248"
  unfolding to_double_def
  by (subst round_binary_eval [where e = "1"]) (simp_all add: round_even_def Let_def)

lemma third_incremented:
  "incrementedFrame nearestThird 2 = 2627099782632789 / 1125899906842624"
  by (simp add: numeral_2_eq_2 add_double_def nearestThird_def third_plus_1 third_plus_1_plus_1)

lemma third_gathered:
  "gatheredFrame nearestThird 2 = 5254199565265579 / 2251799813685248"
  by (simp add: gatheredFrame_def add_double_def nearestThird_def third_plus_2)

text \<open>
  C9 (counterexample). Frame 7 of a fresh track was cached while pivots were off; pivots are
  then turned on and the range \<open>[0, 50]\<close> is rebuilt (the cache was never valid). The
  three-phase pass overwrites frame 7 with the matrix of the current inputs, the
  sequential pass keeps the entry it finds: a build with \<open>_OPENMP\<close> and one without
  leave different matrices at frame 7. And for a start frame that is no whole number, here
  the double nearest to one third, the two passes do not even store under the same keys:
  two increments give a double one unit in the last place below the one that
  \<open>startFrame + 2\<close> gives.
\<close>

theorem rebuildThreePhase_overwrites_stale_counterexample:
  "\<not> pMatrixCacheValid staleState \<and> 50 < double_to_int (50 - 0 + 1) \<and>
   pMatrixCache staleState 7 = Some (getPMatrixAtTime exampleSettings pivotScene 7) \<and>
   pMatrixCache (rebuildThreePhase pivotSettings pivotScene 0
       (nat (double_to_int (50 - 0 + 1))) staleState) 7
     = Some (getPMatrixAtTime pivotSettings pivotScene 7) \<and>
   pMatrixCache (cacheFramesUpTo pivotSettings pivotScene 0 50 staleState) 7
     = Some (getPMatrixAtTime exampleSettings pivotScene 7) \<and>
   getPMatrixAtTime pivotSettings pivotScene 7 \<noteq> getPMatrixAtTime exampleSettings pivotScene 7 \<and>
   pMatrixCache (cacheParentMatrixRange pivotSettings pivotScene 0 50 staleState) 7
     = Some (getPMatrixAtTime pivotSettings pivotScene 7) \<and>
   pMatrixCache (cacheParentMatrixRange (pivotSettings\<lparr>useOpenMP := False\<rparr>) pivotScene 0 50
       staleState) 7
     = Some (getPMatrixAtTime exampleSettings pivotScene 7) \<and>
   to_double (1 / 3) = nearestThird \<and>
   incrementedFrame nearestThird 2 = 2627099782632789 / 1125899906842624 \<and>
   gatheredFrame nearestThird 2 = 5254199565265579 / 2251799813685248 \<and>
   incrementedFrame nearestThird 2 < gatheredFrame nearestThird 2"
proof -
  have lt: "incrementedFrame nearestThird 2 < gatheredFrame nearestThird 2"
    by (simp add: third_incremented third_gathered)
  have h: "50 < double_to_int (50 - 0 + 1)"
    by (simp add: double_to_int_def)
  have three: "pMatrixCache (rebuildThreePhase pivotSettings pivotScene 0
       (nat (double_to_int (50 - 0 + 1))) staleState) 7
     = Some (getPMatrixAtTime pivotSettings pivotScene 7)"
  proof -
    have "(7::real) \<in> (\<lambda>idx. 0 + real idx) ` {0..<nat (double_to_int (50 - 0 + 1))}"
      using frames_of_range [OF h, of 7] frame_7_in_range by blast
    then show ?thesis by (simp only: rebuildThreePhase_cache if_True)
  qed
  have seq: "pMatrixCache (cacheFramesUpTo gs pivotScene 0 50 staleState) 7
     = Some (getPMatrixAtTime exampleSettings pivotScene 7)" for gs
    by (simp only: cacheFramesUpTo_cache frame_7_in_range simp_thms if_True stale_entry
        option.case)
  have omp: "useOpenMP pivotSettings" "\<not> useOpenMP (pivotSettings\<lparr>useOpenMP := False\<rparr>)"
    by (simp_all add: pivotSettings_def exampleSettings_def)
  have same: "getPMatrixAtTime (pivotSettings\<lparr>useOpenMP := False\<rparr>) pivotScene t
      = getPMatrixAtTime pivotSettings pivotScene t" for t
    by (simp add: getPMatrixAtTime_def)
  have r1: "pMatrixCache (cacheParentMatrixRange pivotSettings pivotScene 0 50 staleState) 7
     = Some (getPMatrixAtTime pivotSettings pivotScene 7)"
    using stale_invalid h omp(1) three
    by (simp add: cacheParentMatrixRange_def Let_def)
  have r2: "pMatrixCache (cacheParentMatrixRange (pivotSettings\<lparr>useOpenMP := False\<rparr>) pivotScene
       0 50 staleState) 7
     = Some (getPMatrixAtTime exampleSettings pivotScene 7)"
    using stale_invalid seq [of "pivotSettings\<lparr>useOpenMP := False\<rparr>"]
    by (simp add: cacheParentMatrixRange_def Let_def)
  from stale_invalid h stale_entry three seq [of pivotSettings] pivots_differ r1 r2
    third_nearest third_incremented third_gathered lt
  show ?thesis by blast
qed

section \<open>Properties of the stroke fitter\<close>


















lemma sqrt_100: "sqrt 100 = 10"
  using real_sqrt_abs [of 10] by simp












lemma straight_lengths: "strokeLengths straightStroke = (20, [10, 10, 0])"
  unfolding strokeLengths_def straightStroke_def Let_def
  by (simp add: upt_rec numeral_3_eq_3 MVector_length_def MVector_minus_def sqrt_100)

text \<open>
  C6 (the code at the failing input). On the straight stroke through x = 0, 10, 20, 30 the
  stroke length leaves out the last segment (20 instead of 30), and for four keys the
  second one, whose target length 10 falls on a stroke point, is placed at x = -10, before
  the start of the stroke: the positions are 5, -10, 15, 30.
\<close>

theorem getSpreadPointOnPolyLine_off_polyline:
  "strokeLengths straightStroke = (20, [10, 10, 0]) \<and>
   getSpreadPointOnPolyLine straightStroke 0 4 20 [10, 10, 0] = Value (MVector 5 0 0) \<and>
   getSpreadPointOnPolyLine straightStroke 1 4 20 [10, 10, 0] = Value (MVector (- 10) 0 0) \<and>
   getSpreadPointOnPolyLine straightStroke 2 4 20 [10, 10, 0] = Value (MVector 15 0 0) \<and>
   getSpreadPointOnPolyLine straightStroke 3 4 20 [10, 10, 0] = Value (MVector 30 0 0)"
  using straight_lengths
  by (simp add: getSpreadPointOnPolyLine_def straightStroke_def
      spreadWalk.simps MVector_plus_def MVector_scale_def Let_def)














lemma hook_place:
  "placeStrokeKeys exampleSettings middleKeyView hookStroke 1 40 [40, 0] 0
     [strokeCacheAt middleKeyView 3] [DeleteKeyFrameAtTime 3]
   = Value [DeleteKeyFrameAtTime 3, AddKeyFrameAtTime 3 (MVector 6 (- 32) 0)]"
  by (simp add: exampleSettings_def getSpreadPointOnPolyLine_def hookStroke_def
      strokeCacheAt_def middleKeyView_def)





section \<open>Properties of adding a key and of the tangent conversion\<close>

lemma affine_component:
  fixes D :: real
  assumes D: "D \<noteq> 0"
    and r0: "n00 * a0 + n01 * a1 + n02 * a2 = e0 * D"
    and r1: "n10 * a0 + n11 * a1 + n12 * a2 = e1 * D"
    and r2: "n20 * a0 + n21 * a1 + n22 * a2 = e2 * D"
    and r3: "n30 * a0 + n31 * a1 + n32 * a2 = - a3 * D"
  shows "(px * (n00 / D) + py * (n10 / D) + pz * (n20 / D) + n30 / D) * a0
       + (px * (n01 / D) + py * (n11 / D) + pz * (n21 / D) + n31 / D) * a1
       + (px * (n02 / D) + py * (n12 / D) + pz * (n22 / D) + n32 / D) * a2 + a3
       = px * e0 + py * e1 + pz * e2"
proof -
  have "(px * (n00 / D) + py * (n10 / D) + pz * (n20 / D) + n30 / D) * a0
       + (px * (n01 / D) + py * (n11 / D) + pz * (n21 / D) + n31 / D) * a1
       + (px * (n02 / D) + py * (n12 / D) + pz * (n22 / D) + n32 / D) * a2 + a3
     = (px * (n00 * a0 + n01 * a1 + n02 * a2) + py * (n10 * a0 + n11 * a1 + n12 * a2)
        + pz * (n20 * a0 + n21 * a1 + n22 * a2) + (n30 * a0 + n31 * a1 + n32 * a2)) / D + a3"
    by (simp add: divide_inverse algebra_simps)
  also have "\<dots> = (px * (e0 * D) + py * (e1 * D) + pz * (e2 * D) + (- a3 * D)) / D + a3"
    by (simp only: r0 r1 r2 r3)
  also have "\<dots> = px * e0 + py * e1 + pz * e2"
    using D by (simp add: field_simps)
  finally show ?thesis .
qed

lemma affine_inverse_roundtrip:
  assumes a: "m03 M = 0" "m13 M = 0" "m23 M = 0" "m33 M = 1"
    and d: "MMatrix_det M \<noteq> 0"
  shows "multPosByParentMatrix (multPosByParentMatrix p (MMatrix_inverse M)) M = p"
proof -
  obtain a00 a01 a02 a03 a10 a11 a12 a13 a20 a21 a22 a23 a30 a31 a32 a33
    where M: "M = MMatrix a00 a01 a02 a03 a10 a11 a12 a13 a20 a21 a22 a23 a30 a31 a32 a33"
    by (cases M)
  obtain px py pz where p: "p = MVector px py pz" by (cases p)
  from a M have z: "a03 = 0" "a13 = 0" "a23 = 0" "a33 = 1" by simp_all
  define D where "D = MMatrix_det M"
  define n00 where "n00 = a11 * a22 - a12 * a21"
  define n01 where "n01 = a02 * a21 - a01 * a22"
  define n02 where "n02 = a01 * a12 - a11 * a02"
  define n10 where "n10 = a12 * a20 - a10 * a22"
  define n11 where "n11 = a00 * a22 - a02 * a20"
  define n12 where "n12 = a10 * a02 - a00 * a12"
  define n20 where "n20 = a10 * a21 - a11 * a20"
  define n21 where "n21 = a01 * a20 - a00 * a21"
  define n22 where "n22 = a00 * a11 - a10 * a01"
  define n30 where "n30 = - a10 * (a21 * a32 - a31 * a22) + a11 * (a20 * a32 - a30 * a22)
                          - a12 * (a20 * a31 - a30 * a21)"
  define n31 where "n31 = a00 * (a21 * a32 - a31 * a22) - a01 * (a20 * a32 - a30 * a22)
                          + a02 * (a20 * a31 - a30 * a21)"
  define n32 where "n32 = - a30 * (a01 * a12 - a11 * a02) + a31 * (a00 * a12 - a10 * a02)
                          - a32 * (a00 * a11 - a10 * a01)"
  note n = n00_def n01_def n02_def n10_def n11_def n12_def n20_def n21_def n22_def
    n30_def n31_def n32_def
  have D0: "D \<noteq> 0" using d by (simp add: D_def)
  have Dv: "D = (a00 * a11 - a10 * a01) * a22 - (a00 * a12 - a10 * a02) * a21
                + (a01 * a12 - a11 * a02) * a20"
    by (simp add: D_def MMatrix_det_def M z)
  have sel: "m00 (MMatrix_inverse M) = n00 / D" "m01 (MMatrix_inverse M) = n01 / D"
    "m02 (MMatrix_inverse M) = n02 / D" "m10 (MMatrix_inverse M) = n10 / D"
    "m11 (MMatrix_inverse M) = n11 / D" "m12 (MMatrix_inverse M) = n12 / D"
    "m20 (MMatrix_inverse M) = n20 / D" "m21 (MMatrix_inverse M) = n21 / D"
    "m22 (MMatrix_inverse M) = n22 / D" "m30 (MMatrix_inverse M) = n30 / D"
    "m31 (MMatrix_inverse M) = n31 / D" "m32 (MMatrix_inverse M) = n32 / D"
    unfolding MMatrix_inverse_def Let_def D_def [symmetric]
    by (simp_all add: M z n)
  have c0: "n00 * a00 + n01 * a10 + n02 * a20 = 1 * D" "n10 * a00 + n11 * a10 + n12 * a20 = 0 * D"
    "n20 * a00 + n21 * a10 + n22 * a20 = 0 * D" "n30 * a00 + n31 * a10 + n32 * a20 = - a30 * D"
    by (simp_all add: n Dv algebra_simps)
  have c1: "n00 * a01 + n01 * a11 + n02 * a21 = 0 * D" "n10 * a01 + n11 * a11 + n12 * a21 = 1 * D"
    "n20 * a01 + n21 * a11 + n22 * a21 = 0 * D" "n30 * a01 + n31 * a11 + n32 * a21 = - a31 * D"
    by (simp_all add: n Dv algebra_simps)
  have c2: "n00 * a02 + n01 * a12 + n02 * a22 = 0 * D" "n10 * a02 + n11 * a12 + n12 * a22 = 0 * D"
    "n20 * a02 + n21 * a12 + n22 * a22 = 1 * D" "n30 * a02 + n31 * a12 + n32 * a22 = - a32 * D"
    by (simp_all add: n Dv algebra_simps)
  have "vx (multPosByParentMatrix (multPosByParentMatrix p (MMatrix_inverse M)) M) = px"
    using affine_component [OF D0 c0, of px py pz]
    by (simp add: multPosByParentMatrix_def MVector_times_MMatrix_def Let_def sel p)
       (simp add: M)
  moreover have "vy (multPosByParentMatrix (multPosByParentMatrix p (MMatrix_inverse M)) M) = py"
    using affine_component [OF D0 c1, of px py pz]
    by (simp add: multPosByParentMatrix_def MVector_times_MMatrix_def Let_def sel p)
       (simp add: M)
  moreover have "vz (multPosByParentMatrix (multPosByParentMatrix p (MMatrix_inverse M)) M) = pz"
    using affine_component [OF D0 c2, of px py pz]
    by (simp add: multPosByParentMatrix_def MVector_times_MMatrix_def Let_def sel p)
       (simp add: M)
  ultimately show ?thesis
    by (simp add: p MVector.expand)
qed

lemma writeAxis_sel [simp]:
  "writtenAxis (writeAxis axis keyId t v) = axis" "writtenValue (writeAxis axis keyId t v) = v"
  by (simp_all add: writeAxis_def)

text \<open>
  C10 (as amended). Called with a world position \<open>p\<close>, \<open>addKeyFrameAtTime\<close> writes to the
  X, Y and Z translation curves the components of \<open>l\<close>, the position transformed by the
  inverse of the cached parent matrix \<open>M\<close> at that time. For an affine \<open>M\<close> with non-zero
  determinant, applying \<open>M\<close> to \<open>l\<close> gives back \<open>p\<close> in exact arithmetic; the doubles of
  the program give it back up to the rounding of the operations.
\<close>

theorem addKeyFrameAtTime_recovers_world_position:
  assumes M: "M = pMatrixAt (ensureParentAndPivotMatrixAtTime gs env t mp) t"
    and l: "l = multPosByParentMatrix p (MMatrix_inverse M)"
    and a: "m03 M = 0 \<and> m13 M = 0 \<and> m23 M = 0 \<and> m33 M = 1"
    and d: "MMatrix_det M \<noteq> 0"
  shows "map writtenAxis (snd (addKeyFrameAtTime gs env t (Some p) useCache mp))
           = [kAxisX, kAxisY, kAxisZ] \<and>
         map writtenValue (snd (addKeyFrameAtTime gs env t (Some p) useCache mp))
           = [vx l, vy l, vz l] \<and>
         multPosByParentMatrix l M = p"
proof -
  have "multPosByParentMatrix l M = p"
    unfolding l using a d by (intro affine_inverse_roundtrip) simp_all
  moreover have "map writtenAxis (snd (addKeyFrameAtTime gs env t (Some p) useCache mp))
           = [kAxisX, kAxisY, kAxisZ]"
    by (simp add: addKeyFrameAtTime_def addKeyFramePos_def Let_def split: option.splits)
  moreover have "map writtenValue (snd (addKeyFrameAtTime gs env t (Some p) useCache mp))
           = [vx l, vy l, vz l]"
    by (simp add: addKeyFrameAtTime_def addKeyFramePos_def Let_def l M split: option.splits)
  ultimately show ?thesis by blast
qed

lemma example_matrix:
  "pMatrixAt (ensureParentAndPivotMatrixAtTime exampleSettings pivotScene 5 exampleTrack) 5
     = MMatrix 1 0 0 0  0 1 0 0  0 0 1 0  5 0 0 1"
  by (simp add: pMatrixAt_def ensureParentAndPivotMatrixAtTime_def exampleTrack_def
      getPMatrixAtTime_def exampleSettings_def pivotScene_def setRow3_def MMatrix_identity_def)

theorem addKeyFrameAtTime_recovers_world_position_witness:
  "MMatrix_det (MMatrix 1 0 0 0  0 1 0 0  0 0 1 0  5 0 0 1) \<noteq> 0 \<and>
   map writtenAxis (snd (addKeyFrameAtTime exampleSettings pivotScene 5 (Some (MVector 1 2 3))
       False exampleTrack)) = [kAxisX, kAxisY, kAxisZ] \<and>
   map writtenValue (snd (addKeyFrameAtTime exampleSettings pivotScene 5 (Some (MVector 1 2 3))
       False exampleTrack)) = [- 4, 2, 3] \<and>
   multPosByParentMatrix (MVector (- 4) 2 3) (MMatrix 1 0 0 0  0 1 0 0  0 0 1 0  5 0 0 1)
     = MVector 1 2 3"
proof -
  let ?M = "MMatrix 1 0 0 0  0 1 0 0  0 0 1 0  5 0 0 1"
  have d: "MMatrix_det ?M \<noteq> 0" by (simp add: MMatrix_det_def)
  have a: "m03 ?M = 0 \<and> m13 ?M = 0 \<and> m23 ?M = 0 \<and> m33 ?M = 1" by simp
  have l: "MVector (- 4) 2 3 = multPosByParentMatrix (MVector 1 2 3) (MMatrix_inverse ?M)"
    by (simp add: multPosByParentMatrix_def MMatrix_inverse_def MMatrix_det_def
        MVector_times_MMatrix_def Let_def)
  from addKeyFrameAtTime_recovers_world_position [OF example_matrix [symmetric] l a d, of False] d
  show ?thesis by simp
qed

lemma collapsed_matrix:
  "pMatrixAt (ensureParentAndPivotMatrixAtTime exampleSettings collapsedScene 5 exampleTrack) 5
     = collapsedMatrix"
  by (simp add: pMatrixAt_def ensureParentAndPivotMatrixAtTime_def exampleTrack_def
      getPMatrixAtTime_def exampleSettings_def collapsedScene_def)

lemma collapsed_image: "multPosByParentMatrix l collapsedMatrix = MVector 5 0 0"
  by (simp add: multPosByParentMatrix_def MVector_times_MMatrix_def collapsedMatrix_def Let_def)

lemma seven_thirds:
  "to_double (42033596522124627 / 18014398509481984) = 2627099782632789 / 1125899906842624"
  unfolding to_double_def
  by (subst round_binary_eval [where e = "1"]) (simp_all add: round_even_def Let_def)

lemma below_seven:
  "to_double (7881299347898367 / 1125899906842624) = 7881299347898367 / 1125899906842624"
  unfolding to_double_def
  by (subst round_binary_eval [where e = "2"]) (simp_all add: round_even_def Let_def)

lemma seven_comes_back_less:
  "mul_double (mul_double 7 (div_double 1 3)) 3 = 7881299347898367 / 1125899906842624"
  by (simp add: mul_double_def div_double_def third_nearest nearestThird_def seven_thirds
      below_seven)

text \<open>
  C10 (counterexample). Under a parent scaled to zero the cached parent matrix is affine
  with determinant zero. Every local position is mapped to the parent's own position
  \<open>(5, 0, 0)\<close>, so whatever \<open>inverse()\<close> returns and whatever is written to the curves,
  applying the parent matrix does not give back the requested position \<open>(1, 2, 3)\<close>.
  And in double arithmetic an invertible parent need not give the position back bit for
  bit either: under a parent scaled by 3 the inverse has \<open>1./3\<close> on its diagonal, and the
  coordinate 7 comes back as \<open>7 * (1./3) * 3\<close>, one unit in the last place below 7.
\<close>

theorem addKeyFrameAtTime_singular_parent_counterexample:
  "pMatrixAt (ensureParentAndPivotMatrixAtTime exampleSettings collapsedScene 5 exampleTrack) 5
     = collapsedMatrix \<and>
   m03 collapsedMatrix = 0 \<and> m13 collapsedMatrix = 0 \<and> m23 collapsedMatrix = 0 \<and>
   m33 collapsedMatrix = 1 \<and> MMatrix_det collapsedMatrix = 0 \<and>
   map writtenAxis (snd (addKeyFrameAtTime exampleSettings collapsedScene 5
       (Some (MVector 1 2 3)) False exampleTrack)) = [kAxisX, kAxisY, kAxisZ] \<and>
   multPosByParentMatrix
     (multPosByParentMatrix (MVector 1 2 3) (MMatrix_inverse collapsedMatrix)) collapsedMatrix
     \<noteq> MVector 1 2 3 \<and>
   (\<forall>l. multPosByParentMatrix l collapsedMatrix \<noteq> MVector 1 2 3) \<and>
   mul_double (mul_double 7 (div_double 1 3)) 3 = 7881299347898367 / 1125899906842624 \<and>
   (7881299347898367 / 1125899906842624 :: real) < 7"
proof -
  have lt: "(7881299347898367 / 1125899906842624 :: real) < 7" by simp
  have a: "m03 collapsedMatrix = 0" "m13 collapsedMatrix = 0" "m23 collapsedMatrix = 0"
      "m33 collapsedMatrix = 1"
    by (simp_all add: collapsedMatrix_def)
  have d: "MMatrix_det collapsedMatrix = 0"
    by (simp add: MMatrix_det_def collapsedMatrix_def)
  have w: "map writtenAxis (snd (addKeyFrameAtTime exampleSettings collapsedScene 5
       (Some (MVector 1 2 3)) False exampleTrack)) = [kAxisX, kAxisY, kAxisZ]"
    by (simp add: addKeyFrameAtTime_def addKeyFramePos_def Let_def split: option.splits)
  have n: "multPosByParentMatrix l collapsedMatrix \<noteq> MVector 1 2 3" for l
    by (simp add: collapsed_image)
  have m: "multPosByParentMatrix
     (multPosByParentMatrix (MVector 1 2 3) (MMatrix_inverse collapsedMatrix)) collapsedMatrix
     \<noteq> MVector 1 2 3"
    by (rule n)
  from collapsed_matrix a d w m n seven_comes_back_less lt show ?thesis by blast
qed

lemma tangentVal_nonweighted:
  assumes "\<not> curveIsWeighted curve"
    and "getTangent curve k (tangentName = kInTangent) = Some (angle, w)"
  shows "tangentVal curve k tangentName = tan angle * w"
  using assms by (simp add: tangentVal_def)

lemma tangentVal_weighted:
  assumes "curveIsWeighted curve"
    and "getTangent curve k (tangentName = kInTangent) = Some (x, y)"
  shows "tangentVal curve k tangentName = y / 3"
  using assms by (simp add: tangentVal_def)

lemma getTangent_setTangent:
  assumes "k < numKeys curve"
  shows "getTangent (setTangent curve k tg isIn) k isIn = Some tg"
  using assms by (simp add: getTangent_def setTangent_def numKeys_def)

lemma findKey_bound: "findKey ks t = Some i \<Longrightarrow> i < length ks"
  by (induction ks arbitrary: i) (auto split: if_splits option.splits)

lemma arctan_le_self:
  assumes "0 \<le> x"
  shows "arctan x \<le> x"
proof -
  have "(\<lambda>s. s - arctan s) 0 \<le> (\<lambda>s. s - arctan s) x"
  proof (rule DERIV_nonneg_imp_nondecreasing [OF assms])
    fix y :: real
    have "((\<lambda>s. s - arctan s) has_real_derivative (1 - inverse (1 + y\<^sup>2))) (at y)"
      by (auto intro!: derivative_eq_intros)
    moreover have "inverse (1 + y\<^sup>2) \<le> 1"
      by (simp add: inverse_le_1_iff)
    ultimately show "\<exists>d. ((\<lambda>s. s - arctan s) has_real_derivative d) (at y) \<and> 0 \<le> d"
      by (intro exI [of _ "1 - inverse (1 + y\<^sup>2)"]) simp
  qed
  then show ?thesis by simp
qed

lemma abs_arctan_le: "\<bar>arctan x\<bar> \<le> \<bar>x\<bar>"
proof (cases "0 \<le> x")
  case True
  then show ?thesis using arctan_le_self [of x] by simp
next
  case False
  then have "0 \<le> - x" by simp
  from arctan_le_self [OF this] False show ?thesis
    by (simp add: arctan_minus abs_if)
qed

lemma arctan_diff:
  assumes "0 \<le> x * y"
  shows "arctan x - arctan y = arctan ((x - y) / (1 + x * y))"
proof -
  let ?A = "arctan x" and ?B = "arctan y"
  have bA: "- (pi / 2) < ?A" "?A < pi / 2" by (rule arctan_lbound, rule arctan_ubound)
  have bB: "- (pi / 2) < ?B" "?B < pi / 2" by (rule arctan_lbound, rule arctan_ubound)
  from assms have "(0 \<le> x \<and> 0 \<le> y) \<or> (x \<le> 0 \<and> y \<le> 0)"
    by (simp add: zero_le_mult_iff)
  then have "(0 \<le> ?A \<and> 0 \<le> ?B) \<or> (?A \<le> 0 \<and> ?B \<le> 0)"
    by (simp add: zero_le_arctan_iff arctan_le_zero_iff)
  with bA bB have r: "- (pi / 2) < ?A - ?B" "?A - ?B < pi / 2" by linarith+
  have cA: "cos ?A \<noteq> 0" using cos_gt_zero_pi [OF bA] by simp
  have cB: "cos ?B \<noteq> 0" using cos_gt_zero_pi [OF bB] by simp
  have cD: "cos (?A - ?B) \<noteq> 0" using cos_gt_zero_pi [OF r] by simp
  have "tan (?A - ?B) = (x - y) / (1 + x * y)"
    using tan_diff [OF cA cB cD] by (simp add: tan_arctan)
  then have "arctan ((x - y) / (1 + x * y)) = arctan (tan (?A - ?B))" by simp
  also have "\<dots> = ?A - ?B" by (rule arctan_tan [OF r])
  finally show ?thesis by simp
qed

lemma arctan_diff_bound:
  assumes "0 \<le> x * y"
  shows "\<bar>arctan x - arctan y\<bar> \<le> \<bar>x - y\<bar> / (1 + x * y)"
proof -
  have "\<bar>arctan x - arctan y\<bar> = \<bar>arctan ((x - y) / (1 + x * y))\<bar>"
    by (simp only: arctan_diff [OF assms])
  also have "\<dots> \<le> \<bar>(x - y) / (1 + x * y)\<bar>" by (rule abs_arctan_le)
  also have "\<dots> = \<bar>x - y\<bar> / (1 + x * y)" using assms by simp
  finally show ?thesis .
qed

lemma arctan_large:
  assumes "0 < M" "M \<le> x"
  shows "pi / 2 - arctan x \<le> 1 / M" "0 < pi / 2 - arctan x"
proof -
  have x: "0 < x" using assms by linarith
  then have "arctan (1 / x) = pi / 2 - arctan x"
    using arctan_inverse [of x] by simp
  moreover have "arctan (1 / x) \<le> 1 / x" using x by (intro arctan_le_self) simp
  moreover have "1 / x \<le> 1 / M" using assms by (simp add: frac_le)
  ultimately show "pi / 2 - arctan x \<le> 1 / M" by linarith
  show "0 < pi / 2 - arctan x" using arctan_ubound [of x] by simp
qed

lemma near_right_angle:
  fixes v :: real
  assumes "2 ^ 100 \<le> v"
  shows "\<bar>pi / 2 - arctan v\<bar> \<le> 1 / 1000000"
proof -
  have "pi / 2 - arctan v \<le> 1 / 2 ^ 100" "0 < pi / 2 - arctan v"
    using arctan_large [of "2 ^ 100" v] assms by simp_all
  moreover have "(1::real) / 2 ^ 100 \<le> 1 / 1000000" by simp
  ultimately show ?thesis by linarith
qed

text \<open>
  The angle written for the value \<open>tan angle * w\<close> narrowed to float, when
  \<open>w * w = 1\<close>: within \<open>10 ^ - 6\<close> of the angle, and of its negation when the value is
  negated first.
\<close>

lemma narrowed_roundtrip:
  assumes w: "w * w = 1" and r: "- (pi / 2) < angle" "angle < pi / 2"
  shows "(\<exists>a. atan_of_product (to_float (tan angle * w)) w = Value a
             \<and> \<bar>a - angle\<bar> \<le> 1 / 1000000)
       \<and> (\<exists>a. atan_of_product (Float_negate (to_float (tan angle * w))) w = Value a
             \<and> \<bar>a - (- angle)\<bar> \<le> 1 / 1000000)"
proof -
  define v where "v = tan angle * w"
  have w1: "w = 1 \<or> w = - 1" using w by (simp add: square_eq_1_iff [symmetric] power2_eq_square)
  have "v * w = tan angle * (w * w)" by (simp add: v_def)
  then have vw: "v * w = tan angle" by (simp add: w)
  have ang: "arctan (v * w) = angle" unfolding vw by (rule arctan_tan [OF r])
  have both: "(\<exists>a. atan_of_product (to_float v) w = Value a \<and> \<bar>a - angle\<bar> \<le> 1 / 1000000)
      \<and> (\<exists>a. atan_of_product (Float_negate (to_float v)) w = Value a
             \<and> \<bar>a - (- angle)\<bar> \<le> 1 / 1000000)"
  proof (cases v rule: to_float_cases)
    case finite
    define R where "R = round_binary 24 (- 126) v"
    have prod: "(R * w) * (v * w) = R * v"
    proof -
      have "(R * w) * (v * w) = (R * v) * (w * w)" by (simp add: algebra_simps)
      then show ?thesis by (simp add: w)
    qed
    have "0 \<le> R * v" unfolding R_def by (rule narrowed_sign)
    then have nn: "0 \<le> (R * w) * (v * w)" by (simp only: prod)
    have "\<bar>R * w - v * w\<bar> = \<bar>R - v\<bar> * \<bar>w\<bar>"
      by (simp add: abs_mult [symmetric] algebra_simps)
    also have "\<bar>w\<bar> = 1" using w1 by auto
    finally have num: "\<bar>R * w - v * w\<bar> = \<bar>R - v\<bar>" by simp
    have "\<bar>arctan (R * w) - arctan (v * w)\<bar> \<le> \<bar>R * w - v * w\<bar> / (1 + (R * w) * (v * w))"
      by (rule arctan_diff_bound [OF nn])
    also have "\<dots> = \<bar>R - v\<bar> / (1 + R * v)" by (simp only: num prod)
    also have "\<dots> \<le> 1 / 2 ^ 24" by (rule narrowed_error) (simp add: R_def)
    also have "\<dots> \<le> 1 / 1000000" by simp
    finally have close: "\<bar>arctan (R * w) - angle\<bar> \<le> 1 / 1000000" by (simp only: ang)
    have "atan_of_product (to_float v) w = Value (arctan (R * w))"
      by (simp add: finite R_def)
    moreover have "atan_of_product (Float_negate (to_float v)) w = Value (- arctan (R * w))"
      by (simp add: finite R_def arctan_minus)
    moreover have "\<bar>- arctan (R * w) - (- angle)\<bar> \<le> 1 / 1000000"
      using close by linarith
    ultimately show ?thesis using close by blast
  next
    case plus
    from near_right_angle [OF plus(2)] have n: "\<bar>pi / 2 - arctan v\<bar> \<le> 1 / 1000000" .
    from w1 show ?thesis
    proof
      assume w: "w = 1"
      with ang have "arctan v = angle" by simp
      with n have b1: "\<bar>pi / 2 - angle\<bar> \<le> 1 / 1000000" by (simp only:)
      then have b2: "\<bar>- (pi / 2) - (- angle)\<bar> \<le> 1 / 1000000" by linarith
      have a1: "atan_of_product (to_float v) w = Value (pi / 2)" by (simp add: plus(1) w)
      have a2: "atan_of_product (Float_negate (to_float v)) w = Value (- (pi / 2))"
        by (simp add: plus(1) w)
      from a1 a2 b1 b2 show ?thesis by blast
    next
      assume w: "w = - 1"
      with ang have "- arctan v = angle" by (simp add: arctan_minus)
      with n have b1: "\<bar>- (pi / 2) - angle\<bar> \<le> 1 / 1000000" by linarith
      then have b2: "\<bar>pi / 2 - (- angle)\<bar> \<le> 1 / 1000000" by linarith
      have a1: "atan_of_product (to_float v) w = Value (- (pi / 2))" by (simp add: plus(1) w)
      have a2: "atan_of_product (Float_negate (to_float v)) w = Value (pi / 2)"
        by (simp add: plus(1) w)
      from a1 a2 b1 b2 show ?thesis by blast
    qed
  next
    case minus
    then have "2 ^ 100 \<le> - v" by simp
    from near_right_angle [OF this] have n: "\<bar>pi / 2 + arctan v\<bar> \<le> 1 / 1000000"
      by (simp add: arctan_minus)
    from w1 show ?thesis
    proof
      assume w: "w = 1"
      with ang have "arctan v = angle" by simp
      with n have b1: "\<bar>- (pi / 2) - angle\<bar> \<le> 1 / 1000000" by linarith
      then have b2: "\<bar>pi / 2 - (- angle)\<bar> \<le> 1 / 1000000" by linarith
      have a1: "atan_of_product (to_float v) w = Value (- (pi / 2))" by (simp add: minus(1) w)
      have a2: "atan_of_product (Float_negate (to_float v)) w = Value (pi / 2)"
        by (simp add: minus(1) w)
      from a1 a2 b1 b2 show ?thesis by blast
    next
      assume w: "w = - 1"
      with ang have "- arctan v = angle" by (simp add: arctan_minus)
      with n have b1: "\<bar>pi / 2 - angle\<bar> \<le> 1 / 1000000" by linarith
      then have b2: "\<bar>- (pi / 2) - (- angle)\<bar> \<le> 1 / 1000000" by linarith
      have a1: "atan_of_product (to_float v) w = Value (pi / 2)" by (simp add: minus(1) w)
      have a2: "atan_of_product (Float_negate (to_float v)) w = Value (- (pi / 2))"
        by (simp add: minus(1) w)
      from a1 a2 b1 b2 show ?thesis by blast
    qed
  qed
  then show ?thesis by (simp only: v_def)
qed

lemma setTangentValue_written:
  assumes nw: "\<not> curveIsWeighted curve"
    and n: "1 < numKeys curve"
    and f: "findKey (curveKeys curve) t = Some k"
    and g: "getTangent curve k (tangentName = kInTangent) = Some (angle, w)"
    and fl: "to_float v = Float fv"
  shows "MotionPath_setTangentValue fps v curve tangentName t
         = Written (setTangent curve k
              (arctan ((if tangentName = kInTangent then - fv else fv) * w), w)
              (tangentName = kInTangent))"
  using nw n f g fl by (simp add: MotionPath_setTangentValue_def Let_def)

lemma setTangentValue_roundtrip:
  assumes nw: "\<not> curveIsWeighted curve"
    and n: "1 < numKeys curve"
    and f: "findKey (curveKeys curve) t = Some k"
    and g: "getTangent curve k (tangentName = kInTangent) = Some (angle, w)"
    and w: "w * w = 1"
    and r: "- (pi / 2) < angle" "angle < pi / 2"
  shows "\<exists>curve' angle'.
           MotionPath_setTangentValue fps (tangentVal curve k tangentName) curve tangentName t
             = Written curve' \<and>
           getTangent curve' k (tangentName = kInTangent) = Some (angle', w) \<and>
           \<bar>angle' - (if tangentName = kInTangent then - angle else angle)\<bar> \<le> 1 / 1000000"
proof -
  let ?v = "tan angle * w"
  have tv: "tangentVal curve k tangentName = ?v"
    using nw g by (rule tangentVal_nonweighted)
  have k: "k < numKeys curve"
    using findKey_bound [OF f] by (simp add: numKeys_def)
  note nr = narrowed_roundtrip [OF w r]
  show ?thesis
  proof (cases tangentName)
    case kInTangent
    from nr obtain a where a: "atan_of_product (Float_negate (to_float ?v)) w = Value a"
        "\<bar>a - (- angle)\<bar> \<le> 1 / 1000000"
      by blast
    from g kInTangent have g': "getTangent curve k True = Some (angle, w)" by simp
    from tv kInTangent have tv': "tangentVal curve k kInTangent = ?v" by simp
    have "MotionPath_setTangentValue fps (tangentVal curve k tangentName) curve tangentName t
          = Written (setTangent curve k (a, w) True)"
      using nw n f g' a(1) by (simp add: MotionPath_setTangentValue_def Let_def tv' kInTangent)
    moreover have "getTangent (setTangent curve k (a, w) True) k (tangentName = kInTangent)
          = Some (a, w)"
      using getTangent_setTangent [OF k, of "(a, w)" True] kInTangent by simp
    moreover have "\<bar>a - (if tangentName = kInTangent then - angle else angle)\<bar> \<le> 1 / 1000000"
      using a(2) kInTangent by simp
    ultimately show ?thesis by blast
  next
    case kOutTangent
    from nr obtain a where a: "atan_of_product (to_float ?v) w = Value a"
        "\<bar>a - angle\<bar> \<le> 1 / 1000000"
      by blast
    from g kOutTangent have g': "getTangent curve k False = Some (angle, w)" by simp
    from tv kOutTangent have tv': "tangentVal curve k kOutTangent = ?v" by simp
    have "MotionPath_setTangentValue fps (tangentVal curve k tangentName) curve tangentName t
          = Written (setTangent curve k (a, w) False)"
      using nw n f g' a(1) by (simp add: MotionPath_setTangentValue_def Let_def tv' kOutTangent)
    moreover have "getTangent (setTangent curve k (a, w) False) k (tangentName = kInTangent)
          = Some (a, w)"
      using getTangent_setTangent [OF k, of "(a, w)" False] kOutTangent by simp
    moreover have "\<bar>a - (if tangentName = kInTangent then - angle else angle)\<bar> \<le> 1 / 1000000"
      using a(2) kOutTangent by simp
    ultimately show ?thesis by blast
  qed
qed

lemma arctan_sqrt3: "arctan (sqrt 3) = pi / 3"
proof (rule arctan_unique)
  show "- (pi / 2) < pi / 3" using pi_gt_zero by linarith
  show "pi / 3 < pi / 2" using pi_gt_zero by linarith
  show "tan (pi / 3) = sqrt 3" by (rule tan_60)
qed

lemma arctan_4_far: "1 / 1000000 < \<bar>arctan 4 - pi / 4\<bar>"
proof -
  have "sqrt 3 < sqrt 16" by (rule real_sqrt_less_mono) simp
  moreover have "sqrt 16 = 4" using real_sqrt_abs [of 4] by simp
  ultimately have "sqrt 3 < 4" by (simp only:)
  then have "arctan (sqrt 3) < arctan 4" by (simp only: arctan_less_iff)
  then have "pi / 3 < arctan 4" by (simp add: arctan_sqrt3)
  moreover have "2 \<le> pi" by (rule pi_ge_two)
  ultimately show ?thesis by linarith
qed

lemma to_float_small [simp]:
  "to_float 1 = Float 1" "to_float 2 = Float 2" "to_float 3 = Float 3"
  using to_float_of_int [of 1] to_float_of_int [of 2] to_float_of_int [of 3] by simp_all

lemma steep_read: "tangentVal steepCurve 0 kOutTangent = 2"
  by (simp add: tangentVal_def steepCurve_def getTangent_def numKeys_def tan_45)

lemma steep_write:
  "MotionPath_setTangentValue 24 (tangentVal steepCurve 0 kOutTangent) steepCurve kOutTangent 1
     = Written (setTangent steepCurve 0 (arctan 4, 2) False)"
  unfolding steep_read
  by (simp add: MotionPath_setTangentValue_def steepCurve_def getTangent_def numKeys_def Let_def)

lemma unit_in_read: "tangentVal unitCurve 1 kInTangent = 1"
  by (simp add: tangentVal_def unitCurve_def getTangent_def numKeys_def tan_45)

lemma unit_in_write:
  "MotionPath_setTangentValue 24 (tangentVal unitCurve 1 kInTangent) unitCurve kInTangent 5
     = Written (setTangent unitCurve 1 (- (pi / 4), 1) True)"
  unfolding unit_in_read
  by (simp add: MotionPath_setTangentValue_def unitCurve_def getTangent_def numKeys_def Let_def
      arctan_minus arctan_one)

section \<open>Properties of the keyframe cache\<close>

lemma modifyAt_keys: "set (map fst (modifyAt t f m)) = insert t (set (map fst m))"
proof (induction m)
  case Nil
  show ?case by simp
next
  case (Cons a m)
  obtain u k where a: "a = (u, k)" by (cases a)
  show ?case
  proof (cases "t = u")
    case True
    then show ?thesis by (simp add: a)
  next
    case False
    show ?thesis
    proof (cases "t < u")
      case True
      with False show ?thesis by (simp add: a)
    next
      case ge: False
      with False Cons.IH show ?thesis by (simp add: a insert_commute)
    qed
  qed
qed

lemma modifyAt_sorted:
  "sorted_wrt (<) (map fst m) \<Longrightarrow> sorted_wrt (<) (map fst (modifyAt t f m))"
proof (induction m)
  case Nil
  then show ?case by simp
next
  case (Cons a m)
  obtain u k where a: "a = (u, k)" by (cases a)
  from Cons.prems a have u: "\<forall>v \<in> set (map fst m). u < v" and s: "sorted_wrt (<) (map fst m)"
    by auto
  show ?case
  proof (cases "t = u")
    case True
    with Cons.prems a show ?thesis by simp
  next
    case False
    show ?thesis
    proof (cases "t < u")
      case True
      with u have "\<forall>v \<in> set (map fst m). t < v" by auto
      with True False Cons.prems a show ?thesis by simp
    next
      case ge: False
      with False have "u < t" by simp
      with u have "\<forall>v \<in> set (map fst (modifyAt t f m)). u < v"
        by (simp only: modifyAt_keys) auto
      with False ge a Cons.IH [OF s] show ?thesis by simp
    qed
  qed
qed

lemma map_of_before_head:
  fixes m :: KeyframeMap
  shows "\<forall>v \<in> set (map fst m). t < v \<Longrightarrow> map_of m t = None"
  by (induction m) auto

lemma modifyAt_map_of:
  "sorted_wrt (<) (map fst m) \<Longrightarrow>
   map_of (modifyAt t f m) u =
     (if u = t then Some (f (case map_of m t of None \<Rightarrow> Keyframe_new | Some k \<Rightarrow> k))
      else map_of m u)"
proof (induction m)
  case Nil
  then show ?case by simp
next
  case (Cons a m)
  obtain v k where a: "a = (v, k)" by (cases a)
  from Cons.prems a have hv: "\<forall>w \<in> set (map fst m). v < w" and s: "sorted_wrt (<) (map fst m)"
    by auto
  show ?case
  proof (cases "t = v")
    case True
    with a show ?thesis by simp
  next
    case False
    show ?thesis
    proof (cases "t < v")
      case True
      with hv have "\<forall>w \<in> set (map fst m). t < w" by auto
      then have "map_of m t = None" by (rule map_of_before_head)
      with True False a show ?thesis by simp
    next
      case ge: False
      with False a Cons.IH [OF s] show ?thesis by auto
    qed
  qed
qed

text \<open>Rotation expansion: what one step does to a record.\<close>

lemma expandKey_rot_ids:
  "xKeyId (expandKey curve a False i t kf) = xKeyId kf"
  "yKeyId (expandKey curve a False i t kf) = yKeyId kf"
  "zKeyId (expandKey curve a False i t kf) = zKeyId kf"
  "rotKeyId a (expandKey curve a False i t kf) = int i"
  "a' \<noteq> a \<Longrightarrow> rotKeyId a' (expandKey curve a False i t kf) = rotKeyId a' kf"
  by (cases a; cases a'; simp add: expandKey_def)+

lemma Keyframe_new_ids:
  "xKeyId Keyframe_new = - 1" "yKeyId Keyframe_new = - 1" "zKeyId Keyframe_new = - 1"
  by (simp_all add: Keyframe_new_def)

lemma expandKeys_sorted:
  "sorted_wrt (<) (map fst m) \<Longrightarrow>
   sorted_wrt (<) (map fst (expandKeys curve a tr s e i ks m))"
  by (induction ks arbitrary: i m) (simp_all add: modifyAt_sorted)

text \<open>No record carries a translation key id.\<close>

lemma expandKeys_rot_no_translation:
  assumes "sorted_wrt (<) (map fst m)"
    and "\<forall>u kf. map_of m u = Some kf \<longrightarrow> xKeyId kf = - 1 \<and> yKeyId kf = - 1 \<and> zKeyId kf = - 1"
  shows "\<forall>u kf. map_of (expandKeys curve a False s e i ks m) u = Some kf \<longrightarrow>
           xKeyId kf = - 1 \<and> yKeyId kf = - 1 \<and> zKeyId kf = - 1"
  using assms
proof (induction ks arbitrary: i m)
  case Nil
  then show ?case by simp
next
  case (Cons k ks)
  let ?m' = "modifyAt (keyTime k) (expandKey curve a False i (keyTime k)) m"
  have s': "sorted_wrt (<) (map fst ?m')" using Cons.prems(1) by (rule modifyAt_sorted)
  have n': "\<forall>u kf. map_of ?m' u = Some kf \<longrightarrow> xKeyId kf = - 1 \<and> yKeyId kf = - 1 \<and> zKeyId kf = - 1"
    using Cons.prems(2)
    by (auto simp: modifyAt_map_of [OF Cons.prems(1)] expandKey_rot_ids Keyframe_new_ids
        split: if_splits option.splits)
  show ?case
    using Cons.IH [OF s' n'] Cons.IH [OF Cons.prems] Cons.prems(2) by simp
qed

text \<open>A record at \<open>t\<close> stays, with its rotation id on axis \<open>a'\<close>, under the expansion of another axis.\<close>

lemma expandKeys_rot_preserves:
  assumes "sorted_wrt (<) (map fst m)"
    and "map_of m t = Some kf" and "rotKeyId a' kf = r" and "a' \<noteq> a"
  shows "\<exists>kf'. map_of (expandKeys curve a False s e i ks m) t = Some kf' \<and> rotKeyId a' kf' = r"
  using assms
proof (induction ks arbitrary: i m kf)
  case Nil
  then show ?case by simp
next
  case (Cons k ks)
  let ?m' = "modifyAt (keyTime k) (expandKey curve a False i (keyTime k)) m"
  have s': "sorted_wrt (<) (map fst ?m')" using Cons.prems(1) by (rule modifyAt_sorted)
  have "\<exists>kf'. map_of ?m' t = Some kf' \<and> rotKeyId a' kf' = r"
  proof (cases "t = keyTime k")
    case True
    with Cons.prems(2) have "map_of ?m' t = Some (expandKey curve a False i (keyTime k) kf)"
      by (simp add: modifyAt_map_of [OF Cons.prems(1)])
    moreover have "rotKeyId a' (expandKey curve a False i (keyTime k) kf) = r"
      using Cons.prems(3,4) by (simp add: expandKey_rot_ids)
    ultimately show ?thesis by blast
  next
    case False
    with Cons.prems(2) have "map_of ?m' t = Some kf"
      by (simp add: modifyAt_map_of [OF Cons.prems(1)])
    with Cons.prems(3) show ?thesis by blast
  qed
  then obtain kf' where kf': "map_of ?m' t = Some kf'" "rotKeyId a' kf' = r" by blast
  show ?case
    using Cons.IH [OF s' kf' Cons.prems(4)] Cons.IH [OF Cons.prems] Cons.prems(2,3) by auto
qed

text \<open>Keys at other times leave the record at \<open>t\<close> alone.\<close>

lemma expandKeys_other_times:
  assumes "sorted_wrt (<) (map fst m)" and "t \<notin> keyTime ` set ks"
  shows "map_of (expandKeys curve a tr s e i ks m) t = map_of m t"
  using assms
proof (induction ks arbitrary: i m)
  case Nil
  then show ?case by simp
next
  case (Cons k ks)
  let ?m' = "modifyAt (keyTime k) (expandKey curve a tr i (keyTime k)) m"
  have s': "sorted_wrt (<) (map fst ?m')" using Cons.prems(1) by (rule modifyAt_sorted)
  have t: "t \<noteq> keyTime k" "t \<notin> keyTime ` set ks" using Cons.prems(2) by auto
  have "map_of ?m' t = map_of m t"
    using t by (simp add: modifyAt_map_of [OF Cons.prems(1)])
  with Cons.IH [OF s' t(2)] Cons.IH [OF Cons.prems(1) t(2)] show ?case by simp
qed

text \<open>The key at index \<open>j\<close> of the remaining keys, inside the window, gets its record.\<close>

lemma expandKeys_rot_establishes:
  assumes "sorted_wrt (<) (map fst m)"
    and "sorted_wrt (<) (map keyTime ks)"
    and "j < length ks" and "keyTime (ks ! j) = t" and "s \<le> t" and "t \<le> e"
  shows "\<exists>kf. map_of (expandKeys curve a False s e i ks m) t = Some kf
              \<and> rotKeyId a kf = int (i + j)"
  using assms
proof (induction ks arbitrary: i m j)
  case Nil
  then show ?case by simp
next
  case (Cons k ks)
  let ?m' = "modifyAt (keyTime k) (expandKey curve a False i (keyTime k)) m"
  have s': "sorted_wrt (<) (map fst ?m')" using Cons.prems(1) by (rule modifyAt_sorted)
  from Cons.prems(2) have later: "\<forall>x \<in> set ks. keyTime k < keyTime x"
    and sk: "sorted_wrt (<) (map keyTime ks)" by auto
  show ?case
  proof (cases j)
    case 0
    with Cons.prems have kt: "keyTime k = t" by simp
    from later kt have notin: "t \<notin> keyTime ` set ks" by auto
    have "map_of (expandKeys curve a False s e (Suc i) ks ?m') t = map_of ?m' t"
      using s' notin by (rule expandKeys_other_times)
    moreover have "\<exists>kf. map_of ?m' t = Some kf \<and> rotKeyId a kf = int i"
      by (simp add: modifyAt_map_of [OF Cons.prems(1)] kt expandKey_rot_ids)
    ultimately show ?thesis using kt Cons.prems(5,6) 0 by simp
  next
    case (Suc j')
    with Cons.prems have j': "j' < length ks" "keyTime (ks ! j') = t" by simp_all
    then have "ks ! j' \<in> set ks" by simp
    with later j' have lt: "keyTime k < t" by auto
    with Cons.prems(6) have le: "keyTime k \<le> e" by simp
    have A: "\<exists>kf. map_of (expandKeys curve a False s e (Suc i) ks ?m') t = Some kf
              \<and> rotKeyId a kf = int (Suc i + j')"
      using s' sk j' Cons.prems(5,6) by (rule Cons.IH)
    have B: "\<exists>kf. map_of (expandKeys curve a False s e (Suc i) ks m) t = Some kf
              \<and> rotKeyId a kf = int (Suc i + j')"
      using Cons.prems(1) sk j' Cons.prems(5,6) by (rule Cons.IH)
    from A B le Suc show ?thesis by simp
  qed
qed

lemma keyFlags_ids:
  "xKeyId (keyFlags i mp key) = xKeyId key" "yKeyId (keyFlags i mp key) = yKeyId key"
  "zKeyId (keyFlags i mp key) = zKeyId key" "xRotKeyId (keyFlags i mp key) = xRotKeyId key"
  "yRotKeyId (keyFlags i mp key) = yRotKeyId key" "zRotKeyId (keyFlags i mp key) = zRotKeyId key"
  by (simp_all add: keyFlags_def Let_def)

lemma keyPositions_ids:
  "xKeyId (keyPositions env mp key) = xKeyId key" "yKeyId (keyPositions env mp key) = yKeyId key"
  "zKeyId (keyPositions env mp key) = zKeyId key"
  "xRotKeyId (keyPositions env mp key) = xRotKeyId key"
  "yRotKeyId (keyPositions env mp key) = yRotKeyId key"
  "zRotKeyId (keyPositions env mp key) = zRotKeyId key"
  by (simp_all add: keyPositions_def Let_def)

lemma keyTangentsWorld_ids:
  "xKeyId (keyTangentsWorld gs c mp key) = xKeyId key"
  "yKeyId (keyTangentsWorld gs c mp key) = yKeyId key"
  "zKeyId (keyTangentsWorld gs c mp key) = zKeyId key"
  "xRotKeyId (keyTangentsWorld gs c mp key) = xRotKeyId key"
  "yRotKeyId (keyTangentsWorld gs c mp key) = yRotKeyId key"
  "zRotKeyId (keyTangentsWorld gs c mp key) = zRotKeyId key"
  by (simp_all add: keyTangentsWorld_def Let_def split: option.splits)

lemma keyInTangentFromCurve_ids:
  "xKeyId (snd (keyInTangentFromCurve gs env c mp key)) = xKeyId key"
  "yKeyId (snd (keyInTangentFromCurve gs env c mp key)) = yKeyId key"
  "zKeyId (snd (keyInTangentFromCurve gs env c mp key)) = zKeyId key"
  "xRotKeyId (snd (keyInTangentFromCurve gs env c mp key)) = xRotKeyId key"
  "yRotKeyId (snd (keyInTangentFromCurve gs env c mp key)) = yRotKeyId key"
  "zRotKeyId (snd (keyInTangentFromCurve gs env c mp key)) = zRotKeyId key"
  by (simp_all add: keyInTangentFromCurve_def Let_def split: option.splits)

lemma keyOutTangentFromCurve_ids:
  "xKeyId (snd (keyOutTangentFromCurve gs env c mp key)) = xKeyId key"
  "yKeyId (snd (keyOutTangentFromCurve gs env c mp key)) = yKeyId key"
  "zKeyId (snd (keyOutTangentFromCurve gs env c mp key)) = zKeyId key"
  "xRotKeyId (snd (keyOutTangentFromCurve gs env c mp key)) = xRotKeyId key"
  "yRotKeyId (snd (keyOutTangentFromCurve gs env c mp key)) = yRotKeyId key"
  "zRotKeyId (snd (keyOutTangentFromCurve gs env c mp key)) = zRotKeyId key"
  by (simp_all add: keyOutTangentFromCurve_def Let_def split: option.splits)

lemmas key_block_ids = keyFlags_ids keyPositions_ids keyTangentsWorld_ids
  keyInTangentFromCurve_ids keyOutTangentFromCurve_ids

lemma cacheKeyFrame_ids:
  "xKeyId (snd (snd (cacheKeyFrame gs env c i mp key))) = xKeyId key \<and>
   yKeyId (snd (snd (cacheKeyFrame gs env c i mp key))) = yKeyId key \<and>
   zKeyId (snd (snd (cacheKeyFrame gs env c i mp key))) = zKeyId key \<and>
   xRotKeyId (snd (snd (cacheKeyFrame gs env c i mp key))) = xRotKeyId key \<and>
   yRotKeyId (snd (snd (cacheKeyFrame gs env c i mp key))) = yRotKeyId key \<and>
   zRotKeyId (snd (snd (cacheKeyFrame gs env c i mp key))) = zRotKeyId key"
  by (simp add: cacheKeyFrame_def Let_def split_beta key_block_ids)

lemma cacheKeyFrameLoop_ids:
  assumes "map_of m t = Some kf"
  shows "\<exists>kf'. map_of (snd (cacheKeyFrameLoop gs env c i mp m)) t = Some kf' \<and>
           xKeyId kf' = xKeyId kf \<and> yKeyId kf' = yKeyId kf \<and> zKeyId kf' = zKeyId kf \<and>
           rotKeyId a kf' = rotKeyId a kf"
  using assms
proof (induction m arbitrary: i mp)
  case Nil
  then show ?case by simp
next
  case (Cons p m)
  obtain u key where p: "p = (u, key)" by (cases p)
  obtain i' mp' key' where step: "cacheKeyFrame gs env c i mp key = (i', mp', key')"
    by (cases "cacheKeyFrame gs env c i mp key")
  obtain mp'' rest' where rest: "cacheKeyFrameLoop gs env c i' mp' m = (mp'', rest')"
    by (cases "cacheKeyFrameLoop gs env c i' mp' m")
  have res: "snd (cacheKeyFrameLoop gs env c i mp (p # m)) = (u, key') # rest'"
    by (simp add: p step rest)
  show ?case
  proof (cases "t = u")
    case True
    with Cons.prems p have "kf = key" by simp
    moreover have "key' = snd (snd (cacheKeyFrame gs env c i mp key))" by (simp add: step)
    ultimately have "xKeyId key' = xKeyId kf \<and> yKeyId key' = yKeyId kf \<and> zKeyId key' = zKeyId kf
                     \<and> rotKeyId a key' = rotKeyId a kf"
      using cacheKeyFrame_ids [of gs env c i mp key] by (cases a) simp_all
    with True res show ?thesis by simp
  next
    case False
    with Cons.prems p have "map_of m t = Some kf" by simp
    from Cons.IH [OF this, of i' mp'] rest False res show ?thesis by simp
  qed
qed

lemma expandKeyFramesCache_cache:
  "keyframesCache (expandKeyFramesCache curve a tr mp) =
     expandKeys curve a tr (displayStartTime mp)
       (if isDrawing mp then endDrawingTime mp else displayEndTime mp) 0
       (curveKeys curve) (keyframesCache mp)"
  by (cases "curveKeys curve") (simp_all add: expandKeyFramesCache_def numKeys_def Let_def)

lemma expandKeyFramesCache_window:
  "displayStartTime (expandKeyFramesCache curve a tr mp) = displayStartTime mp \<and>
   displayEndTime (expandKeyFramesCache curve a tr mp) = displayEndTime mp \<and>
   isDrawing (expandKeyFramesCache curve a tr mp) = isDrawing mp \<and>
   endDrawingTime (expandKeyFramesCache curve a tr mp) = endDrawingTime mp"
  by (simp add: expandKeyFramesCache_def Let_def)

lemma rotation_stage_good:
  assumes "sorted_wrt (<) (map fst (keyframesCache mp))"
    and "\<forall>u kf. map_of (keyframesCache mp) u = Some kf \<longrightarrow>
           xKeyId kf = - 1 \<and> yKeyId kf = - 1 \<and> zKeyId kf = - 1"
  shows "sorted_wrt (<) (map fst (keyframesCache (expandKeyFramesCache curve a False mp))) \<and>
         (\<forall>u kf. map_of (keyframesCache (expandKeyFramesCache curve a False mp)) u = Some kf \<longrightarrow>
           xKeyId kf = - 1 \<and> yKeyId kf = - 1 \<and> zKeyId kf = - 1)"
  unfolding expandKeyFramesCache_cache
  using expandKeys_sorted [OF assms(1)] expandKeys_rot_no_translation [OF assms]
  by blast

lemma rotation_stage_preserves:
  assumes "sorted_wrt (<) (map fst (keyframesCache mp))"
    and "\<exists>kf. map_of (keyframesCache mp) t = Some kf \<and> rotKeyId a' kf = r" and "a' \<noteq> a"
  shows "\<exists>kf. map_of (keyframesCache (expandKeyFramesCache curve a False mp)) t = Some kf
              \<and> rotKeyId a' kf = r"
proof -
  from assms(2) obtain kf where kf: "map_of (keyframesCache mp) t = Some kf" "rotKeyId a' kf = r"
    by blast
  show ?thesis
    unfolding expandKeyFramesCache_cache
    using assms(1) kf assms(3) by (rule expandKeys_rot_preserves)
qed

lemma rotation_stage_establishes:
  assumes "sorted_wrt (<) (map fst (keyframesCache mp))"
    and "sorted_wrt (<) (map keyTime (curveKeys curve))"
    and "k < length (curveKeys curve)" and "keyTime (curveKeys curve ! k) = t"
    and "displayStartTime mp \<le> t"
    and "t \<le> (if isDrawing mp then endDrawingTime mp else displayEndTime mp)"
  shows "\<exists>kf. map_of (keyframesCache (expandKeyFramesCache curve a False mp)) t = Some kf
              \<and> rotKeyId a kf = int k"
  unfolding expandKeyFramesCache_cache
  using expandKeys_rot_establishes [OF assms(1,2,3,4,5,6), of curve a 0] by simp

lemma expandKeyFramesCache_no_keys:
  "curveKeys curve = [] \<Longrightarrow> expandKeyFramesCache curve a tr mp = mp"
  by (simp add: expandKeyFramesCache_def numKeys_def)

lemma setShowInOutTangents_no_keys:
  "curveKeys curveTX = [] \<Longrightarrow> curveKeys curveTY = [] \<Longrightarrow> curveKeys curveTZ = [] \<Longrightarrow>
   setShowInOutTangents noKeyTime curveTX curveTY curveTZ mp = mp"
  by (simp add: setShowInOutTangents_def numKeys_def)

text \<open>
  C8 (as amended). With \<open>showRotationKeyFrames\<close> on, no translation keys anywhere and
  the cache cleared before the build, every key of an animatable rotation curve (keys in
  ascending time) whose time lies in \<open>[displayStartTime, endTime]\<close> has a record at its
  time after \<open>cacheKeyFrames\<close>, with the rotation key id of its axis equal to the key's
  index and all translation key ids equal to -1.
\<close>

theorem rotation_only_key_retained:
  assumes rot: "showRotationKeyFrames gs"
    and sel: "curve = (case axis of kAxisX \<Rightarrow> curveRX | kAxisY \<Rightarrow> curveRY | kAxisZ \<Rightarrow> curveRZ)"
    and an: "isCurveTypeAnimatable (animCurveType curve)"
    and notr: "curveKeys curveTX = [] \<and> curveKeys curveTY = [] \<and> curveKeys curveTZ = []"
    and so: "sorted_wrt (<) (map keyTime (curveKeys curve))"
    and k: "k < length (curveKeys curve)" and t: "keyTime (curveKeys curve ! k) = t"
    and w1: "displayStartTime mp \<le> t"
    and w2: "t \<le> (if isDrawing mp then endDrawingTime mp else displayEndTime mp)"
    and empty: "keyframesCache mp = []"
  shows "\<exists>kf. map_of (keyframesCache (cacheKeyFrames gs env noKeyTime curveTX curveTY curveTZ
                  curveRX curveRY curveRZ cachePtr mp)) t = Some kf \<and>
              rotKeyId axis kf = int k \<and> xKeyId kf = - 1 \<and> yKeyId kf = - 1 \<and> zKeyId kf = - 1"
proof -
  define stage where "stage = (\<lambda>c a (m :: 'a MotionPath_scheme).
      if isCurveTypeAnimatable (animCurveType c) then expandKeyFramesCache c a False m else m)"
  define m4 where "m4 = stage curveRX kAxisX mp"
  define m5 where "m5 = stage curveRY kAxisY m4"
  define m6 where "m6 = stage curveRZ kAxisZ m5"
  have good: "sorted_wrt (<) (map fst (keyframesCache (stage c a m))) \<and>
         (\<forall>u kf. map_of (keyframesCache (stage c a m)) u = Some kf \<longrightarrow>
           xKeyId kf = - 1 \<and> yKeyId kf = - 1 \<and> zKeyId kf = - 1)"
    if "sorted_wrt (<) (map fst (keyframesCache m)) \<and>
         (\<forall>u kf. map_of (keyframesCache m) u = Some kf \<longrightarrow>
           xKeyId kf = - 1 \<and> yKeyId kf = - 1 \<and> zKeyId kf = - 1)" for c a m
    using that rotation_stage_good [of m c a] by (simp add: stage_def)
  have window: "displayStartTime (stage c a m) = displayStartTime m \<and>
      (if isDrawing (stage c a m) then endDrawingTime (stage c a m) else displayEndTime (stage c a m))
        = (if isDrawing m then endDrawingTime m else displayEndTime m)" for c a m
    using expandKeyFramesCache_window [of c a False m] by (simp add: stage_def)
  have preserves: "\<exists>kf. map_of (keyframesCache (stage c a m)) t = Some kf \<and> rotKeyId a' kf = r"
    if "sorted_wrt (<) (map fst (keyframesCache m))"
      and "\<exists>kf. map_of (keyframesCache m) t = Some kf \<and> rotKeyId a' kf = r" and "a' \<noteq> a"
    for c a a' m r
    using that rotation_stage_preserves [of m t a' r a c] by (simp add: stage_def)
  have establishes: "\<exists>kf. map_of (keyframesCache (stage curve a m)) t = Some kf
              \<and> rotKeyId a kf = int k"
    if "sorted_wrt (<) (map fst (keyframesCache m))" and "displayStartTime m \<le> t"
      and "t \<le> (if isDrawing m then endDrawingTime m else displayEndTime m)" for a m
    using rotation_stage_establishes [OF that(1) so k t that(2,3), of a] an
    by (simp add: stage_def)
  have g0: "sorted_wrt (<) (map fst (keyframesCache mp)) \<and>
         (\<forall>u kf. map_of (keyframesCache mp) u = Some kf \<longrightarrow>
           xKeyId kf = - 1 \<and> yKeyId kf = - 1 \<and> zKeyId kf = - 1)"
    by (simp add: empty)
  have g4: "sorted_wrt (<) (map fst (keyframesCache m4)) \<and>
         (\<forall>u kf. map_of (keyframesCache m4) u = Some kf \<longrightarrow>
           xKeyId kf = - 1 \<and> yKeyId kf = - 1 \<and> zKeyId kf = - 1)"
    unfolding m4_def using g0 by (rule good)
  have g5: "sorted_wrt (<) (map fst (keyframesCache m5)) \<and>
         (\<forall>u kf. map_of (keyframesCache m5) u = Some kf \<longrightarrow>
           xKeyId kf = - 1 \<and> yKeyId kf = - 1 \<and> zKeyId kf = - 1)"
    unfolding m5_def using g4 by (rule good)
  have g6: "sorted_wrt (<) (map fst (keyframesCache m6)) \<and>
         (\<forall>u kf. map_of (keyframesCache m6) u = Some kf \<longrightarrow>
           xKeyId kf = - 1 \<and> yKeyId kf = - 1 \<and> zKeyId kf = - 1)"
    unfolding m6_def using g5 by (rule good)
  have w4: "displayStartTime m4 \<le> t \<and>
            t \<le> (if isDrawing m4 then endDrawingTime m4 else displayEndTime m4)"
    unfolding m4_def using window [of curveRX kAxisX mp] w1 w2 by simp
  have w5: "displayStartTime m5 \<le> t \<and>
            t \<le> (if isDrawing m5 then endDrawingTime m5 else displayEndTime m5)"
    unfolding m5_def using window [of curveRY kAxisY m4] w4 by simp
  have target: "\<exists>kf. map_of (keyframesCache m6) t = Some kf \<and> rotKeyId axis kf = int k"
  proof (cases axis)
    case kAxisX
    with sel have c: "curve = curveRX" by simp
    have "\<exists>kf. map_of (keyframesCache m4) t = Some kf \<and> rotKeyId kAxisX kf = int k"
      unfolding m4_def c [symmetric] using g0 w1 w2 by (intro establishes) simp_all
    then have "\<exists>kf. map_of (keyframesCache m5) t = Some kf \<and> rotKeyId kAxisX kf = int k"
      unfolding m5_def using g4 by (intro preserves) simp_all
    then have "\<exists>kf. map_of (keyframesCache m6) t = Some kf \<and> rotKeyId kAxisX kf = int k"
      unfolding m6_def using g5 by (intro preserves) simp_all
    with kAxisX show ?thesis by simp
  next
    case kAxisY
    with sel have c: "curve = curveRY" by simp
    have "\<exists>kf. map_of (keyframesCache m5) t = Some kf \<and> rotKeyId kAxisY kf = int k"
      unfolding m5_def c [symmetric] using g4 w4 by (intro establishes) simp_all
    then have "\<exists>kf. map_of (keyframesCache m6) t = Some kf \<and> rotKeyId kAxisY kf = int k"
      unfolding m6_def using g5 by (intro preserves) simp_all
    with kAxisY show ?thesis by simp
  next
    case kAxisZ
    with sel have c: "curve = curveRZ" by simp
    have "\<exists>kf. map_of (keyframesCache m6) t = Some kf \<and> rotKeyId kAxisZ kf = int k"
      unfolding m6_def c [symmetric] using g5 w5 by (intro establishes) simp_all
    with kAxisZ show ?thesis by simp
  qed
  then obtain kf where kf: "map_of (keyframesCache m6) t = Some kf" "rotKeyId axis kf = int k"
    by blast
  with g6 have ids: "xKeyId kf = - 1 \<and> yKeyId kf = - 1 \<and> zKeyId kf = - 1" by blast
  have res: "keyframesCache (cacheKeyFrames gs env noKeyTime curveTX curveTY curveTZ
                  curveRX curveRY curveRZ cachePtr mp)
             = snd (cacheKeyFrameLoop gs env cachePtr 0 m6 (keyframesCache m6))"
    using notr rot
    by (simp add: cacheKeyFrames_def Let_def split_beta expandKeyFramesCache_no_keys
        setShowInOutTangents_no_keys m6_def m5_def m4_def stage_def)
  from cacheKeyFrameLoop_ids [OF kf(1), of gs env cachePtr 0 m6 axis] kf(2) ids
  show ?thesis unfolding res by auto
qed

section \<open>Tangent conversion, and rotation keys at concrete inputs\<close>

text \<open>
  C3 (as amended). A non-weighted tangent \<open>(angle, weight)\<close> is read as
  \<open>tan angle * weight\<close>, a weighted tangent \<open>(x, y)\<close> as \<open>y / 3\<close>. Writing a value to a
  non-weighted tangent of a curve with more than one key narrows the value to float,
  negates it for an in-tangent, and stores the arc tangent of its product with the weight,
  leaving the weight unchanged. For \<open>weight * weight = 1\<close> and an angle strictly between
  \<open>-pi / 2\<close> and \<open>pi / 2\<close>, writing back the value read therefore stores, within
  \<open>10 ^ - 6\<close>, the original angle for an out-tangent and its negation for an in-tangent.
  \<open>tan\<close>, \<open>atan\<close> and the product are taken exact.
\<close>

theorem tangent_conversion:
  "(\<not> curveIsWeighted curve \<and> getTangent curve k (tangentName = kInTangent) = Some (angle, w)
      \<longrightarrow> tangentVal curve k tangentName = tan angle * w) \<and>
   (curveIsWeighted wcurve \<and> getTangent wcurve k' (tangentName' = kInTangent) = Some (x, y)
      \<longrightarrow> tangentVal wcurve k' tangentName' = y / 3) \<and>
   (\<not> curveIsWeighted curve \<and> 1 < numKeys curve \<and> findKey (curveKeys curve) t = Some k \<and>
    getTangent curve k (tangentName = kInTangent) = Some (angle, w) \<and> to_float v = Float fv
      \<longrightarrow> MotionPath_setTangentValue fps v curve tangentName t
          = Written (setTangent curve k
              (arctan ((if tangentName = kInTangent then - fv else fv) * w), w)
              (tangentName = kInTangent))) \<and>
   (\<not> curveIsWeighted curve \<and> 1 < numKeys curve \<and> findKey (curveKeys curve) t = Some k \<and>
    getTangent curve k (tangentName = kInTangent) = Some (angle, w) \<and>
    w * w = 1 \<and> - (pi / 2) < angle \<and> angle < pi / 2
      \<longrightarrow> (\<exists>curve' angle'.
            MotionPath_setTangentValue fps (tangentVal curve k tangentName) curve tangentName t
              = Written curve' \<and>
            getTangent curve' k (tangentName = kInTangent) = Some (angle', w) \<and>
            \<bar>angle' - (if tangentName = kInTangent then - angle else angle)\<bar> \<le> 1 / 1000000))"
  using tangentVal_nonweighted [of curve k tangentName angle w]
    tangentVal_weighted [of wcurve k' tangentName' x y]
    setTangentValue_written [of curve t k tangentName angle w v fv fps]
    setTangentValue_roundtrip [of curve t k tangentName angle w fps]
  by blast

theorem tangent_conversion_witness:
  "\<not> curveIsWeighted unitCurve \<and> 1 < numKeys unitCurve \<and>
   findKey (curveKeys unitCurve) 1 = Some 0 \<and>
   getTangent unitCurve 0 False = Some (pi / 4, 1) \<and>
   (1::real) * 1 = 1 \<and> - (pi / 2) < pi / 4 \<and> pi / 4 < pi / 2 \<and>
   curveIsWeighted weightedCurve \<and> getTangent weightedCurve 0 False = Some (1, 6) \<and>
   to_float 3 = Float 3 \<and>
   tangentVal unitCurve 0 kOutTangent = tan (pi / 4) * 1 \<and>
   tangentVal weightedCurve 0 kOutTangent = 6 / 3 \<and>
   MotionPath_setTangentValue 24 3 unitCurve kOutTangent 1
     = Written (setTangent unitCurve 0 (arctan (3 * 1), 1) False) \<and>
   (\<exists>curve' angle'.
      MotionPath_setTangentValue 24 (tangentVal unitCurve 0 kOutTangent) unitCurve kOutTangent 1
        = Written curve' \<and>
      getTangent curve' 0 False = Some (angle', 1) \<and>
      \<bar>angle' - pi / 4\<bar> \<le> 1 / 1000000)"
proof -
  have nw: "\<not> curveIsWeighted unitCurve" by (simp add: unitCurve_def)
  have n: "1 < numKeys unitCurve" by (simp add: unitCurve_def numKeys_def)
  have f: "findKey (curveKeys unitCurve) 1 = Some 0" by (simp add: unitCurve_def)
  have g: "getTangent unitCurve 0 (kOutTangent = kInTangent) = Some (pi / 4, 1)"
    by (simp add: unitCurve_def getTangent_def numKeys_def)
  have w: "(1::real) * 1 = 1" by simp
  have r: "- (pi / 2) < pi / 4" "pi / 4 < pi / 2" using pi_gt_zero by linarith+
  have ww: "curveIsWeighted weightedCurve" by (simp add: weightedCurve_def)
  have wg: "getTangent weightedCurve 0 (kOutTangent = kInTangent) = Some (1, 6)"
    by (simp add: weightedCurve_def getTangent_def numKeys_def)
  have fl: "to_float 3 = Float 3" by simp
  note c = tangent_conversion [where curve = unitCurve and k = 0 and tangentName = kOutTangent
      and angle = "pi / 4" and w = 1 and wcurve = weightedCurve and k' = 0
      and tangentName' = kOutTangent and x = 1 and y = 6 and t = 1 and fps = 24 and v = 3
      and fv = 3]
  have c1: "tangentVal unitCurve 0 kOutTangent = tan (pi / 4) * 1"
    using c nw g by blast
  have c2: "tangentVal weightedCurve 0 kOutTangent = 6 / 3"
    using c ww wg by blast
  have "MotionPath_setTangentValue 24 3 unitCurve kOutTangent 1
        = Written (setTangent unitCurve 0
            (arctan ((if kOutTangent = kInTangent then - 3 else 3) * 1), 1)
            (kOutTangent = kInTangent))"
    using c nw n f g fl by blast
  then have c3: "MotionPath_setTangentValue 24 3 unitCurve kOutTangent 1
        = Written (setTangent unitCurve 0 (arctan (3 * 1), 1) False)"
    by (simp only: Tangent.distinct if_False)
  have "\<exists>curve' angle'.
      MotionPath_setTangentValue 24 (tangentVal unitCurve 0 kOutTangent) unitCurve kOutTangent 1
        = Written curve' \<and>
      getTangent curve' 0 (kOutTangent = kInTangent) = Some (angle', 1) \<and>
      \<bar>angle' - (if kOutTangent = kInTangent then - (pi / 4) else pi / 4)\<bar> \<le> 1 / 1000000"
    using c nw n f g w r by blast
  then have c4: "\<exists>curve' angle'.
      MotionPath_setTangentValue 24 (tangentVal unitCurve 0 kOutTangent) unitCurve kOutTangent 1
        = Written curve' \<and>
      getTangent curve' 0 False = Some (angle', 1) \<and>
      \<bar>angle' - pi / 4\<bar> \<le> 1 / 1000000"
    by (simp only: Tangent.distinct if_False)
  have g': "getTangent unitCurve 0 False = Some (pi / 4, 1)"
    using g by (simp only: Tangent.distinct)
  have wg': "getTangent weightedCurve 0 False = Some (1, 6)"
    using wg by (simp only: Tangent.distinct)
  from nw n f g' w r ww wg' fl c1 c2 c3 c4 show ?thesis by blast
qed

text \<open>
  C3 (counterexample). For the out-tangent \<open>(pi / 4, 2)\<close> the value read is 2 and the
  write path stores the angle \<open>arctan 4\<close>, which is more than \<open>pi / 12\<close> away from
  \<open>pi / 4\<close>. For the in-tangent \<open>(pi / 4, 1)\<close> the value read is 1 and the write path
  stores the angle \<open>- pi / 4\<close>.
\<close>

theorem tangent_roundtrip_counterexample:
  "getTangent steepCurve 0 False = Some (pi / 4, 2) \<and>
   tangentVal steepCurve 0 kOutTangent = 2 \<and>
   MotionPath_setTangentValue 24 (tangentVal steepCurve 0 kOutTangent) steepCurve kOutTangent 1
     = Written (setTangent steepCurve 0 (arctan 4, 2) False) \<and>
   getTangent (setTangent steepCurve 0 (arctan 4, 2) False) 0 False = Some (arctan 4, 2) \<and>
   1 / 1000000 < \<bar>arctan 4 - pi / 4\<bar> \<and>
   getTangent unitCurve 1 True = Some (pi / 4, 1) \<and>
   tangentVal unitCurve 1 kInTangent = 1 \<and>
   MotionPath_setTangentValue 24 (tangentVal unitCurve 1 kInTangent) unitCurve kInTangent 5
     = Written (setTangent unitCurve 1 (- (pi / 4), 1) True) \<and>
   getTangent (setTangent unitCurve 1 (- (pi / 4), 1) True) 1 True = Some (- (pi / 4), 1) \<and>
   1 / 1000000 < \<bar>- (pi / 4) - pi / 4\<bar>"
proof -
  have a: "getTangent steepCurve 0 False = Some (pi / 4, 2)"
    by (simp add: steepCurve_def getTangent_def numKeys_def)
  have b: "getTangent (setTangent steepCurve 0 (arctan 4, 2) False) 0 False = Some (arctan 4, 2)"
    by (rule getTangent_setTangent) (simp add: steepCurve_def numKeys_def)
  have c: "getTangent unitCurve 1 True = Some (pi / 4, 1)"
    by (simp add: unitCurve_def getTangent_def numKeys_def)
  have d: "getTangent (setTangent unitCurve 1 (- (pi / 4), 1) True) 1 True
             = Some (- (pi / 4), 1)"
    by (rule getTangent_setTangent) (simp add: unitCurve_def numKeys_def)
  have "2 \<le> pi" by (rule pi_ge_two)
  then have e: "1 / 1000000 < \<bar>- (pi / 4) - pi / 4\<bar>" by linarith
  from a steep_read steep_write b arctan_4_far c unit_in_read unit_in_write d e
  show ?thesis by blast
qed

theorem rotation_only_key_retained_witness:
  "showRotationKeyFrames exampleSettings \<and>
   isCurveTypeAnimatable (animCurveType rotXCurve) \<and>
   keyTime (curveKeys rotXCurve ! 0) = 10 \<and>
   displayStartTime exampleTrack \<le> 10 \<and> 10 \<le> displayEndTime exampleTrack \<and>
   (\<exists>kf. map_of (keyframesCache (cacheKeyFrames exampleSettings exampleScene 0
              noCurve noCurve noCurve rotXCurve noCurve noCurve None exampleTrack)) 10 = Some kf \<and>
         rotKeyId kAxisX kf = int 0 \<and> xKeyId kf = - 1 \<and> yKeyId kf = - 1 \<and> zKeyId kf = - 1)"
proof -
  have rot: "showRotationKeyFrames exampleSettings" by (simp add: exampleSettings_def)
  have sel: "rotXCurve = (case kAxisX of kAxisX \<Rightarrow> rotXCurve | kAxisY \<Rightarrow> noCurve
                          | kAxisZ \<Rightarrow> noCurve)" by simp
  have an: "isCurveTypeAnimatable (animCurveType rotXCurve)"
    by (simp add: rotXCurve_def isCurveTypeAnimatable_def)
  have notr: "curveKeys noCurve = [] \<and> curveKeys noCurve = [] \<and> curveKeys noCurve = []"
    by (simp add: noCurve_def)
  have so: "sorted_wrt (<) (map keyTime (curveKeys rotXCurve))" by (simp add: rotXCurve_def)
  have k: "0 < length (curveKeys rotXCurve)" by (simp add: rotXCurve_def)
  have t: "keyTime (curveKeys rotXCurve ! 0) = 10" by (simp add: rotXCurve_def)
  have w1: "displayStartTime exampleTrack \<le> 10" by (simp add: exampleTrack_def)
  have w2: "10 \<le> (if isDrawing exampleTrack then endDrawingTime exampleTrack
                    else displayEndTime exampleTrack)" by (simp add: exampleTrack_def)
  have w3: "10 \<le> displayEndTime exampleTrack" by (simp add: exampleTrack_def)
  have empty: "keyframesCache exampleTrack = []" by (simp add: exampleTrack_def)
  from rotation_only_key_retained [OF rot sel an notr so k t w1 w2 empty,
      of exampleScene 0 None] rot an t w1 w3
  show ?thesis by simp
qed

text \<open>
  C8 (counterexample). With \<open>showRotationKeyFrames\<close> off, the rotation-X key at time 10
  inside the display window gets no record.
\<close>

theorem rotation_key_hidden_counterexample:
  "curveKeys noCurve = [] \<and> keyTime (curveKeys rotXCurve ! 0) = 10 \<and>
   displayStartTime exampleTrack \<le> 10 \<and> 10 \<le> displayEndTime exampleTrack \<and>
   map_of (keyframesCache (cacheKeyFrames hiddenRotationSettings exampleScene 0
     noCurve noCurve noCurve rotXCurve noCurve noCurve None exampleTrack)) 10 = None"
  by (simp add: cacheKeyFrames_def hiddenRotationSettings_def exampleSettings_def noCurve_def
      rotXCurve_def exampleTrack_def isCurveTypeAnimatable_def setShowInOutTangents_def
      numKeys_def Let_def)

end
